(* ===== verification/Oim_Prelude.thy ===== *)
theory Oim_Prelude
  imports Main "HOL-Library.Word" "HOL-Library.Sublist" "HOL-Library.Signed_Division"
begin

text \<open>
  What every component of the development shares: Go's machine integers, Go's error
  values with their gRPC status codes, the outcome of a call that may panic, and
  generic lemmas on lists, maps and case distinctions.

  A fallible Go function \<^verbatim>\<open>func f(..) (T, error)\<close> returns \<open>go_error + T\<close>: \<open>Inl e\<close> for
  a non-nil error (the other results are then not used by the callers modelled here)
  and \<open>Inr v\<close> for a nil error. A function that can panic returns an \<open>outcome\<close>. A Go
  string is the list of its bytes.
\<close>

named_theorems oim_simps \<open>unfolding rules of the small operations\<close>
named_theorems oim_inv \<open>invariants and their preservation by every operation\<close>

section \<open>Machine integers\<close>

type_synonym uint32 = "32 word"

text \<open>
  \<open>int64\<close> and \<open>int\<close> values of the program are kept as \<^typ>\<open>int\<close>, with the two's
  complement wrap-around written out by \<open>wrap64\<close> wherever the code computes. Go's
  integer division truncates towards zero.
\<close>

definition wrap64 :: "int \<Rightarrow> int" where
  "wrap64 x = signed_take_bit 63 x"

definition go_div :: "int \<Rightarrow> int \<Rightarrow> int" where
  "go_div a b = wrap64 (a sdiv b)"

definition is_int64 :: "int \<Rightarrow> bool" where
  "is_int64 x \<longleftrightarrow> - (2 ^ 63) \<le> x \<and> x < 2 ^ 63"

lemma wrap64_id: "is_int64 x \<Longrightarrow> wrap64 x = x"
  unfolding wrap64_def is_int64_def by (simp add: signed_take_bit_int_eq_self)

lemma is_int64_wrap64 [simp]: "is_int64 (wrap64 x)"
  using signed_take_bit_int_greater_eq_minus_exp [of 63 x] signed_take_bit_int_less_exp [of 63 x]
  unfolding wrap64_def is_int64_def by simp

lemma sdiv_pos: "0 \<le> a \<Longrightarrow> 0 < b \<Longrightarrow> a sdiv b = a div (b :: int)"
  by (cases "a = 0") (simp_all add: signed_divide_int_def sgn_if)

lemma sdiv_neg_small: "- b < a \<Longrightarrow> a < 0 \<Longrightarrow> a sdiv b = (0 :: int)"
  by (simp add: signed_divide_int_def sgn_if div_pos_pos_trivial)

lemma is_int64_div:
  assumes "is_int64 a" and "0 \<le> a" and "0 < b"
  shows "is_int64 (a div b)" and "is_int64 (a div b * b)"
proof -
  have nn: "0 \<le> a div b" using assms(2,3) by (simp add: pos_imp_zdiv_nonneg_iff)
  moreover have "a div b * b \<le> a" using assms(3) by (simp add: minus_mod_eq_div_mult [symmetric])
  moreover have "a div b \<le> a div b * b" using mult_left_mono [OF _ nn, of 1 b] assms(3) by simp
  ultimately show "is_int64 (a div b)" "is_int64 (a div b * b)"
    using assms(1) by (simp_all add: is_int64_def)
qed

section \<open>Errors\<close>

text \<open>The gRPC status codes that the code names, and the code of an error without status.\<close>

datatype grpc_code = Unknown | InvalidArgument | DeadlineExceeded | NotFound | AlreadyExists
  | PermissionDenied | FailedPrecondition | OutOfRange | Unimplemented | Internal | Unavailable

text \<open>The errno values that the code distinguishes.\<close>

datatype errno = ENOENT | EEXIST | EACCES | EPERM | EBUSY | ENOTDIR | ENOTEMPTY | ENOTCONN | ESTALE | EIO
  | EINVAL | OtherErrno nat

text \<open>
  Error values keep the format string and the arguments instead of the formatted text,
  except \<open>ErrText\<close>, an error whose text is known.
\<close>

datatype go_error =
    ErrText string
  | Errorf string "string list"
  | StatusErr grpc_code string "string list"
  | StatusOf grpc_code go_error
  | Wrap go_error string
  | OsError errno

text \<open>\<^verbatim>\<open>status.Code\<close>: only an error made by the status package carries a code.\<close>

fun status_code :: "go_error \<Rightarrow> grpc_code" where
  "status_code (StatusErr c f as) = c"
| "status_code (StatusOf c e) = c"
| "status_code _ = Unknown"

text \<open>What a gRPC client receives for the error a remote handler returns.\<close>

definition grpc_wire :: "go_error \<Rightarrow> go_error" where
  "grpc_wire e = (case e of StatusErr c f as \<Rightarrow> StatusErr c f as | StatusOf c d \<Rightarrow> StatusOf c d
     | _ \<Rightarrow> StatusOf Unknown e)"

lemma status_code_grpc_wire [simp]: "status_code (grpc_wire e) = status_code e"
  by (cases e) (simp_all add: grpc_wire_def)

fun os_IsNotExist :: "go_error \<Rightarrow> bool" where
  "os_IsNotExist (OsError e) = (e = ENOENT)"
| "os_IsNotExist _ = False"

fun os_IsExist :: "go_error \<Rightarrow> bool" where
  "os_IsExist (OsError e) = (e = EEXIST \<or> e = ENOTEMPTY)"
| "os_IsExist _ = False"

fun os_IsPermission :: "go_error \<Rightarrow> bool" where
  "os_IsPermission (OsError e) = (e = EACCES \<or> e = EPERM)"
| "os_IsPermission _ = False"

type_synonym 'a result = "go_error + 'a"

section \<open>Panics\<close>

datatype 'a outcome = Panic | Ret 'a

fun panics :: "'a outcome \<Rightarrow> bool" where
  "panics Panic = True"
| "panics (Ret x) = False"

fun outcome_bind :: "'a outcome \<Rightarrow> ('a \<Rightarrow> 'b outcome) \<Rightarrow> 'b outcome" where
  "outcome_bind Panic f = Panic"
| "outcome_bind (Ret x) f = f x"

lemma outcome_bind_eq_Ret:
  "outcome_bind m f = Ret y \<longleftrightarrow> (\<exists>x. m = Ret x \<and> f x = Ret y)"
  by (cases m) auto

section \<open>Lists and maps\<close>

lemma isl_cases: "isl r \<or> (\<exists>x. r = Inr x)"
  by (cases r) auto

lemma find_Some_conv:
  "find P xs = Some x \<Longrightarrow> P x \<and> x \<in> set xs"
  by (induction xs) (auto split: if_splits)

lemma find_Some_split:
  "find P xs = Some x \<longleftrightarrow> (\<exists>us vs. xs = us @ x # vs \<and> P x \<and> (\<forall>u \<in> set us. \<not> P u))"
proof
  show "find P xs = Some x \<Longrightarrow> \<exists>us vs. xs = us @ x # vs \<and> P x \<and> (\<forall>u \<in> set us. \<not> P u)"
  proof (induction xs)
    case (Cons a xs)
    show ?case
    proof (cases "P a")
      case True
      with Cons.prems have "a # xs = [] @ x # xs" "P x" by simp_all
      then show ?thesis by fastforce
    next
      case False
      with Cons obtain us vs where "xs = us @ x # vs" "P x" "\<forall>u \<in> set us. \<not> P u" by auto
      with False have "a # xs = (a # us) @ x # vs \<and> P x \<and> (\<forall>u \<in> set (a # us). \<not> P u)" by simp
      then show ?thesis by blast
    qed
  qed simp
next
  assume "\<exists>us vs. xs = us @ x # vs \<and> P x \<and> (\<forall>u \<in> set us. \<not> P u)"
  then obtain us vs where "xs = us @ x # vs" "P x" "\<forall>u \<in> set us. \<not> P u" by blast
  then show "find P xs = Some x" by (induction us arbitrary: xs) auto
qed

lemma map_of_filter_key:
  "map_of (filter (\<lambda>p. fst p \<noteq> k) ps) k' = (if k' = k then None else map_of ps k')"
  by (induction ps) auto

lemma map_of_rev_distinct: "distinct (map fst ps) \<Longrightarrow> map_of (rev ps) = map_of ps"
proof (induction ps)
  case (Cons p ps)
  then have "fst p \<notin> dom (map_of ps)" by (simp add: dom_map_of_conv_image_fst)
  with Cons show ?case
    by (auto simp: map_add_def fun_eq_iff domIff split: option.split)
qed simp

lemma distinct_filter_keys:
  "distinct (map fst ps) \<Longrightarrow> distinct (map fst (filter P ps))"
  by (induction ps) auto

lemma prefix_iff_take: "prefix p s \<longleftrightarrow> take (length p) s = p"
  by (metis append_eq_conv_conj prefixE prefixI append_take_drop_id)

end
