(* ===== verification/Go_Strings.thy ===== *)
theory Go_Strings
  imports Oim_Prelude
begin

text \<open>
  The part of Go's \<^verbatim>\<open>strings\<close>, \<^verbatim>\<open>strconv\<close> and \<^verbatim>\<open>fmt\<close> packages that the program uses, on
  strings as byte lists. Case conversion and white space are those of ASCII.

  Every separator the program splits at is one byte, except \<^verbatim>\<open>"://"\<close>, which is cut with
  \<open>strings_Index\<close>.
\<close>

section \<open>Prefixes, suffixes and searching\<close>

definition strings_HasPrefix :: "string \<Rightarrow> string \<Rightarrow> bool" where
  "strings_HasPrefix s p = (take (length p) s = p)"

definition strings_HasSuffix :: "string \<Rightarrow> string \<Rightarrow> bool" where
  "strings_HasSuffix s p = (length p \<le> length s \<and> drop (length s - length p) s = p)"

definition strings_TrimPrefix :: "string \<Rightarrow> string \<Rightarrow> string" where
  "strings_TrimPrefix s p = (if strings_HasPrefix s p then drop (length p) s else s)"

definition strings_TrimSuffix :: "string \<Rightarrow> string \<Rightarrow> string" where
  "strings_TrimSuffix s p =
     (if strings_HasSuffix s p then take (length s - length p) s else s)"

text \<open>The index of the first and of the last occurrence of \<open>p\<close> in \<open>s\<close>.\<close>

fun strings_Index :: "string \<Rightarrow> string \<Rightarrow> nat option" where
  "strings_Index [] p = (if p = [] then Some 0 else None)"
| "strings_Index (c # cs) p =
     (if strings_HasPrefix (c # cs) p then Some 0 else map_option Suc (strings_Index cs p))"

fun strings_LastIndex :: "string \<Rightarrow> string \<Rightarrow> nat option" where
  "strings_LastIndex [] p = (if p = [] then Some 0 else None)"
| "strings_LastIndex (c # cs) p =
     (case strings_LastIndex cs p of Some i \<Rightarrow> Some (Suc i)
      | None \<Rightarrow> if strings_HasPrefix (c # cs) p then Some 0 else None)"

definition strings_Contains :: "string \<Rightarrow> string \<Rightarrow> bool" where
  "strings_Contains s p = (strings_Index s p \<noteq> None)"

text \<open>\<^verbatim>\<open>strings.Replace(s, old, "", 1)\<close>.\<close>

definition strings_Remove1 :: "string \<Rightarrow> string \<Rightarrow> string" where
  "strings_Remove1 s old =
     (case strings_Index s old of None \<Rightarrow> s | Some i \<Rightarrow> take i s @ drop (i + length old) s)"

lemma strings_HasPrefix_iff: "strings_HasPrefix s p \<longleftrightarrow> (\<exists>t. s = p @ t)"
  unfolding strings_HasPrefix_def by (metis append_eq_conv_conj append_take_drop_id)

lemma strings_HasPrefix_append [simp]: "strings_HasPrefix (p @ t) p"
  by (simp add: strings_HasPrefix_def)

lemma strings_HasSuffix_iff: "strings_HasSuffix s p \<longleftrightarrow> (\<exists>t. s = t @ p)"
proof
  assume "strings_HasSuffix s p"
  then have "s = take (length s - length p) s @ p"
    unfolding strings_HasSuffix_def by (metis append_take_drop_id)
  then show "\<exists>t. s = t @ p" ..
qed (auto simp: strings_HasSuffix_def)

lemma strings_TrimSuffix_append [simp]: "strings_TrimSuffix (t @ p) p = t"
  by (simp add: strings_TrimSuffix_def strings_HasSuffix_def)

lemma strings_TrimPrefix_append [simp]: "strings_TrimPrefix (p @ t) p = t"
  by (simp add: strings_TrimPrefix_def)

lemma strings_Index_Some:
  "strings_Index s p = Some i \<Longrightarrow> \<exists>u v. s = u @ p @ v \<and> length u = i"
proof (induction s arbitrary: i)
  case Nil
  then show ?case by (auto split: if_splits)
next
  case (Cons c cs)
  show ?case
  proof (cases "strings_HasPrefix (c # cs) p")
    case True
    with Cons.prems show ?thesis
      by (auto simp: strings_HasPrefix_iff intro: exI [of _ "[]"])
  next
    case False
    with Cons.prems obtain j where j: "strings_Index cs p = Some j" "i = Suc j" by auto
    from Cons.IH [OF j(1)] obtain u v where "cs = u @ p @ v" "length u = j" by blast
    with j(2) show ?thesis by (intro exI [of _ "c # u"] exI [of _ v]) simp
  qed
qed

lemma strings_Index_append: "\<exists>i. strings_Index (u @ p @ v) p = Some i \<and> i \<le> length u"
proof (induction u)
  case Nil
  have "strings_HasPrefix (p @ v) p" by simp
  then show ?case by (cases "p @ v") auto
next
  case (Cons c u)
  then obtain i where "strings_Index (u @ p @ v) p = Some i" "i \<le> length u" by blast
  then show ?case by simp
qed

lemma strings_Contains_iff: "strings_Contains s p \<longleftrightarrow> (\<exists>u v. s = u @ p @ v)"
proof
  assume "strings_Contains s p"
  then obtain i where "strings_Index s p = Some i" by (auto simp: strings_Contains_def)
  then show "\<exists>u v. s = u @ p @ v" by (blast dest: strings_Index_Some)
next
  assume "\<exists>u v. s = u @ p @ v"
  then obtain u v where "s = u @ p @ v" by blast
  with strings_Index_append [of u p v] show "strings_Contains s p"
    by (auto simp: strings_Contains_def)
qed

lemma strings_LastIndex_Some:
  "strings_LastIndex s p = Some i \<Longrightarrow> \<exists>u v. s = u @ p @ v \<and> length u = i"
proof (induction s arbitrary: i)
  case Nil
  then show ?case by (auto split: if_splits)
next
  case (Cons c cs)
  show ?case
  proof (cases "strings_LastIndex cs p")
    case None
    with Cons.prems have "strings_HasPrefix (c # cs) p" "i = 0" by (auto split: if_splits)
    then show ?thesis by (auto simp: strings_HasPrefix_iff intro: exI [of _ "[]"])
  next
    case (Some j)
    with Cons.prems have i: "i = Suc j" by simp
    from Cons.IH [OF Some] obtain u v where "cs = u @ p @ v" "length u = j" by blast
    with i show ?thesis by (intro exI [of _ "c # u"] exI [of _ v]) simp
  qed
qed

section \<open>Splitting and joining\<close>

fun strings_Join :: "string list \<Rightarrow> string \<Rightarrow> string" where
  "strings_Join [] sep = []"
| "strings_Join [x] sep = x"
| "strings_Join (x # y # zs) sep = x @ sep @ strings_Join (y # zs) sep"

text \<open>The loop of \<^verbatim>\<open>strings.Split\<close> with the current piece \<open>acc\<close>.\<close>

fun split_loop :: "char \<Rightarrow> string \<Rightarrow> string \<Rightarrow> string list" where
  "split_loop c acc [] = [acc]"
| "split_loop c acc (x # xs) =
     (if x = c then acc # split_loop c [] xs else split_loop c (acc @ [x]) xs)"

definition strings_Split :: "string \<Rightarrow> char \<Rightarrow> string list" where
  "strings_Split s c = split_loop c [] s"

text \<open>The loop of \<^verbatim>\<open>strings.FieldsFunc\<close>: maximal runs of bytes outside \<open>f\<close>.\<close>

fun fields_loop :: "(char \<Rightarrow> bool) \<Rightarrow> string \<Rightarrow> string \<Rightarrow> string list" where
  "fields_loop f acc [] = (if acc = [] then [] else [acc])"
| "fields_loop f acc (x # xs) =
     (if f x then (if acc = [] then fields_loop f [] xs else acc # fields_loop f [] xs)
      else fields_loop f (acc @ [x]) xs)"

definition strings_FieldsFunc :: "string \<Rightarrow> (char \<Rightarrow> bool) \<Rightarrow> string list" where
  "strings_FieldsFunc s f = fields_loop f [] s"

text \<open>
  The ASCII characters for which \<^verbatim>\<open>unicode.IsSpace\<close> holds, and those of the class \<^verbatim>\<open>\s\<close> of
  package \<^verbatim>\<open>regexp\<close>, which leaves out the vertical tab.
\<close>

definition is_space :: "char \<Rightarrow> bool" where
  "is_space c = (of_char c \<in> {9::nat, 10, 11, 12, 13, 32})"

definition re_space :: "char \<Rightarrow> bool" where
  "re_space c = (of_char c \<in> {9::nat, 10, 12, 13, 32})"

definition strings_Fields :: "string \<Rightarrow> string list" where
  "strings_Fields s = strings_FieldsFunc s is_space"

lemma split_loop_nonempty [simp]: "split_loop c acc s \<noteq> []"
  by (induction c acc s rule: split_loop.induct) auto

lemma strings_Split_nonempty [simp]: "strings_Split s c \<noteq> []"
  by (simp add: strings_Split_def)

lemma Join_Cons: "ys \<noteq> [] \<Longrightarrow> strings_Join (x # ys) sep = x @ sep @ strings_Join ys sep"
  by (cases ys) auto

lemma Join_append:
  "xs \<noteq> [] \<Longrightarrow> ys \<noteq> [] \<Longrightarrow>
   strings_Join (xs @ ys) sep = strings_Join xs sep @ sep @ strings_Join ys sep"
proof (induction xs)
  case Nil
  then show ?case by simp
next
  case (Cons x xs)
  then show ?case by (cases xs) (simp_all add: Join_Cons)
qed

text \<open>Splitting at a byte loses nothing: joining gives the string back.\<close>

lemma Join_split_loop: "strings_Join (split_loop c acc s) [c] = acc @ s"
  by (induction c acc s rule: split_loop.induct) (simp_all add: Join_Cons)

lemma Join_Split: "strings_Join (strings_Split s c) [c] = s"
  by (simp add: strings_Split_def Join_split_loop)

lemma split_loop_no_sep:
  "c \<notin> set acc \<Longrightarrow> x \<in> set (split_loop c acc s) \<Longrightarrow> c \<notin> set x"
proof (induction s arbitrary: acc)
  case (Cons y s)
  from Cons.IH [of "[]"] Cons.IH [of "acc @ [y]"] Cons.prems show ?case
    by (cases "y = c") auto
qed simp

lemma split_loop_word: "c \<notin> set w \<Longrightarrow> split_loop c acc (w @ s) = split_loop c (acc @ w) s"
  by (induction w arbitrary: acc) auto

text \<open>Pieces without the separator survive a join and a split.\<close>

lemma Split_Join:
  "xs \<noteq> [] \<Longrightarrow> (\<forall>x \<in> set xs. c \<notin> set x) \<Longrightarrow> strings_Split (strings_Join xs [c]) c = xs"
  unfolding strings_Split_def
proof (induction xs)
  case Nil
  then show ?case by simp
next
  case (Cons x xs)
  have x: "split_loop c [] (x @ s) = split_loop c x s" for s
    using Cons.prems(2) split_loop_word [of c x "[]" s] by simp
  show ?case
  proof (cases xs)
    case Nil
    with x [of "[]"] show ?thesis by simp
  next
    case (Cons y ys)
    then have ne: "xs \<noteq> []" by simp
    then have "split_loop c [] (strings_Join (x # xs) [c]) = split_loop c x (c # strings_Join xs [c])"
      by (simp add: Join_Cons x)
    also have "\<dots> = x # split_loop c [] (strings_Join xs [c])" by simp
    also have "\<dots> = x # xs" using Cons.IH [OF ne] Cons.prems(2) by simp
    finally show ?thesis .
  qed
qed

lemma fields_loop_word:
  "(\<forall>x \<in> set w. \<not> f x) \<Longrightarrow> fields_loop f acc (w @ s) = fields_loop f (acc @ w) s"
  by (induction w arbitrary: acc) auto

lemma fields_loop_elems:
  "(\<forall>x \<in> set acc. \<not> f x) \<Longrightarrow> e \<in> set (fields_loop f acc s) \<Longrightarrow>
   e \<noteq> [] \<and> (\<forall>x \<in> set e. \<not> f x)"
proof (induction s arbitrary: acc)
  case Nil
  then show ?case by (cases "acc = []") auto
next
  case (Cons y s)
  show ?case
  proof (cases "f y")
    case True
    with Cons.prems have "e \<in> set (fields_loop f [] s) \<or> acc \<noteq> [] \<and> e = acc"
      by (cases "acc = []") auto
    with Cons.IH [of "[]"] Cons.prems(1) show ?thesis by auto
  next
    case False
    with Cons.prems(1) have a: "\<forall>x \<in> set (acc @ [y]). \<not> f x" by simp
    from False Cons.prems(2) have b: "e \<in> set (fields_loop f (acc @ [y]) s)" by simp
    from Cons.IH [OF a b] show ?thesis .
  qed
qed

lemma FieldsFunc_elems:
  "e \<in> set (strings_FieldsFunc s f) \<Longrightarrow> e \<noteq> [] \<and> (\<forall>x \<in> set e. \<not> f x)"
  unfolding strings_FieldsFunc_def by (rule fields_loop_elems) simp_all

text \<open>Words joined by one separator byte are the fields of the joined string.\<close>

lemma FieldsFunc_Join:
  assumes "f c" and "\<forall>x \<in> set xs. x \<noteq> [] \<and> (\<forall>y \<in> set x. \<not> f y)"
  shows "strings_FieldsFunc (strings_Join xs [c]) f = xs"
  using assms(2) unfolding strings_FieldsFunc_def
proof (induction xs)
  case Nil
  then show ?case by simp
next
  case (Cons x xs)
  have x: "fields_loop f [] (x @ s) = fields_loop f x s" for s
    using Cons.prems fields_loop_word [of x f "[]" s] by simp
  show ?case
  proof (cases xs)
    case Nil
    with x [of "[]"] Cons.prems show ?thesis by simp
  next
    case (Cons y ys)
    then have "fields_loop f [] (strings_Join (x # xs) [c]) = fields_loop f x (c # strings_Join xs [c])"
      by (simp add: Join_Cons x)
    also have "\<dots> = x # fields_loop f [] (strings_Join xs [c])"
      using assms(1) Cons.prems by simp
    also have "\<dots> = x # xs" using Cons.IH Cons.prems by simp
    finally show ?thesis .
  qed
qed

lemma fields_loop_append_sep:
  "f c \<Longrightarrow> fields_loop f acc (s @ c # t) = fields_loop f acc s @ fields_loop f [] t"
  by (induction f acc s rule: fields_loop.induct) auto

end
