(* ===== verification/Go_Strconv.thy ===== *)
theory Go_Strconv
  imports Go_Strings
begin

text \<open>
  Numbers in text: the digits of package \<^verbatim>\<open>strconv\<close> (\<^verbatim>\<open>Atoi\<close>, \<^verbatim>\<open>Itoa\<close>, \<^verbatim>\<open>ParseUint\<close> with base 16
  and 16 bits) and the verbs \<^verbatim>\<open>%d\<close>, \<^verbatim>\<open>%x\<close>, \<^verbatim>\<open>%02x\<close> and \<^verbatim>\<open>%04x\<close> of package \<^verbatim>\<open>fmt\<close>. The main
  lemmas are the round trip of printing and parsing in any base from 2 to 16 and the
  bounds of what a given number of digits denotes.
\<close>

section \<open>Digits\<close>

definition digit_char :: "nat \<Rightarrow> char" where
  "digit_char d = char_of (if d < 10 then 48 + d else 87 + d)"

definition digit_val :: "char \<Rightarrow> nat option" where
  "digit_val c = (let n = of_char c in
     if 48 \<le> n \<and> n \<le> 57 then Some (n - 48)
     else if 97 \<le> n \<and> n \<le> 102 then Some (n - 87)
     else if 65 \<le> n \<and> n \<le> 70 then Some (n - 55)
     else None)"

definition is_digit :: "char \<Rightarrow> bool" where
  "is_digit c = (48 \<le> (of_char c :: nat) \<and> (of_char c :: nat) \<le> 57)"

definition is_hex_digit :: "char \<Rightarrow> bool" where
  "is_hex_digit c = (digit_val c \<noteq> None)"

lemma digit_val_less: "digit_val c = Some d \<Longrightarrow> d < 16"
  by (auto simp: digit_val_def Let_def split: if_splits)

lemma digit_val_decimal: "is_digit c \<Longrightarrow> \<exists>d. digit_val c = Some d \<and> d < 10"
  by (auto simp: digit_val_def is_digit_def Let_def)

lemma is_hex_digit_if_digit: "is_digit c \<Longrightarrow> is_hex_digit c"
  using digit_val_decimal by (auto simp: is_hex_digit_def)

lemma of_char_digit_char:
  "d < 16 \<Longrightarrow> of_char (digit_char d) = (if d < 10 then 48 + d else 87 + d)"
  by (simp add: digit_char_def)

lemma digit_val_digit_char [simp]: "d < 16 \<Longrightarrow> digit_val (digit_char d) = Some d"
  by (auto simp: digit_val_def Let_def of_char_digit_char)

lemma is_digit_digit_char: "d < 10 \<Longrightarrow> is_digit (digit_char d)"
  by (simp add: is_digit_def of_char_digit_char)

lemma is_hex_digit_digit_char: "d < 16 \<Longrightarrow> is_hex_digit (digit_char d)"
  by (simp add: is_hex_digit_def)

section \<open>Printing and parsing in a base\<close>

fun print_base :: "nat \<Rightarrow> nat \<Rightarrow> string" where
  "print_base b n =
     (if n < b \<or> b < 2 then [digit_char n] else print_base b (n div b) @ [digit_char (n mod b)])"

declare print_base.simps [simp del]

fun parse_base :: "nat \<Rightarrow> nat \<Rightarrow> string \<Rightarrow> nat option" where
  "parse_base b acc [] = Some acc"
| "parse_base b acc (c # cs) =
     (case digit_val c of None \<Rightarrow> None
      | Some d \<Rightarrow> if d < b then parse_base b (acc * b + d) cs else None)"

lemma parse_base_append:
  "parse_base b acc (s @ t) =
     (case parse_base b acc s of None \<Rightarrow> None | Some a \<Rightarrow> parse_base b a t)"
  by (induction b acc s rule: parse_base.induct) (auto split: option.splits)

lemma print_base_nonempty [simp]: "print_base b n \<noteq> []"
  by (subst print_base.simps) simp

lemma parse_print:
  assumes "2 \<le> b" and "b \<le> 16"
  shows "parse_base b 0 (print_base b n) = Some n"
  using assms
proof (induction b n rule: print_base.induct)
  case (1 b n)
  show ?case
  proof (cases "n < b")
    case True
    with "1.prems" show ?thesis by (simp add: print_base.simps [of b n])
  next
    case False
    with 1 have "parse_base b 0 (print_base b (n div b)) = Some (n div b)" by simp
    moreover have "n mod b < b" "n mod b < 16"
      using "1.prems" mod_less_divisor [of b n] by linarith+
    ultimately show ?thesis
      using False "1.prems" by (simp add: print_base.simps [of b n] parse_base_append)
  qed
qed

lemma print_base_digits:
  assumes "2 \<le> b" and "b \<le> 16" and "c \<in> set (print_base b n)"
  shows "\<exists>d < b. c = digit_char d"
  using assms
proof (induction b n rule: print_base.induct)
  case (1 b n)
  show ?case
  proof (cases "n < b")
    case True
    with "1.prems" show ?thesis by (auto simp: print_base.simps [of b n])
  next
    case False
    have less: "n mod b < b" using "1.prems" by simp
    from False "1.prems" consider "c \<in> set (print_base b (n div b))" | "c = digit_char (n mod b)"
      by (auto simp: print_base.simps [of b n])
    then show ?thesis
    proof cases
      case 1
      with "1.IH" False "1.prems" show ?thesis by simp
    next
      case 2
      with less show ?thesis by blast
    qed
  qed
qed

lemma print_hex_digits: "c \<in> set (print_base 16 n) \<Longrightarrow> is_hex_digit c"
  using print_base_digits [of 16 c n] is_hex_digit_digit_char by auto

lemma print_dec_digits: "c \<in> set (print_base 10 n) \<Longrightarrow> is_digit c"
  using print_base_digits [of 10 c n] is_digit_digit_char by auto

lemma length_print_base:
  assumes "2 \<le> b" and "n < b ^ Suc k"
  shows "length (print_base b n) \<le> Suc k"
  using assms
proof (induction k arbitrary: n)
  case 0
  then show ?case by (subst print_base.simps) simp
next
  case (Suc k)
  have "n div b < b ^ Suc k"
    using Suc.prems by (simp add: less_mult_imp_div_less mult.commute)
  with Suc.IH Suc.prems(1) have "length (print_base b (n div b)) \<le> Suc k" by blast
  then show ?case by (subst print_base.simps) simp
qed

lemma parse_base_bound:
  "parse_base b acc s = Some n \<Longrightarrow> n < (acc + 1) * b ^ length s"
proof (induction b acc s rule: parse_base.induct)
  case (1 b acc)
  then show ?case by simp
next
  case (2 b acc c cs)
  then obtain d where d: "digit_val c = Some d" "d < b"
    and n: "parse_base b (acc * b + d) cs = Some n"
    by (auto split: option.splits if_splits)
  from "2.IH" [OF d(1,2) n] have "n < (acc * b + d + 1) * b ^ length cs" .
  also have "\<dots> \<le> ((acc + 1) * b) * b ^ length cs"
    using d(2) by (intro mult_right_mono) auto
  finally show ?case by (simp add: algebra_simps)
qed

lemma parse_base_total:
  "(\<forall>c \<in> set s. \<exists>d. digit_val c = Some d \<and> d < b) \<Longrightarrow> \<exists>n. parse_base b acc s = Some n"
proof (induction s arbitrary: acc)
  case (Cons c s)
  then obtain d where "digit_val c = Some d" "d < b" by auto
  with Cons.IH [of "acc * b + d"] Cons.prems show ?case by auto
qed simp

section \<open>The functions of strconv and the verbs of fmt\<close>

definition strconv_Itoa :: "int \<Rightarrow> string" where
  "strconv_Itoa x = (if x < 0 then CHR ''-'' # print_base 10 (nat (- x)) else print_base 10 (nat x))"

definition atoi_range :: "string \<Rightarrow> int \<Rightarrow> int result" where
  "atoi_range s x = (if is_int64 x then Inr x
     else Inl (Errorf ''strconv.Atoi: parsing %q: value out of range'' [s]))"

definition atoi_digits :: "string \<Rightarrow> string \<Rightarrow> nat option" where
  "atoi_digits s t = (if t \<noteq> [] \<and> list_all is_digit t then parse_base 10 0 t else None)"

definition strconv_Atoi :: "string \<Rightarrow> int result" where
  "strconv_Atoi s =
     (let (neg, t) = (case s of c # cs \<Rightarrow> if c = CHR ''-'' then (True, cs)
                                else if c = CHR ''+'' then (False, cs) else (False, s)
                      | [] \<Rightarrow> (False, []))
      in case atoi_digits s t of
           None \<Rightarrow> Inl (Errorf ''strconv.Atoi: parsing %q: invalid syntax'' [s])
         | Some n \<Rightarrow> atoi_range s (if neg then - int n else int n))"

text \<open>\<^verbatim>\<open>strconv.ParseUint(s, 16, 16)\<close>: \<open>None\<close> for a syntax or a range error.\<close>

definition parse_uint16_hex :: "string \<Rightarrow> nat option" where
  "parse_uint16_hex s = (if s = [] then None else
     case parse_base 16 0 s of None \<Rightarrow> None
     | Some n \<Rightarrow> if n < 2 ^ 16 then Some n else None)"

definition fmt_x :: "nat \<Rightarrow> nat \<Rightarrow> string" where
  "fmt_x w n = (let s = print_base 16 n in replicate (w - length s) (CHR ''0'') @ s)"

lemma parse_base_zeros [simp]: "0 < b \<Longrightarrow> parse_base b 0 (replicate k (CHR ''0'') @ s) = parse_base b 0 s"
  by (induction k) (simp_all add: digit_val_def)

lemma parse_fmt_x: "n < 2 ^ 16 \<Longrightarrow> parse_uint16_hex (fmt_x w n) = Some n"
  by (simp add: parse_uint16_hex_def fmt_x_def Let_def parse_print)

lemma fmt_x_hex_digits: "c \<in> set (fmt_x w n) \<Longrightarrow> is_hex_digit c"
  using print_hex_digits [of c n] is_hex_digit_if_digit [of "CHR ''0''"]
  by (auto simp: fmt_x_def Let_def is_digit_def)

lemma length_fmt_x:
  assumes "n < 16 ^ Suc k"
  shows "length (fmt_x w n) \<le> max w (Suc k)" and "fmt_x w n \<noteq> []"
  using length_print_base [of 16 n k] assms by (auto simp: fmt_x_def Let_def)

lemma parse_uint16_hex_total:
  assumes "s \<noteq> []" and "length s \<le> 4" and "\<forall>c \<in> set s. is_hex_digit c"
  shows "\<exists>n < 16 ^ length s. parse_uint16_hex s = Some n"
proof -
  have "\<forall>c \<in> set s. \<exists>d. digit_val c = Some d \<and> d < 16"
    using assms(3) digit_val_less by (fastforce simp: is_hex_digit_def)
  then obtain n where n: "parse_base 16 0 s = Some n" using parse_base_total by blast
  then have "n < 16 ^ length s" using parse_base_bound by fastforce
  moreover have "(16::nat) ^ length s \<le> 16 ^ 4"
    using assms(2) by (intro power_increasing) auto
  ultimately have "n < 16 ^ length s" "n < 2 ^ 16" by auto
  with n assms(1) show ?thesis by (auto simp: parse_uint16_hex_def)
qed

lemma list_all_is_digit_print: "list_all is_digit (print_base 10 n)"
  using print_dec_digits by (auto simp: list_all_iff)

lemma hd_print_dec: "hd (print_base 10 n) \<noteq> CHR ''-'' \<and> hd (print_base 10 n) \<noteq> CHR ''+''"
proof -
  have "is_digit (hd (print_base 10 n))"
    using print_dec_digits [of "hd (print_base 10 n)" n] by simp
  then show ?thesis by (auto simp: is_digit_def)
qed

text \<open>\<^verbatim>\<open>Atoi\<close> reads back what \<^verbatim>\<open>Itoa\<close> writes.\<close>

lemma Atoi_Itoa: "is_int64 x \<Longrightarrow> strconv_Atoi (strconv_Itoa x) = Inr x"
proof (cases "x < 0")
  case True
  assume "is_int64 x"
  with True show ?thesis
    by (simp add: strconv_Itoa_def strconv_Atoi_def atoi_digits_def atoi_range_def
        list_all_is_digit_print parse_print)
next
  case False
  assume x: "is_int64 x"
  obtain c cs where s: "print_base 10 (nat x) = c # cs"
    by (cases "print_base 10 (nat x)") auto
  with hd_print_dec [of "nat x"] have "c \<noteq> CHR ''-''" "c \<noteq> CHR ''+''" by auto
  moreover have "list_all is_digit (c # cs)" "parse_base 10 0 (c # cs) = Some (nat x)"
    using list_all_is_digit_print [of "nat x"] parse_print [of 10 "nat x"] s by simp_all
  ultimately show ?thesis
    using x False s
    by (simp add: strconv_Itoa_def strconv_Atoi_def atoi_digits_def atoi_range_def del: parse_base.simps)
qed

end
