(* ===== verification/Go_Errors.thy ===== *)
theory Go_Errors
  imports Go_Strconv
begin

text \<open>
  The text of an error, \<^verbatim>\<open>err.Error()\<close>: the formatting of \<^verbatim>\<open>fmt.Sprintf\<close> for the verbs the code
  uses (\<^verbatim>\<open>%s\<close>, \<^verbatim>\<open>%v\<close>, \<^verbatim>\<open>%d\<close>, \<^verbatim>\<open>%q\<close>, with arguments already converted to text), the texts of
  \<^verbatim>\<open>errors.Wrap\<close> and of a gRPC status. \<^verbatim>\<open>%q\<close> puts the argument between double quotes; arguments
  with characters that Go would escape there are not distinguished.
\<close>

fun sprintf :: "string \<Rightarrow> string list \<Rightarrow> string" where
  "sprintf [] as = []"
| "sprintf [c] as = [c]"
| "sprintf (c # v # f) as =
     (if c = CHR ''%'' \<and> v \<in> {CHR ''s'', CHR ''v'', CHR ''d'', CHR ''q''}
      then (case as of
              [] \<Rightarrow> ''%!'' @ [v] @ ''(MISSING)'' @ sprintf f []
            | a # as' \<Rightarrow> (if v = CHR ''q'' then [CHR 0x22] @ a @ [CHR 0x22] else a) @ sprintf f as')
      else c # sprintf (v # f) as)"

fun code_name :: "grpc_code \<Rightarrow> string" where
  "code_name Unknown = ''Unknown''"
| "code_name InvalidArgument = ''InvalidArgument''"
| "code_name DeadlineExceeded = ''DeadlineExceeded''"
| "code_name NotFound = ''NotFound''"
| "code_name AlreadyExists = ''AlreadyExists''"
| "code_name PermissionDenied = ''PermissionDenied''"
| "code_name FailedPrecondition = ''FailedPrecondition''"
| "code_name OutOfRange = ''OutOfRange''"
| "code_name Unimplemented = ''Unimplemented''"
| "code_name Internal = ''Internal''"
| "code_name Unavailable = ''Unavailable''"

fun errno_text :: "errno \<Rightarrow> string" where
  "errno_text ENOENT = ''no such file or directory''"
| "errno_text EEXIST = ''file exists''"
| "errno_text EACCES = ''permission denied''"
| "errno_text EPERM = ''operation not permitted''"
| "errno_text EBUSY = ''device or resource busy''"
| "errno_text ENOTDIR = ''not a directory''"
| "errno_text ENOTEMPTY = ''directory not empty''"
| "errno_text ENOTCONN = ''transport endpoint is not connected''"
| "errno_text ESTALE = ''stale file handle''"
| "errno_text EIO = ''input/output error''"
| "errno_text EINVAL = ''invalid argument''"
| "errno_text (OtherErrno n) = ''errno '' @ print_base 10 n"

fun error_text :: "go_error \<Rightarrow> string" where
  "error_text (ErrText t) = t"
| "error_text (Errorf f as) = sprintf f as"
| "error_text (StatusErr c f as) = ''rpc error: code = '' @ code_name c @ '' desc = '' @ sprintf f as"
| "error_text (StatusOf c e) = ''rpc error: code = '' @ code_name c @ '' desc = '' @ error_text e"
| "error_text (Wrap e m) = m @ '': '' @ error_text e"
| "error_text (OsError e) = errno_text e"

end
