(* ===== verification/Go_Regexp.thy ===== *)
theory Go_Regexp
  imports Go_Strings
begin

text \<open>
  The part of Go's package \<^verbatim>\<open>regexp\<close> that the repository uses: literals, repeated character
  classes, groups, \<open>?\<close> and the anchors. \<^verbatim>\<open>FindStringSubmatch\<close> promises the leftmost match and,
  among the matches that start there, the one a backtracking engine finds first; so a
  pattern denotes the list of its matches in that order of preference. What a pattern
  accepts is characterised by membership in that list, one rule per construct.
\<close>

datatype rx =
    Bol
  | Eol
  | Lit string
  | Cls "char \<Rightarrow> bool" nat "nat option"
  | Grp nat rx
  | Opt rx
  | Cat rx rx

text \<open>A matcher state: the position, the rest of the input and the groups closed so far.\<close>

type_synonym rx_state = "nat \<times> string \<times> (nat \<times> string) list"

definition rx_limit :: "nat option \<Rightarrow> nat \<Rightarrow> nat" where
  "rx_limit hi n = (case hi of None \<Rightarrow> n | Some h \<Rightarrow> min h n)"

fun rx_match :: "rx \<Rightarrow> rx_state \<Rightarrow> rx_state list" where
  "rx_match Bol (p, s, cs) = (if p = 0 then [(p, s, cs)] else [])"
| "rx_match Eol (p, s, cs) = (if s = [] then [(p, s, cs)] else [])"
| "rx_match (Lit l) (p, s, cs) =
     (if strings_HasPrefix s l then [(p + length l, drop (length l) s, cs)] else [])"
| "rx_match (Cls P lo hi) (p, s, cs) =
     map (\<lambda>k. (p + k, drop k s, cs)) (rev [lo ..< Suc (rx_limit hi (length (takeWhile P s)))])"
| "rx_match (Grp i r) (p, s, cs) =
     map (\<lambda>(p', s', cs'). (p', s', (i, take (p' - p) s) # cs')) (rx_match r (p, s, cs))"
| "rx_match (Opt r) st = rx_match r st @ [st]"
| "rx_match (Cat r1 r2) st = concat (map (rx_match r2) (rx_match r1 st))"

fun rx_cat :: "rx list \<Rightarrow> rx" where
  "rx_cat [] = Lit []"
| "rx_cat (r # rs) = Cat r (rx_cat rs)"

text \<open>The submatches of a match: the whole text, then the groups; an unmatched group is empty.\<close>

definition rx_group :: "(nat \<times> string) list \<Rightarrow> nat \<Rightarrow> string" where
  "rx_group cs i = (case map_of cs i of None \<Rightarrow> [] | Some t \<Rightarrow> t)"

fun rx_search :: "rx \<Rightarrow> nat \<Rightarrow> nat \<Rightarrow> string \<Rightarrow> string list option" where
  "rx_search r n p s =
     (case rx_match r (p, s, []) of
        (p', s', cs) # _ \<Rightarrow> Some (take (p' - p) s # map (rx_group cs) [1 ..< Suc n])
      | [] \<Rightarrow> (case s of [] \<Rightarrow> None | _ # s' \<Rightarrow> rx_search r n (Suc p) s'))"

declare rx_search.simps [simp del]

definition FindStringSubmatch :: "rx \<Rightarrow> nat \<Rightarrow> string \<Rightarrow> string list option" where
  "FindStringSubmatch r n s = rx_search r n 0 s"

section \<open>What each construct matches\<close>

lemma rx_limit_iff: "k \<le> rx_limit hi n \<longleftrightarrow> k \<le> n \<and> (case hi of None \<Rightarrow> True | Some h \<Rightarrow> k \<le> h)"
  by (auto simp: rx_limit_def split: option.splits)

lemma le_length_takeWhile_iff:
  "k \<le> length (takeWhile P s) \<longleftrightarrow> k \<le> length s \<and> list_all P (take k s)"
proof (induction s arbitrary: k)
  case (Cons a s)
  then show ?case by (cases k) auto
qed simp

lemma rx_match_Bol [simp]: "x \<in> set (rx_match Bol (p, s, cs)) \<longleftrightarrow> p = 0 \<and> x = (p, s, cs)"
  by auto

lemma rx_match_Eol [simp]: "x \<in> set (rx_match Eol (p, s, cs)) \<longleftrightarrow> s = [] \<and> x = (p, s, cs)"
  by auto

lemma rx_match_Lit:
  "x \<in> set (rx_match (Lit l) (p, s, cs)) \<longleftrightarrow> (\<exists>s'. s = l @ s' \<and> x = (p + length l, s', cs))"
  by (auto simp: strings_HasPrefix_iff prefix_def)

lemma rx_match_Cls:
  "x \<in> set (rx_match (Cls P lo hi) (p, s, cs)) \<longleftrightarrow>
     (\<exists>t s'. s = t @ s' \<and> list_all P t \<and> lo \<le> length t
       \<and> (case hi of None \<Rightarrow> True | Some h \<Rightarrow> length t \<le> h) \<and> x = (p + length t, s', cs))"
  (is "?L \<longleftrightarrow> ?R")
proof
  assume ?L
  then obtain k where k: "lo \<le> k" "k \<le> rx_limit hi (length (takeWhile P s))"
    and x: "x = (p + k, drop k s, cs)" by auto
  then have "k \<le> length s" "list_all P (take k s)" "case hi of None \<Rightarrow> True | Some h \<Rightarrow> k \<le> h"
    by (auto simp: rx_limit_iff le_length_takeWhile_iff)
  then have "s = take k s @ drop k s \<and> list_all P (take k s) \<and> lo \<le> length (take k s)
    \<and> (case hi of None \<Rightarrow> True | Some h \<Rightarrow> length (take k s) \<le> h)
    \<and> x = (p + length (take k s), drop k s, cs)"
    using k x by (auto split: option.splits)
  then show ?R by blast
next
  assume ?R
  then obtain t s' where t: "s = t @ s'" "list_all P t" "lo \<le> length t"
    "case hi of None \<Rightarrow> True | Some h \<Rightarrow> length t \<le> h" "x = (p + length t, s', cs)" by blast
  then have "length t \<le> rx_limit hi (length (takeWhile P s))"
    by (simp add: rx_limit_iff le_length_takeWhile_iff)
  with t show ?L by (auto simp: image_iff)
qed

lemma rx_match_Grp:
  "x \<in> set (rx_match (Grp i r) (p, s, cs)) \<longleftrightarrow>
     (\<exists>p' s' cs'. (p', s', cs') \<in> set (rx_match r (p, s, cs)) \<and> x = (p', s', (i, take (p' - p) s) # cs'))"
  by (auto simp: image_iff) force

lemma rx_match_Opt: "x \<in> set (rx_match (Opt r) st) \<longleftrightarrow> x \<in> set (rx_match r st) \<or> x = st"
  by auto

lemma rx_match_Cat:
  "x \<in> set (rx_match (Cat r1 r2) st) \<longleftrightarrow> (\<exists>y \<in> set (rx_match r1 st). x \<in> set (rx_match r2 y))"
  by auto

text \<open>
  A piece is a construct that consumes some text \<open>t\<close> whatever surrounds it: a literal, a
  repeated class, a concatenation of such without groups, or a group over a piece.
\<close>

fun rx_plain :: "rx \<Rightarrow> bool" where
  "rx_plain (Lit l) = True"
| "rx_plain (Cls P lo hi) = True"
| "rx_plain (Cat r1 r2) = (rx_plain r1 \<and> rx_plain r2)"
| "rx_plain _ = False"

fun rx_piece :: "rx \<Rightarrow> bool" where
  "rx_piece (Grp i r) = rx_piece r"
| "rx_piece r = rx_plain r"

fun piece_ok :: "rx \<Rightarrow> string \<Rightarrow> bool" where
  "piece_ok (Lit l) t = (t = l)"
| "piece_ok (Cat r1 r2) t = (\<exists>u v. t = u @ v \<and> piece_ok r1 u \<and> piece_ok r2 v)"
| "piece_ok (Cls P lo hi) t = (list_all P t \<and> lo \<le> length t
     \<and> (case hi of None \<Rightarrow> True | Some h \<Rightarrow> length t \<le> h))"
| "piece_ok (Grp i r) t = piece_ok r t"
| "piece_ok _ t = False"

fun piece_caps :: "rx \<Rightarrow> string \<Rightarrow> (nat \<times> string) list \<Rightarrow> (nat \<times> string) list" where
  "piece_caps (Grp i r) t cs = (i, t) # piece_caps r t cs"
| "piece_caps _ t cs = cs"

fun pieces_caps :: "rx list \<Rightarrow> string list \<Rightarrow> (nat \<times> string) list \<Rightarrow> (nat \<times> string) list" where
  "pieces_caps (r # rs) (t # ts) cs = pieces_caps rs ts (piece_caps r t cs)"
| "pieces_caps _ _ cs = cs"

lemma rx_match_plain:
  "rx_plain r \<Longrightarrow> x \<in> set (rx_match r (p, s, cs)) \<longleftrightarrow>
     (\<exists>t s'. s = t @ s' \<and> piece_ok r t \<and> x = (p + length t, s', cs))"
proof (induction r arbitrary: x p s cs)
  case (Lit l)
  show ?case by (auto simp: rx_match_Lit simp del: rx_match.simps)
next
  case (Cls P lo hi)
  show ?case by (simp add: rx_match_Cls del: rx_match.simps)
next
  case (Cat r1 r2)
  then have IH: "y \<in> set (rx_match r1 (p, s, cs)) \<longleftrightarrow>
      (\<exists>t s'. s = t @ s' \<and> piece_ok r1 t \<and> y = (p + length t, s', cs))"
    "y \<in> set (rx_match r2 (p, s, cs)) \<longleftrightarrow>
      (\<exists>t s'. s = t @ s' \<and> piece_ok r2 t \<and> y = (p + length t, s', cs))" for y p s cs
    by simp_all
  have "x \<in> set (rx_match (Cat r1 r2) (p, s, cs)) \<longleftrightarrow>
      (\<exists>u v s'. s = u @ v @ s' \<and> piece_ok r1 u \<and> piece_ok r2 v \<and> x = (p + length u + length v, s', cs))"
    unfolding rx_match_Cat Bex_def IH(1) by (auto simp: IH(2)) blast
  also have "\<dots> \<longleftrightarrow> (\<exists>t s'. s = t @ s' \<and> piece_ok (Cat r1 r2) t \<and> x = (p + length t, s', cs))"
    by (auto simp: add.assoc) (metis append_assoc length_append, blast)
  finally show ?case .
qed auto

lemma piece_caps_plain: "rx_plain r \<Longrightarrow> piece_caps r t cs = cs"
  by (cases r) auto

lemma rx_match_piece:
  "rx_piece r \<Longrightarrow> x \<in> set (rx_match r (p, s, cs)) \<longleftrightarrow>
     (\<exists>t s'. s = t @ s' \<and> piece_ok r t \<and> x = (p + length t, s', piece_caps r t cs))"
proof (induction r arbitrary: x)
  case (Grp i r)
  then have IH: "y \<in> set (rx_match r (p, s, cs)) \<longleftrightarrow>
     (\<exists>t s'. s = t @ s' \<and> piece_ok r t \<and> y = (p + length t, s', piece_caps r t cs))" for y
    by simp
  show ?case unfolding rx_match_Grp IH by force
next
  case (Cat r1 r2)
  then have "rx_plain (Cat r1 r2)" by simp
  from rx_match_plain [OF this] piece_caps_plain [OF this] show ?case by simp
qed (simp_all add: rx_match_plain del: rx_match.simps)

text \<open>A concatenation of pieces matches exactly the concatenations of the texts of its pieces.\<close>

lemma rx_match_pieces:
  "list_all rx_piece rs \<Longrightarrow> x \<in> set (rx_match (rx_cat rs) (p, s, cs)) \<longleftrightarrow>
     (\<exists>ts s'. s = concat ts @ s' \<and> list_all2 piece_ok rs ts
        \<and> x = (p + length (concat ts), s', pieces_caps rs ts cs))"
proof (induction rs arbitrary: p s cs)
  case Nil
  show ?case by (auto simp: rx_match_Lit simp del: rx_match.simps)
next
  case (Cons r rs)
  have "x \<in> set (rx_match (rx_cat (r # rs)) (p, s, cs)) \<longleftrightarrow>
      (\<exists>t s1. s = t @ s1 \<and> piece_ok r t
         \<and> x \<in> set (rx_match (rx_cat rs) (p + length t, s1, piece_caps r t cs)))"
    using Cons.prems unfolding rx_cat.simps rx_match_Cat Bex_def by (auto simp: rx_match_piece)
  also have "\<dots> \<longleftrightarrow> (\<exists>t s1 ts s'. s = t @ s1 \<and> piece_ok r t \<and> s1 = concat ts @ s'
      \<and> list_all2 piece_ok rs ts
      \<and> x = (p + length t + length (concat ts), s', pieces_caps rs ts (piece_caps r t cs)))"
    using Cons.IH Cons.prems by auto
  also have "\<dots> \<longleftrightarrow> (\<exists>t ts s'. s = concat (t # ts) @ s' \<and> list_all2 piece_ok (r # rs) (t # ts)
      \<and> x = (p + length (concat (t # ts)), s', pieces_caps (r # rs) (t # ts) cs))"
    by (auto simp: add.assoc)
  also have "\<dots> \<longleftrightarrow> (\<exists>ts s'. s = concat ts @ s' \<and> list_all2 piece_ok (r # rs) ts
      \<and> x = (p + length (concat ts), s', pieces_caps (r # rs) ts cs))"
    by (metis list_all2_Cons1)
  finally show ?case .
qed

lemma rx_match_snoc_Eol:
  "x \<in> set (rx_match (rx_cat (rs @ [Eol])) st) \<longleftrightarrow>
     (\<exists>p cs. x = (p, [], cs) \<and> x \<in> set (rx_match (rx_cat rs) st))"
proof (induction rs arbitrary: st)
  case Nil
  obtain p s cs where "st = (p, s, cs)" by (cases st)
  then show ?case by (auto simp: strings_HasPrefix_def)
next
  case (Cons r rs)
  show ?case using Cons.IH by (auto simp: rx_match_Cat simp del: rx_match.simps)
qed

lemma rx_match_pieces_Eol:
  "list_all rx_piece rs \<Longrightarrow> x \<in> set (rx_match (rx_cat (rs @ [Eol])) (p, s, cs)) \<longleftrightarrow>
     (\<exists>ts. list_all2 piece_ok rs ts \<and> s = concat ts \<and> x = (p + length s, [], pieces_caps rs ts cs))"
  unfolding rx_match_snoc_Eol using rx_match_pieces [of rs x p s cs] by auto

text \<open>An optional part in a concatenation: the matches with it and those without it.\<close>

lemma rx_match_Opt_in:
  "x \<in> set (rx_match (rx_cat (rs @ Opt q # qs)) st) \<longleftrightarrow>
     x \<in> set (rx_match (rx_cat (rs @ q # qs)) st) \<or> x \<in> set (rx_match (rx_cat (rs @ qs)) st)"
proof (induction rs arbitrary: st)
  case Nil
  show ?case by auto
next
  case (Cons r rs)
  show ?case using Cons.IH by (auto simp: rx_match_Cat simp del: rx_match.simps)
qed

lemma rx_match_Cat_in:
  "x \<in> set (rx_match (rx_cat (rs @ Cat q1 q2 # qs)) st) \<longleftrightarrow>
     x \<in> set (rx_match (rx_cat (rs @ q1 # q2 # qs)) st)"
proof (induction rs arbitrary: st)
  case Nil
  show ?case by auto
next
  case (Cons r rs)
  show ?case using Cons.IH by (auto simp: rx_match_Cat simp del: rx_match.simps)
qed

section \<open>Anchored patterns\<close>

lemma rx_search_anchored:
  "p \<noteq> 0 \<Longrightarrow> rx_search (Cat Bol r) n p s = None"
proof (induction s arbitrary: p)
  case (Cons a s)
  then show ?case by (subst rx_search.simps) simp
qed (subst rx_search.simps, simp)

lemma FindStringSubmatch_anchored:
  "FindStringSubmatch (Cat Bol r) n s =
     (case rx_match r (0, s, []) of
        (p', s', cs) # _ \<Rightarrow> Some (take p' s # map (rx_group cs) [1 ..< Suc n])
      | [] \<Rightarrow> None)"
  unfolding FindStringSubmatch_def
  by (subst rx_search.simps) (auto simp: rx_search_anchored split: list.splits)

lemma FindStringSubmatch_anchored_Some:
  "FindStringSubmatch (Cat Bol r) n s = Some ps \<Longrightarrow>
     \<exists>p' s' cs. (p', s', cs) \<in> set (rx_match r (0, s, []))
       \<and> ps = take p' s # map (rx_group cs) [1 ..< Suc n]"
  by (cases "rx_match r (0, s, [])") (force simp: FindStringSubmatch_anchored simp del: upt_Suc)+

lemma FindStringSubmatch_anchored_None:
  "FindStringSubmatch (Cat Bol r) n s = None \<longleftrightarrow> rx_match r (0, s, []) = []"
  by (auto simp: FindStringSubmatch_anchored split: list.splits)

lemma FindStringSubmatch_anchored_eq:
  assumes "x \<in> set (rx_match r (0, s, []))"
    and "\<And>p' s' cs. (p', s', cs) \<in> set (rx_match r (0, s, [])) \<Longrightarrow>
           take p' s # map (rx_group cs) [1 ..< Suc n] = ps"
  shows "FindStringSubmatch (Cat Bol r) n s = Some ps"
proof -
  obtain p' s' cs ms where m: "rx_match r (0, s, []) = (p', s', cs) # ms"
    using assms(1) by (cases "rx_match r (0, s, [])") auto
  with assms(2) [of p' s' cs] show ?thesis by (simp add: FindStringSubmatch_anchored)
qed

section \<open>Unanchored patterns\<close>

text \<open>A search moves on where the pattern does not match, and stops at the first match.\<close>

lemma rx_search_next: "rx_match r (p, c # s, []) = [] \<Longrightarrow> rx_search r n p (c # s) = rx_search r n (Suc p) s"
  by (subst rx_search.simps) simp

lemma rx_search_skip: "\<not> strings_HasPrefix (c # s) l \<Longrightarrow>
   rx_search (Cat (Lit l) r) n p (c # s) = rx_search (Cat (Lit l) r) n (Suc p) s"
  by (rule rx_search_next) simp

lemma rx_search_skip_word: "list_all (\<lambda>x. x \<noteq> c) w \<Longrightarrow>
   rx_search (Cat (Lit (c # l)) r) n p (w @ s) = rx_search (Cat (Lit (c # l)) r) n (p + length w) s"
proof (induction w arbitrary: p)
  case (Cons x w)
  then have "\<not> strings_HasPrefix (x # w @ s) (c # l)" by (simp add: strings_HasPrefix_def)
  with Cons show ?case by (simp add: rx_search_skip)
qed simp

lemma rx_search_here:
  assumes "x \<in> set (rx_match r (p, s, []))"
    and "\<And>p' s' cs. (p', s', cs) \<in> set (rx_match r (p, s, [])) \<Longrightarrow>
           take (p' - p) s # map (rx_group cs) [1 ..< Suc n] = ps"
  shows "rx_search r n p s = Some ps"
proof -
  obtain p' s' cs ms where m: "rx_match r (p, s, []) = (p', s', cs) # ms"
    using assms(1) by (cases "rx_match r (p, s, [])") auto
  with assms(2) [of p' s' cs] show ?thesis by (subst rx_search.simps) simp
qed

text \<open>
  A run of characters of a class that ends at a character outside the class is matched in one
  way only.
\<close>

lemma class_run_unique:
  assumes "u @ x # v = u' @ x # v'" and "list_all P u" and "list_all P u'" and "\<not> P x"
  shows "u = u' \<and> v = v'"
proof -
  have "takeWhile P (w @ x # z) = w" if "list_all P w" for w z
    using that assms(4) by (induction w) auto
  from this [OF assms(2), of v] this [OF assms(3), of v'] assms(1) show ?thesis by auto
qed

text \<open>
  A pattern is deterministic if every class is followed by a literal that starts outside the class:
  a text is then cut into pieces in one way only.
\<close>

fun rx_ungroup :: "rx \<Rightarrow> rx" where
  "rx_ungroup (Grp i r) = rx_ungroup r"
| "rx_ungroup r = r"

fun rx_det :: "rx list \<Rightarrow> bool" where
  "rx_det [] = True"
| "rx_det (r # rs) =
     ((case rx_ungroup r of
         Lit l \<Rightarrow> True
       | Cls P lo hi \<Rightarrow> (case rs of Lit (c # l) # _ \<Rightarrow> \<not> P c | _ \<Rightarrow> False)
       | _ \<Rightarrow> False) \<and> rx_det rs)"

lemma piece_ok_ungroup: "piece_ok (rx_ungroup r) t = piece_ok r t"
  by (induction r) simp_all

lemma pieces_unique:
  "rx_det rs \<Longrightarrow> list_all2 piece_ok rs ts \<Longrightarrow> list_all2 piece_ok rs us \<Longrightarrow>
   concat ts @ s = concat us @ s' \<Longrightarrow> ts = us \<and> s = s'"
proof (induction rs arbitrary: ts us)
  case (Cons r rs)
  obtain t ts' where ts: "ts = t # ts'" and t: "piece_ok r t" "list_all2 piece_ok rs ts'"
    using Cons.prems(2) by (cases ts) auto
  obtain u us' where us: "us = u # us'" and u: "piece_ok r u" "list_all2 piece_ok rs us'"
    using Cons.prems(3) by (cases us) auto
  have "t = u"
  proof (cases "rx_ungroup r")
    case (Lit l)
    with t(1) u(1) piece_ok_ungroup [of r t] piece_ok_ungroup [of r u] show ?thesis by simp
  next
    case (Cls P lo hi)
    with Cons.prems(1) obtain c l rs' where rs: "rs = Lit (c # l) # rs'" and c: "\<not> P c"
      by (simp split: list.split_asm rx.split_asm)
    obtain ts2 us2 where "ts' = (c # l) # ts2" "us' = (c # l) # us2"
      using t(2) u(2) unfolding rs by (cases ts'; cases us') simp_all
    then obtain v w where "concat ts' = c # v" "concat us' = c # w" by simp
    with Cons.prems(4) ts us have "t @ c # (v @ s) = u @ c # (w @ s')" by simp
    moreover have "list_all P t" "list_all P u"
      using t(1) u(1) Cls piece_ok_ungroup [of r t] piece_ok_ungroup [of r u] by simp_all
    ultimately show ?thesis using class_run_unique [of t c _ u _ P] c by simp
  qed (use Cons.prems(1) in simp_all)
  then have "concat ts' @ s = concat us' @ s'" using Cons.prems(4) ts us by simp
  with Cons.IH [OF _ t(2) u(2)] Cons.prems(1) \<open>t = u\<close> ts us show ?case by simp
qed simp

lemma rx_search_det:
  assumes "rx_det rs" and "list_all rx_piece rs" and "list_all2 piece_ok rs ts"
  shows "rx_search (rx_cat rs) n p (concat ts @ s) =
    Some (concat ts # map (rx_group (pieces_caps rs ts [])) [1 ..< Suc n])"
proof (rule rx_search_here)
  show "(p + length (concat ts), s, pieces_caps rs ts []) \<in> set (rx_match (rx_cat rs) (p, concat ts @ s, []))"
    using rx_match_pieces [OF assms(2)] assms(3) by blast
next
  fix p' s' cs
  assume "(p', s', cs) \<in> set (rx_match (rx_cat rs) (p, concat ts @ s, []))"
  then obtain us where us: "concat ts @ s = concat us @ s'" "list_all2 piece_ok rs us"
    "p' = p + length (concat us)" "cs = pieces_caps rs us []"
    unfolding rx_match_pieces [OF assms(2)] by blast
  with pieces_unique [OF assms(1,3) us(2,1)]
  show "take (p' - p) (concat ts @ s) # map (rx_group cs) [1 ..< Suc n] =
    concat ts # map (rx_group (pieces_caps rs ts [])) [1 ..< Suc n]" by simp
qed

end
