(* ===== verification/Spdk_Json.thy ===== *)
theory Spdk_Json
  imports Go_Errors Go_Regexp
begin

text \<open>
  JSON values and the JSON-RPC codec of the SPDK client (\<^verbatim>\<open>pkg/spdk/client.go\<close>). The daemon on
  the other end of the connection is a parameter: a function from a request message and the
  daemon's state to a response message and the new state. Numbers in messages are integers.
  The call path of \<^verbatim>\<open>net/rpc\<close> (sequence numbers, dispatch of a response to its call) is part of
  the model because the codec relies on it.
\<close>

section \<open>JSON\<close>

datatype json =
    JNull
  | JBool bool
  | JNum int
  | JStr string
  | JArr "json list"
  | JObj "(string \<times> json) list"

text \<open>
  \<^verbatim>\<open>encoding/json\<close> decodes an object into a struct field by field: a member sets the field with
  its name up to case, a null leaves the field alone, a value of another type is an error.
\<close>

definition same_key :: "string \<Rightarrow> string \<Rightarrow> bool" where
  "same_key a b \<longleftrightarrow> map (\<lambda>c. let n = of_char c :: nat in if 65 \<le> n \<and> n \<le> 90 then n + 32 else n) a =
     map (\<lambda>c. let n = of_char c :: nat in if 65 \<le> n \<and> n \<le> 90 then n + 32 else n) b"

definition members :: "string \<Rightarrow> (string \<times> json) list \<Rightarrow> json list" where
  "members k ms = map snd (filter (\<lambda>(a, v). same_key a k \<and> v \<noteq> JNull) ms)"

definition unmarshal_error :: go_error where
  "unmarshal_error = Errorf ''json: cannot unmarshal value into Go struct field'' []"

fun as_string :: "json \<Rightarrow> string option" where
  "as_string (JStr s) = Some s" | "as_string _ = None"

fun as_int64 :: "json \<Rightarrow> int option" where
  "as_int64 (JNum n) = (if is_int64 n then Some n else None)" | "as_int64 _ = None"

fun as_bool :: "json \<Rightarrow> bool option" where
  "as_bool (JBool b) = Some b" | "as_bool _ = None"

fun as_array :: "json \<Rightarrow> json list option" where
  "as_array (JArr xs) = Some xs" | "as_array _ = None"

fun as_object :: "json \<Rightarrow> (string \<times> json) list option" where
  "as_object (JObj ms) = Some ms" | "as_object JNull = Some []" | "as_object _ = None"

definition decode_field :: "(json \<Rightarrow> 'a option) \<Rightarrow> 'a \<Rightarrow> string \<Rightarrow> (string \<times> json) list \<Rightarrow> 'a result" where
  "decode_field conv zero k ms =
     (let vs = members k ms in
      if list_all (\<lambda>v. conv v \<noteq> None) vs then Inr (if vs = [] then zero else the (conv (last vs)))
      else Inl unmarshal_error)"

text \<open>A field of pointer or interface type: the last member decides, and null is nil.\<close>

definition decode_pointer :: "string \<Rightarrow> (string \<times> json) list \<Rightarrow> json option" where
  "decode_pointer k ms = (case filter (\<lambda>(a, v). same_key a k) ms of [] \<Rightarrow> None
     | vs \<Rightarrow> (case snd (last vs) of JNull \<Rightarrow> None | v \<Rightarrow> Some v))"

section \<open>Requests and responses\<close>

record clientRequest =
  Version :: string
  Method :: string
  Params :: "json option"
  req_ID :: nat

record clientResponse =
  resp_ID :: nat
  Result :: "json option"
  Error :: "json option"

definition encode_request :: "clientRequest \<Rightarrow> json" where
  "encode_request r = JObj ([(''jsonrpc'', JStr (Version r)), (''method'', JStr (Method r))]
     @ (case Params r of None \<Rightarrow> [] | Some p \<Rightarrow> [(''params'', p)])
     @ [(''id'', JNum (int (req_ID r)))])"

fun as_uint64 :: "json \<Rightarrow> nat option" where
  "as_uint64 (JNum n) = (if 0 \<le> n \<and> n < 2 ^ 64 then Some (nat n) else None)" | "as_uint64 _ = None"

definition decode_response :: "json \<Rightarrow> clientResponse result" where
  "decode_response j =
     (case j of
        JObj ms \<Rightarrow>
          (case decode_field as_uint64 0 ''id'' ms of
             Inl e \<Rightarrow> Inl e
           | Inr i \<Rightarrow> Inr \<lparr>resp_ID = i,
               Result = decode_pointer ''result'' ms, Error = decode_pointer ''error'' ms\<rparr>)
      | _ \<Rightarrow> Inl unmarshal_error)"

section \<open>The codec\<close>

record clientCodec =
  req :: clientRequest
  resp :: clientResponse
  pending :: "nat \<rightharpoonup> string"

definition newClientCodec :: clientCodec where
  "newClientCodec = \<lparr>req = \<lparr>Version = ''2.0'', Method = [], Params = None, req_ID = 0\<rparr>,
     resp = \<lparr>resp_ID = 0, Result = None, Error = None\<rparr>, pending = Map.empty\<rparr>"

definition WriteRequest :: "clientCodec \<Rightarrow> string \<Rightarrow> nat \<Rightarrow> json option \<Rightarrow> clientCodec \<times> json" where
  "WriteRequest c serviceMethod seq param =
     (let c = c\<lparr>pending := (pending c)(seq \<mapsto> serviceMethod)\<rparr>;
          c = c\<lparr>req := (req c)\<lparr>Method := serviceMethod, Params := param, req_ID := seq\<rparr>\<rparr>
      in (c, encode_request (req c)))"

definition resp_reset :: "clientResponse \<Rightarrow> clientResponse" where
  "resp_reset r = r\<lparr>resp_ID := 0, Result := None, Error := None\<rparr>"

record rpc_Response =
  ServiceMethod :: string
  Seq :: nat
  RespError :: string

definition go_map :: "(string \<times> json) list \<Rightarrow> (string \<rightharpoonup> json)" where
  "go_map ms = map_of (rev ms)"

text \<open>The text of an error member: a map with code and message, or a plain string.\<close>

definition response_error :: "json option \<Rightarrow> string result" where
  "response_error err =
     (case err of
        Some (JObj ms) \<Rightarrow>
          (case (go_map ms ''code'', go_map ms ''message'') of
             (Some code, Some message) \<Rightarrow>
               (case (code, message) of
                  (JNum codeVal, JStr messageVal) \<Rightarrow>
                    Inr (''code: '' @ strconv_Itoa codeVal @ '' msg: '' @ messageVal)
                | _ \<Rightarrow> Inl (Errorf ''invalid error content %v'' [[]]))
           | _ \<Rightarrow> Inl (Errorf ''invalid error %v'' [[]]))
      | Some (JStr x) \<Rightarrow> Inr (if x = [] then ''unspecified error'' else x)
      | _ \<Rightarrow> Inl (Errorf ''invalid error %v'' [[]]))"

definition ReadResponseHeader ::
  "clientCodec \<Rightarrow> json \<Rightarrow> rpc_Response result \<times> clientCodec" where
  "ReadResponseHeader c msg =
     (let c = c\<lparr>resp := resp_reset (resp c)\<rparr> in
      case decode_response msg of
        Inl err \<Rightarrow> (Inl err, c)
      | Inr r \<Rightarrow>
          (let c = c\<lparr>resp := r\<rparr>;
               serviceMethod = (case pending c (resp_ID r) of None \<Rightarrow> [] | Some m \<Rightarrow> m);
               c = c\<lparr>pending := (pending c)(resp_ID r := None)\<rparr>
           in if Error r \<noteq> None \<or> Result r = None
              then (case response_error (Error r) of
                      Inl err \<Rightarrow> (Inl err, c)
                    | Inr x \<Rightarrow> (Inr \<lparr>ServiceMethod = serviceMethod, Seq = resp_ID r, RespError = x\<rparr>, c))
              else (Inr \<lparr>ServiceMethod = serviceMethod, Seq = resp_ID r, RespError = []\<rparr>, c)))"

text \<open>
  \<^verbatim>\<open>ReadResponseBody\<close>: \<open>None\<close> for a nil target. With a target the raw result is handed to the
  decoder of its type; dereferencing a missing result panics.
\<close>

definition ReadResponseBody :: "clientCodec \<Rightarrow> (json \<Rightarrow> 'a result) option \<Rightarrow> 'a option result outcome" where
  "ReadResponseBody c x =
     (case x of
        None \<Rightarrow> Ret (Inr None)
      | Some decode \<Rightarrow>
          (case Result (resp c) of
             None \<Rightarrow> Panic
           | Some j \<Rightarrow> (case decode j of Inl e \<Rightarrow> Ret (Inl e) | Inr v \<Rightarrow> Ret (Inr (Some v)))))"

section \<open>Calls\<close>

text \<open>
  The daemon answers a method call with a result or with an error code and message. Its
  JSON-RPC layer wraps the answer into a response with the identifier of the request.
\<close>

type_synonym 's daemon = "string \<Rightarrow> json option \<Rightarrow> 's \<Rightarrow> ((int \<times> string) + json) \<times> 's"

definition jsonrpc_serve :: "'s daemon \<Rightarrow> json \<Rightarrow> 's \<Rightarrow> json \<times> 's" where
  "jsonrpc_serve daemon msg s =
     (case msg of
        JObj ms \<Rightarrow>
          (case (go_map ms ''method'', go_map ms ''id'') of
             (Some (JStr method), Some i) \<Rightarrow>
               (case daemon method (go_map ms ''params'') s of
                  (Inl (code, message), s') \<Rightarrow>
                    (JObj [(''jsonrpc'', JStr ''2.0''), (''id'', i),
                           (''error'', JObj [(''code'', JNum code), (''message'', JStr message)])], s')
                | (Inr v, s') \<Rightarrow>
                    (JObj [(''jsonrpc'', JStr ''2.0''), (''id'', i), (''result'', v)], s'))
           | _ \<Rightarrow> (JObj [(''jsonrpc'', JStr ''2.0''), (''id'', JNull),
                         (''error'', JObj [(''code'', JNum (- 32600)), (''message'', JStr ''Invalid request'')])], s))
      | _ \<Rightarrow> (JObj [(''jsonrpc'', JStr ''2.0''), (''id'', JNull),
                    (''error'', JObj [(''code'', JNum (- 32700)), (''message'', JStr ''Parse error'')])], s))"

text \<open>
  The client of \<^verbatim>\<open>net/rpc\<close>: the next sequence number (a uint64), the codec and whether the
  connection was given up. A call sends one request and reads its response; a header that
  cannot be read shuts the connection down, and so does a response for another call, which
  the daemon's JSON-RPC layer never sends here.
\<close>

record Client =
  seq :: nat
  codec :: clientCodec
  shutdown :: bool

definition New_client :: Client where
  "New_client = \<lparr>seq = 0, codec = newClientCodec, shutdown = False\<rparr>"

definition nil_dereference :: go_error where
  "nil_dereference = ErrText ''runtime error: invalid memory address or nil pointer dereference''"

definition rpc_dispatch ::
  "Client \<Rightarrow> nat \<Rightarrow> (json \<Rightarrow> 'a result) option \<Rightarrow> json \<Rightarrow> 'a option result \<times> Client" where
  "rpc_dispatch cl n reply msg =
     (case ReadResponseHeader (codec cl) msg of
        (Inl err, c) \<Rightarrow> (Inl err, cl\<lparr>codec := c, shutdown := True\<rparr>)
      | (Inr r, c) \<Rightarrow>
          (if Seq r \<noteq> n then (Inl (ErrText ''unexpected EOF''), cl\<lparr>codec := c, shutdown := True\<rparr>)
           else if RespError r \<noteq> [] then (Inl (ErrText (RespError r)), cl\<lparr>codec := c\<rparr>)
           else (case ReadResponseBody c reply of
                   Panic \<Rightarrow> (Inl nil_dereference, cl\<lparr>codec := c, shutdown := True\<rparr>)
                 | Ret (Inl err) \<Rightarrow> (Inl (ErrText (''reading body '' @ error_text err)), cl\<lparr>codec := c\<rparr>)
                 | Ret (Inr v) \<Rightarrow> (Inr v, cl\<lparr>codec := c\<rparr>))))"

definition Invoke ::
  "'s daemon \<Rightarrow> string \<Rightarrow> json option \<Rightarrow> (json \<Rightarrow> 'a result) option
   \<Rightarrow> Client \<times> 's \<Rightarrow> 'a option result \<times> Client \<times> 's" where
  "Invoke daemon method args reply = (\<lambda>(cl, s).
     if shutdown cl then (Inl (ErrText ''connection is shut down''), cl, s)
     else let n = seq cl;
              (c, msg) = WriteRequest (codec cl) method n args;
              cl = cl\<lparr>seq := (n + 1) mod 2 ^ 64, codec := c\<rparr>;
              (answer, s) = jsonrpc_serve daemon msg s;
              (r, cl) = rpc_dispatch cl n reply answer
          in (r, cl, s))"

section \<open>Error codes\<close>

definition ERROR_PARSE_ERROR :: int where "ERROR_PARSE_ERROR = - 32700"
definition ERROR_INVALID_REQUEST :: int where "ERROR_INVALID_REQUEST = - 32600"
definition ERROR_METHOD_NOT_FOUND :: int where "ERROR_METHOD_NOT_FOUND = - 32601"
definition ERROR_INVALID_PARAMS :: int where "ERROR_INVALID_PARAMS = - 32602"
definition ERROR_INTERNAL_ERROR :: int where "ERROR_INTERNAL_ERROR = - 32603"
definition ERROR_INVALID_STATE :: int where "ERROR_INVALID_STATE = - 1"

definition jsonError :: rx where
  "jsonError = rx_cat [Bol, Lit ''code: '',
     Grp 1 (Cat (Cls (\<lambda>c. c = CHR ''-'') 0 (Some 1)) (Cls is_digit 1 None)),
     Lit '' msg: '', Grp 2 (Cls (\<lambda>c. c \<noteq> CHR 0x0A) 0 None), Eol]"

definition IsJSONError :: "go_error \<Rightarrow> int \<Rightarrow> bool" where
  "IsJSONError err code =
     (case FindStringSubmatch jsonError 2 (error_text err) of
        None \<Rightarrow> False
      | Some m \<Rightarrow>
          (case strconv_Atoi (m ! 1) of
             Inl _ \<Rightarrow> False
           | Inr errorCode \<Rightarrow> code = 0 \<or> errorCode = code))"

section \<open>What a call returns\<close>

definition client_ok :: "Client \<Rightarrow> bool" where
  "client_ok cl \<longleftrightarrow> seq cl < 2 ^ 64 \<and> \<not> shutdown cl \<and> Version (req (codec cl)) = ''2.0''"

lemma client_ok_New [oim_inv]: "client_ok New_client"
  by (simp add: client_ok_def New_client_def newClientCodec_def)

definition rpc_error :: "int \<Rightarrow> string \<Rightarrow> go_error" where
  "rpc_error code message = ErrText (''code: '' @ strconv_Itoa code @ '' msg: '' @ message)"

definition rpc_value :: "(json \<Rightarrow> 'a result) option \<Rightarrow> json \<Rightarrow> 'a option result" where
  "rpc_value reply v = (case reply of None \<Rightarrow> Inr None
     | Some decode \<Rightarrow> (case decode v of Inl e \<Rightarrow> Inl (ErrText (''reading body '' @ error_text e))
                       | Inr x \<Rightarrow> Inr (Some x)))"

lemma go_map_request:
  "go_map ([(''jsonrpc'', a), (''method'', b)] @ (case p of None \<Rightarrow> [] | Some p \<Rightarrow> [(''params'', p)])
     @ [(''id'', i)]) k =
   (if k = ''jsonrpc'' then Some a else if k = ''method'' then Some b
    else if k = ''params'' then p else if k = ''id'' then Some i else None)"
  by (cases p) (simp_all add: go_map_def)

lemma jsonrpc_serve_request:
  "jsonrpc_serve daemon (encode_request r) s =
     (case daemon (Method r) (Params r) s of
        (Inl (code, message), s') \<Rightarrow>
          (JObj [(''jsonrpc'', JStr ''2.0''), (''id'', JNum (int (req_ID r))),
                 (''error'', JObj [(''code'', JNum code), (''message'', JStr message)])], s')
      | (Inr v, s') \<Rightarrow>
          (JObj [(''jsonrpc'', JStr ''2.0''), (''id'', JNum (int (req_ID r))), (''result'', v)], s'))"
  unfolding encode_request_def jsonrpc_serve_def json.case go_map_request by simp

lemma decode_response_error:
  "n < 2 ^ 64 \<Longrightarrow> decode_response (JObj [(''jsonrpc'', JStr ''2.0''), (''id'', JNum (int n)), (''error'', JObj ms)]) =
     Inr \<lparr>resp_ID = n, Result = None, Error = Some (JObj ms)\<rparr>"
  by (simp add: decode_response_def decode_field_def members_def same_key_def decode_pointer_def)

lemma decode_response_result:
  "n < 2 ^ 64 \<Longrightarrow> v \<noteq> JNull \<Longrightarrow>
   decode_response (JObj [(''jsonrpc'', JStr ''2.0''), (''id'', JNum (int n)), (''result'', v)]) =
     Inr \<lparr>resp_ID = n, Result = Some v, Error = None\<rparr>"
  by (cases v) (simp_all add: decode_response_def decode_field_def members_def same_key_def decode_pointer_def)

lemma rpc_dispatch_error:
  assumes "n < 2 ^ 64"
  shows "rpc_dispatch cl n reply (JObj [(''jsonrpc'', JStr ''2.0''), (''id'', JNum (int n)),
       (''error'', JObj [(''code'', JNum code), (''message'', JStr message)])]) =
    (Inl (rpc_error code message), cl\<lparr>codec := (codec cl)
       \<lparr>resp := \<lparr>resp_ID = n, Result = None, Error = Some (JObj [(''code'', JNum code), (''message'', JStr message)])\<rparr>,
        pending := (pending (codec cl))(n := None)\<rparr>\<rparr>)"
proof -
  have "response_error (Some (JObj [(''code'', JNum code), (''message'', JStr message)])) =
      Inr (''code: '' @ strconv_Itoa code @ '' msg: '' @ message)"
    by (simp add: response_error_def go_map_def)
  then show ?thesis
    by (simp add: rpc_dispatch_def ReadResponseHeader_def decode_response_error [OF assms] rpc_error_def)
qed

lemma rpc_dispatch_result:
  assumes "n < 2 ^ 64" and "v \<noteq> JNull"
  shows "rpc_dispatch cl n reply (JObj [(''jsonrpc'', JStr ''2.0''), (''id'', JNum (int n)), (''result'', v)]) =
    (rpc_value reply v, cl\<lparr>codec := (codec cl)
       \<lparr>resp := \<lparr>resp_ID = n, Result = Some v, Error = None\<rparr>,
        pending := (pending (codec cl))(n := None)\<rparr>\<rparr>)"
  by (simp add: rpc_dispatch_def ReadResponseHeader_def decode_response_result [OF assms]
      ReadResponseBody_def rpc_value_def split: option.split sum.split)

lemma WriteRequest_fields:
  assumes "WriteRequest c method n args = (c', msg)"
  shows "msg = encode_request (req c')" and "Method (req c') = method" and "Params (req c') = args"
    and "req_ID (req c') = n" and "pending c' = (pending c)(n \<mapsto> method)"
    and "Version (req c') = Version (req c)"
  using assms by (auto simp: WriteRequest_def)

text \<open>
  A call on a working connection hands the method and the parameters to the daemon once. Its
  result is the daemon's error with code and message in the text, or the decoded value; the
  connection keeps working and no request stays pending.
\<close>

lemma Invoke_working:
  assumes ok: "client_ok cl" and d: "daemon method args s = (ans, s')" and "ans \<noteq> Inr JNull"
  shows "\<exists>cl'. client_ok cl' \<and> pending (codec cl') = (pending (codec cl))(seq cl := None)
    \<and> Invoke daemon method args reply (cl, s) =
        ((case ans of Inl (code, message) \<Rightarrow> Inl (rpc_error code message) | Inr v \<Rightarrow> rpc_value reply v), cl', s')"
proof -
  have n: "seq cl < 2 ^ 64" and sd: "\<not> shutdown cl" using ok by (simp_all add: client_ok_def)
  obtain c msg where w: "WriteRequest (codec cl) method (seq cl) args = (c, msg)" by fastforce
  note c = WriteRequest_fields [OF w]
  let ?cl = "cl\<lparr>seq := (seq cl + 1) mod 2 ^ 64, codec := c\<rparr>"
  obtain answer where srv: "jsonrpc_serve daemon msg s = (answer, s')"
  proof -
    have "snd (jsonrpc_serve daemon msg s) = s'"
      by (cases ans) (auto simp: c(1) jsonrpc_serve_request c(2,3) d)
    then show ?thesis using that by (cases "jsonrpc_serve daemon msg s") auto
  qed
  obtain r cl' where disp: "rpc_dispatch ?cl (seq cl) reply answer = (r, cl')" by fastforce
  have inv: "Invoke daemon method args reply (cl, s) = (r, cl', s')"
    using sd disp by (simp add: Invoke_def w srv Let_def)
  have "r = (case ans of Inl (code, message) \<Rightarrow> Inl (rpc_error code message) | Inr v \<Rightarrow> rpc_value reply v)
      \<and> seq cl' = seq ?cl \<and> shutdown cl' = shutdown cl \<and> req (codec cl') = req c
      \<and> pending (codec cl') = (pending c)(seq cl := None)"
  proof (cases ans)
    case (Inl cm)
    obtain code message where cm: "cm = (code, message)" by (cases cm)
    have "answer = JObj [(''jsonrpc'', JStr ''2.0''), (''id'', JNum (int (seq cl))),
             (''error'', JObj [(''code'', JNum code), (''message'', JStr message)])]"
      using srv by (simp add: c(1) jsonrpc_serve_request c(2-4) d Inl cm)
    with disp show ?thesis unfolding rpc_dispatch_error [OF n] \<open>answer = _\<close> by (auto simp: Inl cm)
  next
    case (Inr v)
    then have v: "v \<noteq> JNull" using assms(3) by simp
    have "answer = JObj [(''jsonrpc'', JStr ''2.0''), (''id'', JNum (int (seq cl))), (''result'', v)]"
      using srv by (simp add: c(1) jsonrpc_serve_request c(2-4) d Inr)
    with disp show ?thesis unfolding rpc_dispatch_result [OF n v] \<open>answer = _\<close> by (auto simp: Inr)
  qed
  with inv ok c(5,6) show ?thesis by (intro exI [of _ cl']) (simp add: client_ok_def)
qed

section \<open>Recognising error codes\<close>

definition rx_code :: rx where
  "rx_code = Grp 1 (Cat (Cls (\<lambda>c. c = CHR ''-'') 0 (Some 1)) (Cls is_digit 1 None))"

definition rx_msg :: rx where
  "rx_msg = Grp 2 (Cls (\<lambda>c. c \<noteq> CHR 0x0A) 0 None)"

definition jsonError_pieces :: "rx list" where
  "jsonError_pieces = [Lit ''code: '', rx_code, Lit '' msg: '', rx_msg]"

lemma jsonError_anchored: "jsonError = Cat Bol (rx_cat (jsonError_pieces @ [Eol]))"
  by (simp add: jsonError_def jsonError_pieces_def rx_code_def rx_msg_def)

definition number_text :: "string \<Rightarrow> bool" where
  "number_text t \<longleftrightarrow> (\<exists>u v. t = u @ v \<and> list_all (\<lambda>c. c = CHR ''-'') u \<and> length u \<le> 1
     \<and> list_all is_digit v \<and> v \<noteq> [])"

lemma number_text_Itoa: "number_text (strconv_Itoa x)"
proof (cases "x < 0")
  case True
  then show ?thesis
    unfolding number_text_def strconv_Itoa_def
    by (intro exI [of _ "''-''"] exI [of _ "print_base 10 (nat (- x))"]) (simp add: list_all_is_digit_print)
next
  case False
  then show ?thesis
    unfolding number_text_def strconv_Itoa_def
    by (intro exI [of _ "[]"] exI [of _ "print_base 10 (nat x)"]) (simp add: list_all_is_digit_print)
qed

lemma number_text_no_space: "number_text t \<Longrightarrow> CHR '' '' \<notin> set t"
proof
  assume "number_text t" and sp: "CHR '' '' \<in> set t"
  then obtain u v where t: "t = u @ v" "list_all (\<lambda>c. c = CHR ''-'') u" "list_all is_digit v"
    by (auto simp: number_text_def)
  from sp t(1) consider "CHR '' '' \<in> set u" | "CHR '' '' \<in> set v" by auto
  then show False
  proof cases
    case 1
    with t(2) have "CHR '' '' = CHR ''-''" by (simp only: list_all_iff)
    then show False by simp
  next
    case 2
    with t(3) have "is_digit (CHR '' '')" by (simp only: list_all_iff)
    then show False by (simp add: is_digit_def)
  qed
qed

lemma rx_code_piece:
  "rx_piece rx_code" "piece_ok rx_code t \<longleftrightarrow> number_text t" "piece_caps rx_code t cs = (1, t) # cs"
  by (simp_all add: rx_code_def number_text_def Suc_le_eq)

lemma rx_msg_piece:
  "rx_piece rx_msg" "piece_ok rx_msg t \<longleftrightarrow> CHR 0x0A \<notin> set t" "piece_caps rx_msg t cs = (2, t) # cs"
  by (simp_all add: rx_msg_def list_all_iff) metis

lemma jsonError_match_iff:
  "x \<in> set (rx_match (rx_cat (jsonError_pieces @ [Eol])) (0, s, [])) \<longleftrightarrow>
     (\<exists>n m. s = ''code: '' @ n @ '' msg: '' @ m \<and> number_text n \<and> CHR 0x0A \<notin> set m
        \<and> x = (length s, [], [(2, m), (1, n)]))"
  (is "?L \<longleftrightarrow> ?R")
proof -
  have "?L \<longleftrightarrow> (\<exists>ts. list_all2 piece_ok jsonError_pieces ts \<and> s = concat ts
      \<and> x = (0 + length s, [], pieces_caps jsonError_pieces ts []))"
    by (rule rx_match_pieces_Eol) (simp add: jsonError_pieces_def rx_code_piece rx_msg_piece)
  also have "\<dots> \<longleftrightarrow> ?R"
  proof
    assume "\<exists>ts. list_all2 piece_ok jsonError_pieces ts \<and> s = concat ts
      \<and> x = (0 + length s, [], pieces_caps jsonError_pieces ts [])"
    then obtain ts where ts: "list_all2 piece_ok jsonError_pieces ts" "s = concat ts"
      "x = (0 + length s, [], pieces_caps jsonError_pieces ts [])" by blast
    from ts(1) obtain n m where eq: "ts = [''code: '', n, '' msg: '', m]" and "number_text n" "CHR 0x0A \<notin> set m"
      unfolding jsonError_pieces_def list_all2_Cons1 list_all2_Nil piece_ok.simps(1) rx_code_piece rx_msg_piece
      by blast
    moreover have "s = ''code: '' @ n @ '' msg: '' @ m" using ts(2) eq by simp
    moreover have "x = (length s, [], [(2, m), (1, n)])"
      using ts(3) unfolding eq jsonError_pieces_def by (simp add: rx_code_piece rx_msg_piece)
    ultimately show ?R by blast
  next
    assume ?R
    then obtain n m where r: "s = ''code: '' @ n @ '' msg: '' @ m" "number_text n" "CHR 0x0A \<notin> set m"
      "x = (length s, [], [(2, m), (1, n)])" by blast
    have "list_all2 piece_ok jsonError_pieces [''code: '', n, '' msg: '', m]"
      using r(2,3) by (simp add: jsonError_pieces_def rx_code_piece rx_msg_piece)
    moreover have "s = concat [''code: '', n, '' msg: '', m]" using r(1) by simp
    moreover have "x = (0 + length s, [], pieces_caps jsonError_pieces [''code: '', n, '' msg: '', m] [])"
      using r(4) by (simp add: jsonError_pieces_def rx_code_piece rx_msg_piece)
    ultimately show "\<exists>ts. list_all2 piece_ok jsonError_pieces ts \<and> s = concat ts
      \<and> x = (0 + length s, [], pieces_caps jsonError_pieces ts [])" by blast
  qed
  finally show ?thesis .
qed

lemma number_text_unique:
  assumes "number_text n" and "number_text n'" and "n @ '' msg: '' @ m = n' @ '' msg: '' @ m'"
  shows "n = n' \<and> m = m'"
proof -
  have tw: "takeWhile (\<lambda>c. c \<noteq> CHR '' '') (n @ '' msg: '' @ m) = n" if "number_text n" for n m
    using number_text_no_space [OF that] by (subst takeWhile_append2) auto
  have "n = n'" using tw [OF assms(1), of m] tw [OF assms(2), of m'] assms(3) by simp
  with assms(3) show ?thesis by simp
qed

lemma jsonError_Some:
  assumes "number_text n" and "CHR 0x0A \<notin> set m"
  shows "FindStringSubmatch jsonError 2 (''code: '' @ n @ '' msg: '' @ m) = Some [''code: '' @ n @ '' msg: '' @ m, n, m]"
  unfolding jsonError_anchored
proof (rule FindStringSubmatch_anchored_eq)
  let ?s = "''code: '' @ n @ '' msg: '' @ m"
  show "(length ?s, [], [(2, m), (1, n)]) \<in> set (rx_match (rx_cat (jsonError_pieces @ [Eol])) (0, ?s, []))"
    unfolding jsonError_match_iff using assms by blast
  fix p' s' cs
  assume "(p', s', cs) \<in> set (rx_match (rx_cat (jsonError_pieces @ [Eol])) (0, ?s, []))"
  then obtain n' m' where *: "?s = ''code: '' @ n' @ '' msg: '' @ m'" "number_text n'"
    and x: "p' = length ?s" "cs = [(2, m'), (1, n')]"
    unfolding jsonError_match_iff by blast
  from *(1) have "n @ '' msg: '' @ m = n' @ '' msg: '' @ m'" by simp
  from number_text_unique [OF assms(1) *(2) this] x
  show "take p' ?s # map (rx_group cs) [1 ..< Suc 2] = [?s, n, m]"
    by (simp add: rx_group_def upt_rec)
qed

lemma jsonError_None:
  assumes "number_text n" and "CHR 0x0A \<in> set m"
  shows "FindStringSubmatch jsonError 2 (''code: '' @ n @ '' msg: '' @ m) = None"
proof -
  let ?s = "''code: '' @ n @ '' msg: '' @ m"
  have "x \<notin> set (rx_match (rx_cat (jsonError_pieces @ [Eol])) (0, ?s, []))" for x
  proof
    assume "x \<in> set (rx_match (rx_cat (jsonError_pieces @ [Eol])) (0, ?s, []))"
    then obtain n' m' where *: "?s = ''code: '' @ n' @ '' msg: '' @ m'" "number_text n'" "CHR 0x0A \<notin> set m'"
      unfolding jsonError_match_iff by blast
    from *(1) have "n @ '' msg: '' @ m = n' @ '' msg: '' @ m'" by simp
    from number_text_unique [OF assms(1) *(2) this] assms(2) *(3) show False by simp
  qed
  then show ?thesis unfolding jsonError_anchored FindStringSubmatch_anchored_None
    by (metis list.set_intros(1) neq_Nil_conv)
qed

lemma IsJSONError_rpc_error_iff:
  assumes "is_int64 c"
  shows "IsJSONError (rpc_error c m) code \<longleftrightarrow> CHR 0x0A \<notin> set m \<and> (code = 0 \<or> c = code)"
proof (cases "CHR 0x0A \<in> set m")
  case True
  from jsonError_None [OF number_text_Itoa True] True show ?thesis
    by (simp only: IsJSONError_def rpc_error_def error_text.simps option.case simp_thms)
next
  case False
  from jsonError_Some [OF number_text_Itoa False] False show ?thesis
    by (simp add: IsJSONError_def rpc_error_def Atoi_Itoa [OF assms])
qed

section \<open>Responses in any order\<close>

fun write_all :: "clientCodec \<Rightarrow> (nat \<times> string) list \<Rightarrow> clientCodec" where
  "write_all c [] = c"
| "write_all c ((n, method) # reqs) = write_all (fst (WriteRequest c method n None)) reqs"

fun read_all :: "clientCodec \<Rightarrow> json list \<Rightarrow> rpc_Response result list" where
  "read_all c [] = []"
| "read_all c (msg # msgs) = (case ReadResponseHeader c msg of (r, c') \<Rightarrow> r # read_all c' msgs)"

definition response :: "nat \<Rightarrow> json \<Rightarrow> json" where
  "response n v = JObj [(''jsonrpc'', JStr ''2.0''), (''id'', JNum (int n)), (''result'', v)]"

lemma pending_write_all: "pending (write_all c reqs) = pending c ++ map_of (rev reqs)"
proof (induction reqs arbitrary: c)
  case (Cons r reqs)
  obtain n meth where r: "r = (n, meth)" by (cases r)
  have "pending (fst (WriteRequest c meth n None)) = (pending c)(n \<mapsto> meth)"
    by (simp add: WriteRequest_def Let_def)
  with Cons.IH show ?case by (simp add: r map_add_upd_left [symmetric] map_add_def fun_eq_iff split: option.split)
qed simp

lemma ReadResponseHeader_response:
  "n < 2 ^ 64 \<Longrightarrow> v \<noteq> JNull \<Longrightarrow> \<exists>c'. pending c' = (pending c)(n := None) \<and>
     ReadResponseHeader c (response n v) =
       (Inr \<lparr>ServiceMethod = (case pending c n of None \<Rightarrow> [] | Some m \<Rightarrow> m), Seq = n, RespError = []\<rparr>, c')"
  by (simp add: ReadResponseHeader_def response_def decode_response_result Let_def)

lemma read_all_responses:
  assumes "distinct ids" and "\<forall>n \<in> set ids. n < 2 ^ 64" and "v \<noteq> JNull"
  shows "read_all c (map (\<lambda>n. response n v) ids) =
    map (\<lambda>n. Inr \<lparr>ServiceMethod = (case pending c n of None \<Rightarrow> [] | Some m \<Rightarrow> m), Seq = n, RespError = []\<rparr>) ids"
  using assms
proof (induction ids arbitrary: c)
  case (Cons n ids)
  then obtain c' where c': "pending c' = (pending c)(n := None)"
    "ReadResponseHeader c (response n v) =
       (Inr \<lparr>ServiceMethod = (case pending c n of None \<Rightarrow> [] | Some m \<Rightarrow> m), Seq = n, RespError = []\<rparr>, c')"
    using ReadResponseHeader_response [of n v c] by auto
  have "read_all c' (map (\<lambda>n. response n v) ids) =
      map (\<lambda>n. Inr \<lparr>ServiceMethod = (case pending c' n of None \<Rightarrow> [] | Some m \<Rightarrow> m), Seq = n, RespError = []\<rparr>) ids"
    using Cons.IH Cons.prems by simp
  also have "\<dots> = map (\<lambda>n. Inr \<lparr>ServiceMethod = (case pending c n of None \<Rightarrow> [] | Some m \<Rightarrow> m), Seq = n, RespError = []\<rparr>) ids"
    using Cons.prems(1) by (intro map_cong) (auto simp: c'(1))
  finally show ?case using c'(2) by simp
qed simp

section \<open>Properties\<close>



text \<open>
  C26. Responses may arrive in any order: after any number of requests with distinct sequence
  numbers were written, reading the responses of some of them in an arbitrary order gives for
  each the method that was called under its number, because the codec remembers the methods of
  all requests that are still pending.
\<close>

theorem responses_any_order:
  assumes "distinct (map fst reqs)" and "distinct ids" and "set ids \<subseteq> set (map fst reqs)"
    and "\<forall>n \<in> set ids. n < 2 ^ 64" and "v \<noteq> JNull"
  shows "read_all (write_all newClientCodec reqs) (map (\<lambda>n. response n v) ids) =
    map (\<lambda>n. Inr \<lparr>ServiceMethod = the (map_of reqs n), Seq = n, RespError = []\<rparr>) ids"
proof -
  have "map_of (rev reqs) = map_of reqs"
    using assms(1) by (rule map_of_rev_distinct)
  then have "pending (write_all newClientCodec reqs) = map_of reqs"
    by (simp add: pending_write_all newClientCodec_def)
  moreover have "map_of reqs n \<noteq> None" if "n \<in> set ids" for n
    using assms(3) that by (auto simp: map_of_eq_None_iff)
  ultimately show ?thesis
    unfolding read_all_responses [OF assms(2,4,5)] by (intro map_cong) (fastforce split: option.split)+
qed

theorem responses_any_order_witness:
  "read_all (write_all newClientCodec [(0, ''get_bdevs''), (1, ''delete_bdev'')])
     (map (\<lambda>n. response n (JBool True)) [1, 0]) =
   map (\<lambda>n. Inr \<lparr>ServiceMethod = the (map_of [(0, ''get_bdevs''), (1, ''delete_bdev'')] n), Seq = n, RespError = []\<rparr>) [1, 0]"
  by (rule responses_any_order) simp_all

end
