(* ===== verification/Spdk_Client.thy ===== *)
theory Spdk_Client
  imports Spdk_Json
begin

text \<open>
  The bindings of the SPDK methods (\<^verbatim>\<open>pkg/spdk/spdk.go\<close>): one record per argument and reply
  struct with its JSON encoding, and one function per method over \<open>Invoke\<close>. The state of a
  caller is a pair of the client and the daemon's state.
\<close>

section \<open>Block devices\<close>

record SupportedIOTypes =
  io_Read :: bool
  io_Write :: bool
  io_Unmap :: bool
  io_WriteZeros :: bool
  io_Flush :: bool
  io_Reset :: bool
  io_NVMEAdmin :: bool
  io_NVMEIO :: bool

record BDev =
  bdev_Name :: string
  ProductName :: string
  bdev_UUID :: string
  BlockSize :: int
  NumBlocks :: int
  Claimed :: bool
  bdev_SupportedIOTypes :: SupportedIOTypes

definition omitempty :: "string \<Rightarrow> string \<Rightarrow> (string \<times> json) list" where
  "omitempty k v = (if v = [] then [] else [(k, JStr v)])"

definition decode_SupportedIOTypes :: "(string \<times> json) list \<Rightarrow> SupportedIOTypes result" where
  "decode_SupportedIOTypes ms =
     (case (decode_field as_bool False ''read'' ms, decode_field as_bool False ''write'' ms,
            decode_field as_bool False ''unmap'' ms, decode_field as_bool False ''write_zeroes'' ms,
            decode_field as_bool False ''flush'' ms, decode_field as_bool False ''reset'' ms,
            decode_field as_bool False ''nvme_admin'' ms, decode_field as_bool False ''nvme_io'' ms) of
        (Inr r, Inr w, Inr u, Inr z, Inr f, Inr s, Inr a, Inr i) \<Rightarrow>
          Inr \<lparr>io_Read = r, io_Write = w, io_Unmap = u, io_WriteZeros = z, io_Flush = f, io_Reset = s,
               io_NVMEAdmin = a, io_NVMEIO = i\<rparr>
      | _ \<Rightarrow> Inl unmarshal_error)"

definition decode_BDev :: "json \<Rightarrow> BDev result" where
  "decode_BDev j =
     (case as_object j of
        None \<Rightarrow> Inl unmarshal_error
      | Some ms \<Rightarrow>
          (case (decode_field as_string [] ''name'' ms, decode_field as_string [] ''product_name'' ms,
                 decode_field as_string [] ''uuid'' ms, decode_field as_int64 0 ''block_size'' ms,
                 decode_field as_int64 0 ''num_blocks'' ms, decode_field as_bool False ''claimed'' ms,
                 decode_field as_object [] ''supported_io_types'' ms) of
             (Inr n, Inr p, Inr u, Inr b, Inr k, Inr c, Inr io) \<Rightarrow>
               (case decode_SupportedIOTypes io of
                  Inl e \<Rightarrow> Inl e
                | Inr t \<Rightarrow> Inr \<lparr>bdev_Name = n, ProductName = p, bdev_UUID = u, BlockSize = b, NumBlocks = k,
                                Claimed = c, bdev_SupportedIOTypes = t\<rparr>)
           | _ \<Rightarrow> Inl unmarshal_error))"

text \<open>Decoding a JSON array element by element; the first failure is the error.\<close>

fun decode_list :: "(json \<Rightarrow> 'a result) \<Rightarrow> json list \<Rightarrow> 'a list result" where
  "decode_list f [] = Inr []"
| "decode_list f (j # js) =
     (case f j of Inl e \<Rightarrow> Inl e
      | Inr x \<Rightarrow> (case decode_list f js of Inl e \<Rightarrow> Inl e | Inr xs \<Rightarrow> Inr (x # xs)))"

definition decode_array :: "(json \<Rightarrow> 'a result) \<Rightarrow> json \<Rightarrow> 'a list result" where
  "decode_array f j = (case as_array j of None \<Rightarrow> Inl unmarshal_error | Some js \<Rightarrow> decode_list f js)"

definition decode_string :: "json \<Rightarrow> string result" where
  "decode_string j = (case as_string j of None \<Rightarrow> Inl unmarshal_error | Some s \<Rightarrow> Inr s)"

text \<open>What a method with a reply and a method without one return to the caller.\<close>

definition call_value :: "'a option result \<times> 'w \<Rightarrow> 'a result \<times> 'w" where
  "call_value = (\<lambda>(r, w). (case r of Inl e \<Rightarrow> Inl e | Inr None \<Rightarrow> Inl nil_dereference | Inr (Some v) \<Rightarrow> Inr v, w))"

definition call_unit :: "unit option result \<times> 'w \<Rightarrow> unit result \<times> 'w" where
  "call_unit = (\<lambda>(r, w). (case r of Inl e \<Rightarrow> Inl e | Inr _ \<Rightarrow> Inr (), w))"

definition GetBDevs :: "'s daemon \<Rightarrow> string \<Rightarrow> Client \<times> 's \<Rightarrow> BDev list result \<times> Client \<times> 's" where
  "GetBDevs daemon name w =
     call_value (Invoke daemon ''get_bdevs'' (Some (JObj (omitempty ''name'' name)))
       (Some (decode_array decode_BDev)) w)"

definition DeleteBDev :: "'s daemon \<Rightarrow> string \<Rightarrow> Client \<times> 's \<Rightarrow> unit result \<times> Client \<times> 's" where
  "DeleteBDev daemon name w =
     call_unit (Invoke daemon ''delete_bdev'' (Some (JObj [(''name'', JStr name)])) None w)"

record ConstructMallocBDevArgs =
  cm_NumBlocks :: int
  cm_BlockSize :: int
  cm_Name :: string
  cm_UUID :: string

definition ConstructMallocBDev ::
  "'s daemon \<Rightarrow> ConstructMallocBDevArgs \<Rightarrow> Client \<times> 's \<Rightarrow> string result \<times> Client \<times> 's" where
  "ConstructMallocBDev daemon args w =
     call_value (Invoke daemon ''construct_malloc_bdev''
       (Some (JObj ([(''num_blocks'', JNum (cm_NumBlocks args)), (''block_size'', JNum (cm_BlockSize args))]
         @ omitempty ''name'' (cm_Name args) @ omitempty ''uuid'' (cm_UUID args))))
       (Some decode_string) w)"

record ConstructRBDBDevArgs =
  rbd_BlockSize :: int
  rbd_Name :: string
  UserID :: string
  PoolName :: string
  RBDName :: string
  Config :: "(string \<times> string) list"

definition ConstructRBDBDev ::
  "'s daemon \<Rightarrow> ConstructRBDBDevArgs \<Rightarrow> Client \<times> 's \<Rightarrow> string result \<times> Client \<times> 's" where
  "ConstructRBDBDev daemon args w =
     call_value (Invoke daemon ''construct_rbd_bdev''
       (Some (JObj ([(''block_size'', JNum (rbd_BlockSize args))]
         @ omitempty ''name'' (rbd_Name args) @ omitempty ''user_id'' (UserID args)
         @ [(''pool_name'', JStr (PoolName args)), (''rbd_name'', JStr (RBDName args))]
         @ (if Config args = [] then [] else [(''config'', JObj (map (\<lambda>(k, v). (k, JStr v)) (Config args)))]))))
       (Some decode_string) w)"

section \<open>NBD disks\<close>

record StartNBDDiskArgs =
  nbd_BDevName :: string
  NBDDevice :: string

definition decode_NBDDisk :: "json \<Rightarrow> StartNBDDiskArgs result" where
  "decode_NBDDisk j =
     (case as_object j of
        None \<Rightarrow> Inl unmarshal_error
      | Some ms \<Rightarrow>
          (case (decode_field as_string [] ''bdev_name'' ms, decode_field as_string [] ''nbd_device'' ms) of
             (Inr b, Inr d) \<Rightarrow> Inr \<lparr>nbd_BDevName = b, NBDDevice = d\<rparr>
           | _ \<Rightarrow> Inl unmarshal_error))"

definition StartNBDDisk :: "'s daemon \<Rightarrow> StartNBDDiskArgs \<Rightarrow> Client \<times> 's \<Rightarrow> unit result \<times> Client \<times> 's" where
  "StartNBDDisk daemon args w =
     call_unit (Invoke daemon ''start_nbd_disk''
       (Some (JObj [(''bdev_name'', JStr (nbd_BDevName args)), (''nbd_device'', JStr (NBDDevice args))])) None w)"

definition GetNBDDisks :: "'s daemon \<Rightarrow> Client \<times> 's \<Rightarrow> StartNBDDiskArgs list result \<times> Client \<times> 's" where
  "GetNBDDisks daemon w = call_value (Invoke daemon ''get_nbd_disks'' None (Some (decode_array decode_NBDDisk)) w)"

definition StopNBDDisk :: "'s daemon \<Rightarrow> string \<Rightarrow> Client \<times> 's \<Rightarrow> unit result \<times> Client \<times> 's" where
  "StopNBDDisk daemon nbdDevice w =
     call_unit (Invoke daemon ''stop_nbd_disk'' (Some (JObj [(''nbd_device'', JStr nbdDevice)])) None w)"

section \<open>VHost SCSI controllers\<close>

definition ConstructVHostSCSIController ::
  "'s daemon \<Rightarrow> string \<Rightarrow> string \<Rightarrow> Client \<times> 's \<Rightarrow> unit result \<times> Client \<times> 's" where
  "ConstructVHostSCSIController daemon cpuMask controller w =
     call_unit (Invoke daemon ''construct_vhost_scsi_controller''
       (Some (JObj (omitempty ''cpumask'' cpuMask @ [(''ctrlr'', JStr controller)]))) None w)"

definition AddVHostSCSILUN ::
  "'s daemon \<Rightarrow> string \<Rightarrow> uint32 \<Rightarrow> string \<Rightarrow> Client \<times> 's \<Rightarrow> unit result \<times> Client \<times> 's" where
  "AddVHostSCSILUN daemon controller scsiTargetNum bdevName w =
     call_unit (Invoke daemon ''add_vhost_scsi_lun''
       (Some (JObj [(''ctrlr'', JStr controller), (''scsi_target_num'', JNum (uint scsiTargetNum)),
                    (''bdev_name'', JStr bdevName)])) None w)"

definition RemoveVHostSCSITarget ::
  "'s daemon \<Rightarrow> string \<Rightarrow> uint32 \<Rightarrow> Client \<times> 's \<Rightarrow> unit result \<times> Client \<times> 's" where
  "RemoveVHostSCSITarget daemon controller scsiTargetNum w =
     call_unit (Invoke daemon ''remove_vhost_scsi_target''
       (Some (JObj [(''ctrlr'', JStr controller), (''scsi_target_num'', JNum (uint scsiTargetNum))])) None w)"

definition RemoveVHostController :: "'s daemon \<Rightarrow> string \<Rightarrow> Client \<times> 's \<Rightarrow> unit result \<times> Client \<times> 's" where
  "RemoveVHostController daemon controller w =
     call_unit (Invoke daemon ''remove_vhost_controller'' (Some (JObj [(''ctrlr'', JStr controller)])) None w)"

record SCSIControllerLUN =
  LUN :: int
  lun_BDevName :: string

record SCSIControllerTarget =
  TargetName :: string
  LUNs :: "SCSIControllerLUN list"
  ID :: int
  SCSIDevNum :: uint32

text \<open>
  \<^verbatim>\<open>getSCSIBackendSpecific\<close> walks over decoded JSON with type assertions: whatever does not have
  the expected type leaves the zero value. A Go map is given by its entries in the order in
  which the runtime iterates over them. \<open>int32\<close> truncates to 32 bits.
\<close>

definition int32 :: "int \<Rightarrow> int" where
  "int32 x = signed_take_bit 31 x"

fun lun_entry :: "string \<times> json \<Rightarrow> SCSIControllerLUN \<Rightarrow> SCSIControllerLUN" where
  "lun_entry (key, value) l =
     (if key = ''id'' then (case value of JNum n \<Rightarrow> l\<lparr>LUN := int32 n\<rparr> | _ \<Rightarrow> l)
      else if key = ''bdev_name'' then (case value of JStr name \<Rightarrow> l\<lparr>lun_BDevName := name\<rparr> | _ \<Rightarrow> l)
      else l)"

definition lun_of :: "json \<Rightarrow> SCSIControllerLUN" where
  "lun_of lun = (case lun of JObj hash \<Rightarrow> fold lun_entry hash \<lparr>LUN = 0, lun_BDevName = []\<rparr>
     | _ \<Rightarrow> \<lparr>LUN = 0, lun_BDevName = []\<rparr>)"

fun target_entry :: "string \<times> json \<Rightarrow> SCSIControllerTarget \<Rightarrow> SCSIControllerTarget" where
  "target_entry (key, value) target =
     (if key = ''target_name'' then (case value of JStr name \<Rightarrow> target\<lparr>TargetName := name\<rparr> | _ \<Rightarrow> target)
      else if key = ''id'' then (case value of JNum n \<Rightarrow> target\<lparr>ID := int32 n\<rparr> | _ \<Rightarrow> target)
      else if key = ''scsi_dev_num'' then
        (case value of JNum devNum \<Rightarrow> target\<lparr>SCSIDevNum := word_of_int devNum\<rparr> | _ \<Rightarrow> target)
      else if key = ''luns'' then
        (case value of JArr luns \<Rightarrow> target\<lparr>LUNs := LUNs target @ map lun_of luns\<rparr> | _ \<Rightarrow> target)
      else target)"

definition target_of :: "(string \<times> json) list \<Rightarrow> SCSIControllerTarget" where
  "target_of hash = fold target_entry hash \<lparr>TargetName = [], LUNs = [], ID = 0, SCSIDevNum = 0\<rparr>"

definition getSCSIBackendSpecific :: "json \<Rightarrow> SCSIControllerTarget list" where
  "getSCSIBackendSpecific j = (case j of
     JArr xs \<Rightarrow> concat (map (\<lambda>entry. case entry of JObj hash \<Rightarrow> [target_of hash] | _ \<Rightarrow> []) xs)
   | _ \<Rightarrow> [])"

datatype backend = SCSI "SCSIControllerTarget list" | OtherBackend json

record Controller =
  ctrlr :: string
  CPUMask :: string
  BackendSpecific :: "(string \<times> backend) list"

definition decode_backend :: "(string \<times> json) list \<Rightarrow> (string \<times> backend) list" where
  "decode_backend ms = map (\<lambda>(backend, specific).
     (backend, if backend = ''scsi'' then SCSI (getSCSIBackendSpecific specific) else OtherBackend specific)) ms"

definition decode_Controller :: "json \<Rightarrow> Controller result" where
  "decode_Controller j =
     (case as_object j of
        None \<Rightarrow> Inl unmarshal_error
      | Some ms \<Rightarrow>
          (case (decode_field as_string [] ''ctrlr'' ms, decode_field as_string [] ''cpumask'' ms,
                 decode_field as_object [] ''backend_specific'' ms) of
             (Inr c, Inr m, Inr b) \<Rightarrow> Inr \<lparr>ctrlr = c, CPUMask = m, BackendSpecific = decode_backend b\<rparr>
           | _ \<Rightarrow> Inl unmarshal_error))"

definition GetVHostControllers :: "'s daemon \<Rightarrow> Client \<times> 's \<Rightarrow> Controller list result \<times> Client \<times> 's" where
  "GetVHostControllers daemon w =
     call_value (Invoke daemon ''get_vhost_controllers'' None (Some (decode_array decode_Controller)) w)"

end
