(* ===== verification/Spdk_Daemon.thy ===== *)
theory Spdk_Daemon
  imports Spdk_Client
begin

text \<open>
  The SPDK daemon as far as its JSON-RPC methods are used here, translated from the handlers
  in \<^verbatim>\<open>vendor/github.com/spdk/spdk/lib\<close>: block devices (\<^verbatim>\<open>bdev/rpc/bdev_rpc.c\<close>,
  \<^verbatim>\<open>bdev/malloc\<close>, \<^verbatim>\<open>bdev/rbd\<close>), SCSI targets of vhost controllers (\<^verbatim>\<open>vhost/vhost_rpc.c\<close>,
  \<^verbatim>\<open>vhost/vhost_scsi.c\<close>) and NBD disks (\<^verbatim>\<open>nbd/nbd_rpc.c\<close>). Memory, the Ceph cluster and the
  kernel's NBD driver are the environment, a parameter. The identifier of a SCSI device, which the
  clients ignore, is its target number here. Removing a device is complete when its
  response is sent, so a call is one step on the daemon's state. The typed contract that the
  clients rely on is the locale \<open>spdk_service\<close>; the daemon is shown to meet it.
\<close>

section \<open>State\<close>

record disk =
  disk_name :: string
  disk_product :: string
  disk_uuid :: string
  blocklen :: nat
  blockcnt :: nat

record vhost_dev =
  vdev_name :: string
  vdev_cpumask :: string
  scsi_dev_state :: "string option list"

record nbd_disk =
  nbd_path :: string
  nbd_bdev :: string

record spdk =
  disks :: "disk list"
  vdevs :: "vhost_dev list"
  nbds :: "nbd_disk list"

text \<open>
  The environment: whether a buffer of a size can be allocated, the size of an RBD image that
  can be opened with a user, pool, image and configuration, whether the kernel accepts an NBD
  device, the identifier given to a new disk, and the name given to a disk constructed without one,
  which comes from counters that no RPC shows; whether the vhost library accepts a new controller (its CPU
  mask, or the text of the error), and whether a virtual machine is connected to a controller.
\<close>

record environment =
  env_alloc :: "nat \<Rightarrow> bool"
  env_rbd :: "string \<Rightarrow> string \<Rightarrow> string \<Rightarrow> (string \<times> json) list \<Rightarrow> nat option"
  env_nbd :: "string \<Rightarrow> bool"
  env_uuid :: "string \<Rightarrow> string"
  env_name :: "string \<Rightarrow> spdk \<Rightarrow> string"
  env_vhost :: "string \<Rightarrow> string option \<Rightarrow> string + string"
  env_connected :: "string \<Rightarrow> bool"

definition SPDK_VHOST_SCSI_CTRLR_MAX_DEVS :: nat where
  "SPDK_VHOST_SCSI_CTRLR_MAX_DEVS = 8"

type_synonym answer = "((int \<times> string) + json) \<times> spdk"

definition invalid_params :: "string \<Rightarrow> spdk \<Rightarrow> answer" where
  "invalid_params message s = (Inl (- 32602, message), s)"

text \<open>
  \<^verbatim>\<open>spdk_json_decode_object\<close>: every member must be known and of the right type and occur once,
  and every required member must be there.
\<close>

type_synonym decoder = "string \<times> (json \<Rightarrow> bool) \<times> bool"

definition json_decode_object :: "decoder list \<Rightarrow> json option \<Rightarrow> (string \<rightharpoonup> json) option" where
  "json_decode_object decs params =
     (case params of
        Some (JObj ms) \<Rightarrow>
          if list_all (\<lambda>(k, v). list_ex (\<lambda>(k', ty, opt). k' = k \<and> ty v) decs) ms
             \<and> distinct (map fst ms)
             \<and> list_all (\<lambda>(k', ty, opt). opt \<or> k' \<in> set (map fst ms)) decs
          then Some (map_of ms) else None
      | _ \<Rightarrow> None)"

definition is_str :: "json \<Rightarrow> bool" where "is_str j = (as_string j \<noteq> None)"

fun in_range :: "int \<Rightarrow> int \<Rightarrow> json \<Rightarrow> bool" where
  "in_range lo hi (JNum n) = (lo \<le> n \<and> n < hi)"
| "in_range lo hi _ = False"

fun str_of :: "json option \<Rightarrow> string" where
  "str_of (Some (JStr s)) = s" | "str_of _ = []"

fun num_of :: "json option \<Rightarrow> int" where
  "num_of (Some (JNum n)) = n" | "num_of _ = 0"

section \<open>Block devices\<close>

definition spdk_bdev_get_by_name :: "spdk \<Rightarrow> string \<Rightarrow> disk option" where
  "spdk_bdev_get_by_name s name = find (\<lambda>d. disk_name d = name) (disks s)"

text \<open>
  The operations a device supports: unmapping and writing zeros only for Malloc devices. A dump
  leaves out the members that no client reads (rate limits and the data of the driver).
\<close>

definition malloc_only :: "disk \<Rightarrow> bool" where
  "malloc_only d \<longleftrightarrow> disk_product d = ''Malloc disk''"

definition dump_bdev_info :: "disk \<Rightarrow> json" where
  "dump_bdev_info d = JObj
     [(''name'', JStr (disk_name d)), (''aliases'', JArr []), (''product_name'', JStr (disk_product d)),
      (''block_size'', JNum (int (blocklen d))), (''num_blocks'', JNum (int (blockcnt d))),
      (''uuid'', JStr (disk_uuid d)), (''claimed'', JBool False),
      (''supported_io_types'', JObj [(''read'', JBool True), (''write'', JBool True),
         (''unmap'', JBool (malloc_only d)), (''write_zeroes'', JBool (malloc_only d)),
         (''flush'', JBool True), (''reset'', JBool True), (''nvme_admin'', JBool False), (''nvme_io'', JBool False)])]"

definition rpc_get_bdevs :: "json option \<Rightarrow> spdk \<Rightarrow> answer" where
  "rpc_get_bdevs params s =
     (case (if params = None then Some Map.empty
            else json_decode_object [(''name'', is_str, True)] params) of
        None \<Rightarrow> invalid_params ''Invalid parameters'' s
      | Some ps \<Rightarrow>
          (case ps ''name'' of
             None \<Rightarrow> (Inr (JArr (map dump_bdev_info (disks s))), s)
           | Some name \<Rightarrow>
               (case spdk_bdev_get_by_name s (str_of (Some name)) of
                  None \<Rightarrow> invalid_params ''Invalid parameters'' s
                | Some bdev \<Rightarrow> (Inr (JArr [dump_bdev_info bdev]), s))))"

text \<open>
  Unregistering a device removes it from whoever has it open: the SCSI target with a LUN on it
  and the NBD disk that exports it.
\<close>

definition spdk_bdev_unregister :: "string \<Rightarrow> spdk \<Rightarrow> spdk" where
  "spdk_bdev_unregister name s = s
     \<lparr>disks := filter (\<lambda>d. disk_name d \<noteq> name) (disks s),
      vdevs := map (\<lambda>v. v\<lparr>scsi_dev_state :=
        map (\<lambda>t. if t = Some name then None else t) (scsi_dev_state v)\<rparr>) (vdevs s),
      nbds := filter (\<lambda>n. nbd_bdev n \<noteq> name) (nbds s)\<rparr>"

definition rpc_delete_bdev :: "json option \<Rightarrow> spdk \<Rightarrow> answer" where
  "rpc_delete_bdev params s =
     (case json_decode_object [(''name'', is_str, False)] params of
        None \<Rightarrow> invalid_params ''Invalid parameters'' s
      | Some ps \<Rightarrow>
          let name = str_of (ps ''name'') in
          (case spdk_bdev_get_by_name s name of
             None \<Rightarrow> invalid_params ''Invalid parameters'' s
           | Some _ \<Rightarrow> (Inr (JBool True), spdk_bdev_unregister name s)))"

text \<open>Registering a device fails when the name is taken.\<close>

definition spdk_bdev_register :: "disk \<Rightarrow> spdk \<Rightarrow> spdk option" where
  "spdk_bdev_register d s = (if spdk_bdev_get_by_name s (disk_name d) \<noteq> None then None
     else Some (s\<lparr>disks := disks s @ [d]\<rparr>))"

definition create_malloc_disk ::
  "environment \<Rightarrow> json option \<Rightarrow> string \<Rightarrow> nat \<Rightarrow> nat \<Rightarrow> spdk \<Rightarrow> (string \<times> spdk) option" where
  "create_malloc_disk env name uuid num_blocks block_size s =
     (if num_blocks = 0 then None
      else if \<not> env_alloc env (num_blocks * block_size) then None
      else let nm = (if name = None then env_name env ''Malloc'' s else str_of name);
               d = \<lparr>disk_name = nm, disk_product = ''Malloc disk'',
                    disk_uuid = (if uuid = [] then env_uuid env nm else uuid),
                    blocklen = block_size, blockcnt = num_blocks\<rparr>
           in (case spdk_bdev_register d s of None \<Rightarrow> None | Some s' \<Rightarrow> Some (nm, s')))"

definition rpc_construct_malloc_bdev :: "environment \<Rightarrow> json option \<Rightarrow> spdk \<Rightarrow> answer" where
  "rpc_construct_malloc_bdev env params s =
     (case json_decode_object [(''name'', is_str, True), (''uuid'', is_str, True),
             (''num_blocks'', in_range 0 (2 ^ 64), False), (''block_size'', in_range 0 (2 ^ 32), False)] params of
        None \<Rightarrow> invalid_params ''Invalid parameters'' s
      | Some ps \<Rightarrow>
          (case create_malloc_disk env (ps ''name'') (str_of (ps ''uuid''))
                  (nat (num_of (ps ''num_blocks''))) (nat (num_of (ps ''block_size''))) s of
             None \<Rightarrow> invalid_params ''Invalid parameters'' s
           | Some (nm, s') \<Rightarrow> (Inr (JStr nm), s')))"

definition spdk_bdev_rbd_create ::
  "environment \<Rightarrow> json option \<Rightarrow> string \<Rightarrow> string \<Rightarrow> string \<Rightarrow> (string \<times> json) list \<Rightarrow> nat \<Rightarrow> spdk
   \<Rightarrow> (string \<times> spdk) option" where
  "spdk_bdev_rbd_create env name user_id pool_name rbd_name config block_size s =
     (case env_rbd env user_id pool_name rbd_name config of
        None \<Rightarrow> None
      | Some sz \<Rightarrow>
          let nm = (if name = None then env_name env ''Ceph'' s else str_of name);
              d = \<lparr>disk_name = nm, disk_product = ''Ceph Rbd Disk'', disk_uuid = env_uuid env nm,
                   blocklen = block_size, blockcnt = sz div block_size\<rparr>
          in (case spdk_bdev_register d s of None \<Rightarrow> None | Some s' \<Rightarrow> Some (nm, s')))"

fun is_config :: "json \<Rightarrow> bool" where
  "is_config (JObj ms) = list_all (\<lambda>(k, v). is_str v) ms"
| "is_config JNull = True"
| "is_config _ = False"

definition rpc_construct_rbd_bdev :: "environment \<Rightarrow> json option \<Rightarrow> spdk \<Rightarrow> answer" where
  "rpc_construct_rbd_bdev env params s =
     (case json_decode_object [(''name'', is_str, True), (''user_id'', is_str, True),
             (''pool_name'', is_str, False), (''rbd_name'', is_str, False),
             (''block_size'', in_range 0 (2 ^ 32), False), (''config'', is_config, True)] params of
        None \<Rightarrow> invalid_params ''Invalid parameters'' s
      | Some ps \<Rightarrow>
          (case spdk_bdev_rbd_create env (ps ''name'') (str_of (ps ''user_id'')) (str_of (ps ''pool_name''))
                  (str_of (ps ''rbd_name''))
                  (case ps ''config'' of Some (JObj ms) \<Rightarrow> ms | _ \<Rightarrow> [])
                  (nat (num_of (ps ''block_size''))) s of
             None \<Rightarrow> invalid_params ''Invalid parameters'' s
           | Some (nm, s') \<Rightarrow> (Inr (JStr nm), s')))"

section \<open>SCSI targets\<close>

definition spdk_vhost_dev_find :: "spdk \<Rightarrow> string \<Rightarrow> vhost_dev option" where
  "spdk_vhost_dev_find s name = find (\<lambda>v. vdev_name v = name) (vdevs s)"

definition set_target :: "string \<Rightarrow> nat \<Rightarrow> string option \<Rightarrow> spdk \<Rightarrow> spdk" where
  "set_target name t x s = s\<lparr>vdevs := map (\<lambda>v. if vdev_name v = name
     then v\<lparr>scsi_dev_state := (scsi_dev_state v)[t := x]\<rparr> else v) (vdevs s)\<rparr>"

text \<open>The target number, or the text of the error; a negative number asks for a free target.\<close>

definition spdk_vhost_scsi_dev_add_tgt :: "vhost_dev \<Rightarrow> int \<Rightarrow> string \<Rightarrow> spdk \<Rightarrow> string + nat" where
  "spdk_vhost_scsi_dev_add_tgt vdev scsi_tgt_num bdev_name s =
     (let t = (if scsi_tgt_num < 0
               then length (takeWhile (\<lambda>d. d \<noteq> None) (scsi_dev_state vdev)) else nat scsi_tgt_num)
      in if SPDK_VHOST_SCSI_CTRLR_MAX_DEVS \<le> t
         then Inl (if scsi_tgt_num < 0 then ''No space left on device'' else ''Invalid argument'')
         else if scsi_dev_state vdev ! t \<noteq> None then Inl ''File exists''
         else if spdk_bdev_get_by_name s bdev_name = None then Inl ''Invalid argument''
         else Inr t)"

definition rpc_add_vhost_scsi_lun :: "json option \<Rightarrow> spdk \<Rightarrow> answer" where
  "rpc_add_vhost_scsi_lun params s =
     (case json_decode_object [(''ctrlr'', is_str, False), (''scsi_target_num'', in_range (- (2 ^ 31)) (2 ^ 31), False),
             (''bdev_name'', is_str, False)] params of
        None \<Rightarrow> invalid_params ''Invalid argument'' s
      | Some ps \<Rightarrow>
          let ctrlr = str_of (ps ''ctrlr''); bdev_name = str_of (ps ''bdev_name'') in
          (case spdk_vhost_dev_find s ctrlr of
             None \<Rightarrow> invalid_params ''No such device'' s
           | Some vdev \<Rightarrow>
               (case spdk_vhost_scsi_dev_add_tgt vdev (num_of (ps ''scsi_target_num'')) bdev_name s of
                  Inl e \<Rightarrow> invalid_params e s
                | Inr t \<Rightarrow> (Inr (JNum (int t)), set_target ctrlr t (Some bdev_name) s))))"

definition rpc_remove_vhost_scsi_target :: "json option \<Rightarrow> spdk \<Rightarrow> answer" where
  "rpc_remove_vhost_scsi_target params s =
     (case json_decode_object [(''ctrlr'', is_str, False), (''scsi_target_num'', in_range 0 (2 ^ 32), False)] params of
        None \<Rightarrow> invalid_params ''Invalid argument'' s
      | Some ps \<Rightarrow>
          let ctrlr = str_of (ps ''ctrlr''); t = nat (num_of (ps ''scsi_target_num'')) in
          (case spdk_vhost_dev_find s ctrlr of
             None \<Rightarrow> invalid_params ''No such device'' s
           | Some vdev \<Rightarrow>
               if SPDK_VHOST_SCSI_CTRLR_MAX_DEVS \<le> t then invalid_params ''Invalid argument'' s
               else if scsi_dev_state vdev ! t = None then invalid_params ''No such device'' s
               else (Inr (JBool True), set_target ctrlr t None s)))"

definition dump_target :: "nat \<times> string option \<Rightarrow> json list" where
  "dump_target = (\<lambda>(dev_idx, dev). case dev of None \<Rightarrow> [] | Some bdev_name \<Rightarrow>
     [JObj [(''scsi_dev_num'', JNum (int dev_idx)), (''id'', JNum (int dev_idx)),
            (''target_name'', JStr (''Target '' @ print_base 10 dev_idx)),
            (''luns'', JArr [JObj [(''id'', JNum 0), (''bdev_name'', JStr bdev_name)]])]])"

definition dump_vhost_controller :: "vhost_dev \<Rightarrow> json" where
  "dump_vhost_controller v = JObj
     [(''ctrlr'', JStr (vdev_name v)), (''cpumask'', JStr (''0x'' @ vdev_cpumask v)),
      (''delay_base_us'', JNum 0), (''iops_threshold'', JNum 60000), (''socket'', JStr (vdev_name v)),
      (''backend_specific'', JObj [(''scsi'',
         JArr (concat (map dump_target (enumerate 0 (scsi_dev_state v)))))])]"

definition rpc_get_vhost_controllers :: "json option \<Rightarrow> spdk \<Rightarrow> answer" where
  "rpc_get_vhost_controllers params s =
     (case (if params = None then Some Map.empty
            else json_decode_object [(''name'', is_str, True)] params) of
        None \<Rightarrow> (Inl (- 32603, ''Invalid argument''), s)
      | Some ps \<Rightarrow>
          (case ps ''name'' of
             None \<Rightarrow> (Inr (JArr (map dump_vhost_controller (vdevs s))), s)
           | Some name \<Rightarrow>
               (case spdk_vhost_dev_find s (str_of (Some name)) of
                  None \<Rightarrow> (Inl (- 32603, ''No such device''), s)
                | Some v \<Rightarrow> (Inr (JArr [dump_vhost_controller v]), s))))"

text \<open>Setting up and removing vhost controllers.\<close>

definition rpc_construct_vhost_scsi_controller :: "environment \<Rightarrow> json option \<Rightarrow> spdk \<Rightarrow> answer" where
  "rpc_construct_vhost_scsi_controller env params s =
     (case json_decode_object [(''ctrlr'', is_str, False), (''cpumask'', is_str, True)] params of
        None \<Rightarrow> invalid_params ''Invalid argument'' s
      | Some ps \<Rightarrow>
          let name = str_of (ps ''ctrlr'') in
          (case env_vhost env name (map_option (\<lambda>m. str_of (Some m)) (ps ''cpumask'')) of
             Inl e \<Rightarrow> invalid_params e s
           | Inr cpumask \<Rightarrow>
               if spdk_vhost_dev_find s name \<noteq> None then invalid_params ''File exists'' s
               else (Inr (JBool True), s\<lparr>vdevs := vdevs s @ [\<lparr>vdev_name = name, vdev_cpumask = cpumask,
                      scsi_dev_state = replicate SPDK_VHOST_SCSI_CTRLR_MAX_DEVS None\<rparr>]\<rparr>)))"

definition rpc_remove_vhost_controller :: "environment \<Rightarrow> json option \<Rightarrow> spdk \<Rightarrow> answer" where
  "rpc_remove_vhost_controller env params s =
     (case json_decode_object [(''ctrlr'', is_str, False)] params of
        None \<Rightarrow> invalid_params ''Invalid argument'' s
      | Some ps \<Rightarrow>
          let name = str_of (ps ''ctrlr'') in
          (case spdk_vhost_dev_find s name of
             None \<Rightarrow> invalid_params ''No such device'' s
           | Some vdev \<Rightarrow>
               if list_ex (\<lambda>d. d \<noteq> None) (scsi_dev_state vdev) \<or> env_connected env name
               then invalid_params ''Device or resource busy'' s
               else (Inr (JBool True), s\<lparr>vdevs := filter (\<lambda>v. vdev_name v \<noteq> name) (vdevs s)\<rparr>)))"

section \<open>NBD disks\<close>

definition spdk_nbd_disk_find_by_nbd_path :: "spdk \<Rightarrow> string \<Rightarrow> nbd_disk option" where
  "spdk_nbd_disk_find_by_nbd_path s path = find (\<lambda>n. nbd_path n = path) (nbds s)"

definition rpc_start_nbd_disk :: "environment \<Rightarrow> json option \<Rightarrow> spdk \<Rightarrow> answer" where
  "rpc_start_nbd_disk env params s =
     (case json_decode_object [(''bdev_name'', is_str, False), (''nbd_device'', is_str, False)] params of
        None \<Rightarrow> invalid_params ''Invalid parameters'' s
      | Some ps \<Rightarrow>
          let bdev_name = str_of (ps ''bdev_name''); nbd_device = str_of (ps ''nbd_device'') in
          if spdk_nbd_disk_find_by_nbd_path s nbd_device \<noteq> None
             \<or> spdk_bdev_get_by_name s bdev_name = None \<or> \<not> env_nbd env nbd_device
          then invalid_params ''Invalid parameters'' s
          else (Inr (JStr nbd_device), s\<lparr>nbds := nbds s @ [\<lparr>nbd_path = nbd_device, nbd_bdev = bdev_name\<rparr>]\<rparr>))"

definition rpc_stop_nbd_disk :: "json option \<Rightarrow> spdk \<Rightarrow> answer" where
  "rpc_stop_nbd_disk params s =
     (case json_decode_object [(''nbd_device'', is_str, False)] params of
        None \<Rightarrow> invalid_params ''Invalid parameters'' s
      | Some ps \<Rightarrow>
          let nbd_device = str_of (ps ''nbd_device'') in
          if spdk_nbd_disk_find_by_nbd_path s nbd_device = None then invalid_params ''Invalid parameters'' s
          else (Inr (JBool True), s\<lparr>nbds := filter (\<lambda>n. nbd_path n \<noteq> nbd_device) (nbds s)\<rparr>))"

definition dump_nbd_info :: "nbd_disk \<Rightarrow> json" where
  "dump_nbd_info n = JObj [(''nbd_device'', JStr (nbd_path n)), (''bdev_name'', JStr (nbd_bdev n))]"

definition rpc_get_nbd_disks :: "json option \<Rightarrow> spdk \<Rightarrow> answer" where
  "rpc_get_nbd_disks params s =
     (case (if params = None then Some Map.empty
            else json_decode_object [(''nbd_device'', is_str, True)] params) of
        None \<Rightarrow> invalid_params ''Invalid parameters'' s
      | Some ps \<Rightarrow>
          (case ps ''nbd_device'' of
             None \<Rightarrow> (Inr (JArr (map dump_nbd_info (nbds s))), s)
           | Some p \<Rightarrow>
               (case spdk_nbd_disk_find_by_nbd_path s (str_of (Some p)) of
                  None \<Rightarrow> invalid_params ''Invalid parameters'' s
                | Some n \<Rightarrow> (Inr (JArr [dump_nbd_info n]), s))))"

section \<open>Dispatch\<close>

definition spdk_daemon :: "environment \<Rightarrow> spdk daemon" where
  "spdk_daemon env method params s =
     (if method = ''get_bdevs'' then rpc_get_bdevs params s
      else if method = ''delete_bdev'' then rpc_delete_bdev params s
      else if method = ''construct_malloc_bdev'' then rpc_construct_malloc_bdev env params s
      else if method = ''construct_rbd_bdev'' then rpc_construct_rbd_bdev env params s
      else if method = ''add_vhost_scsi_lun'' then rpc_add_vhost_scsi_lun params s
      else if method = ''remove_vhost_scsi_target'' then rpc_remove_vhost_scsi_target params s
      else if method = ''get_vhost_controllers'' then rpc_get_vhost_controllers params s
      else if method = ''construct_vhost_scsi_controller'' then rpc_construct_vhost_scsi_controller env params s
      else if method = ''remove_vhost_controller'' then rpc_remove_vhost_controller env params s
      else if method = ''start_nbd_disk'' then rpc_start_nbd_disk env params s
      else if method = ''stop_nbd_disk'' then rpc_stop_nbd_disk params s
      else if method = ''get_nbd_disks'' then rpc_get_nbd_disks params s
      else (Inl (- 32601, ''Method not found''), s))"

section \<open>What the clients observe\<close>

definition bdev_view :: "disk \<Rightarrow> BDev" where
  "bdev_view d = \<lparr>bdev_Name = disk_name d, ProductName = disk_product d, bdev_UUID = disk_uuid d,
     BlockSize = int (blocklen d), NumBlocks = int (blockcnt d), Claimed = False,
     bdev_SupportedIOTypes = \<lparr>io_Read = True, io_Write = True, io_Unmap = malloc_only d, io_WriteZeros = malloc_only d,
       io_Flush = True, io_Reset = True, io_NVMEAdmin = False, io_NVMEIO = False\<rparr>\<rparr>"

definition bdevs :: "spdk \<Rightarrow> (string \<rightharpoonup> BDev)" where
  "bdevs s name = map_option bdev_view (spdk_bdev_get_by_name s name)"

type_synonym lun = "string \<times> uint32 \<times> string"

definition vdev_luns :: "vhost_dev \<Rightarrow> lun list" where
  "vdev_luns v = concat (map (\<lambda>(i, t). case t of None \<Rightarrow> [] | Some b \<Rightarrow> [(vdev_name v, word_of_nat i, b)])
     (enumerate 0 (scsi_dev_state v)))"

definition luns :: "spdk \<Rightarrow> lun list" where
  "luns s = concat (map vdev_luns (vdevs s))"

definition vhosts :: "spdk \<Rightarrow> string set" where
  "vhosts s = vdev_name ` set (vdevs s)"

text \<open>The LUNs in a reply of \<^verbatim>\<open>get_vhost_controllers\<close>, in the order in which the clients walk over them.\<close>

definition backend_luns :: "string \<Rightarrow> string \<times> backend \<Rightarrow> lun list" where
  "backend_luns c = (\<lambda>(key, b). case b of
     SCSI ts \<Rightarrow> if key = ''scsi'' then concat (map (\<lambda>t. map (\<lambda>l. (c, SCSIDevNum t, lun_BDevName l)) (LUNs t)) ts) else []
   | OtherBackend _ \<Rightarrow> [])"

definition controller_luns :: "Controller list \<Rightarrow> lun list" where
  "controller_luns cs = concat (map (\<lambda>c. concat (map (backend_luns (ctrlr c)) (BackendSpecific c))) cs)"

text \<open>The invariant of the daemon's state.\<close>

definition spdk_inv :: "spdk \<Rightarrow> bool" where
  "spdk_inv s \<longleftrightarrow>
     distinct (map disk_name (disks s)) \<and> (\<forall>d \<in> set (disks s). blocklen d < 2 ^ 32 \<and> blockcnt d < 2 ^ 63)
     \<and> distinct (map vdev_name (vdevs s))
     \<and> (\<forall>v \<in> set (vdevs s). length (scsi_dev_state v) = SPDK_VHOST_SCSI_CTRLR_MAX_DEVS
          \<and> (\<forall>b. Some b \<in> set (scsi_dev_state v) \<longrightarrow> b \<in> disk_name ` set (disks s)))
     \<and> distinct (map nbd_path (nbds s)) \<and> (\<forall>n \<in> set (nbds s). nbd_bdev n \<in> disk_name ` set (disks s))"

definition env_ok :: "environment \<Rightarrow> bool" where
  "env_ok env \<longleftrightarrow> (\<forall>u p i c sz. env_rbd env u p i c = Some sz \<longrightarrow> sz < 2 ^ 63)"

definition world_ok :: "Client \<times> spdk \<Rightarrow> bool" where
  "world_ok = (\<lambda>(cl, s). client_ok cl \<and> spdk_inv s)"

section \<open>Replies\<close>

lemma decode_dump_bdev:
  "blocklen d < 2 ^ 32 \<Longrightarrow> blockcnt d < 2 ^ 63 \<Longrightarrow> decode_BDev (dump_bdev_info d) = Inr (bdev_view d)"
  by (simp add: decode_BDev_def dump_bdev_info_def decode_field_def members_def same_key_def is_int64_def
      decode_SupportedIOTypes_def bdev_view_def Let_def ex_bool_eq)

lemma decode_list_map:
  "(\<And>x. x \<in> set xs \<Longrightarrow> f (g x) = Inr (h x)) \<Longrightarrow> decode_list f (map g xs) = Inr (map h xs)"
  by (induction xs) auto

lemma decode_array_map:
  "(\<And>x. x \<in> set xs \<Longrightarrow> f (g x) = Inr (h x)) \<Longrightarrow> decode_array f (JArr (map g xs)) = Inr (map h xs)"
  by (simp add: decode_array_def decode_list_map)

lemma decode_dump_nbd:
  "decode_NBDDisk (dump_nbd_info n) = Inr \<lparr>nbd_BDevName = nbd_bdev n, NBDDevice = nbd_path n\<rparr>"
  by (simp add: decode_NBDDisk_def dump_nbd_info_def decode_field_def members_def same_key_def)

definition target_view :: "nat \<times> string option \<Rightarrow> SCSIControllerTarget list" where
  "target_view = (\<lambda>(i, dev). case dev of None \<Rightarrow> [] | Some b \<Rightarrow>
     [\<lparr>TargetName = ''Target '' @ print_base 10 i, LUNs = [\<lparr>LUN = 0, lun_BDevName = b\<rparr>],
       ID = int32 (int i), SCSIDevNum = word_of_nat i\<rparr>])"

lemma getSCSIBackendSpecific_dump:
  "getSCSIBackendSpecific (JArr (concat (map dump_target xs))) = concat (map target_view xs)"
proof (induction xs)
  case Nil
  show ?case by (simp add: getSCSIBackendSpecific_def)
next
  case (Cons x xs)
  obtain i dev where x: "x = (i, dev)" by (cases x)
  have app: "getSCSIBackendSpecific (JArr (as @ bs)) =
      getSCSIBackendSpecific (JArr as) @ getSCSIBackendSpecific (JArr bs)" for as bs
    by (simp add: getSCSIBackendSpecific_def)
  have "getSCSIBackendSpecific (JArr (dump_target x)) = target_view x"
    by (cases dev) (simp_all add: x getSCSIBackendSpecific_def dump_target_def target_view_def target_of_def
        lun_of_def int32_def)
  with Cons app show ?case by simp
qed

definition vdev_view :: "vhost_dev \<Rightarrow> Controller" where
  "vdev_view v = \<lparr>ctrlr = vdev_name v, CPUMask = ''0x'' @ vdev_cpumask v,
     BackendSpecific = [(''scsi'', SCSI (concat (map target_view (enumerate 0 (scsi_dev_state v)))))]\<rparr>"

lemma decode_dump_vdev: "decode_Controller (dump_vhost_controller v) = Inr (vdev_view v)"
  by (simp add: decode_Controller_def dump_vhost_controller_def decode_field_def members_def same_key_def
      decode_backend_def getSCSIBackendSpecific_dump vdev_view_def)

lemma controller_luns_view: "controller_luns (map vdev_view vs) = concat (map vdev_luns vs)"
proof (induction vs)
  case (Cons v vs)
  have "concat (map (\<lambda>t. map (\<lambda>l. (vdev_name v, SCSIDevNum t, lun_BDevName l)) (LUNs t))
          (concat (map target_view xs))) =
        concat (map (\<lambda>(i, t). case t of None \<Rightarrow> [] | Some b \<Rightarrow> [(vdev_name v, word_of_nat i, b)]) xs)" for xs
    by (induction xs) (auto simp: target_view_def split: option.split)
  then have "backend_luns (ctrlr (vdev_view v)) (''scsi'', SCSI (concat (map target_view (enumerate 0 (scsi_dev_state v))))) =
      vdev_luns v"
    by (simp add: backend_luns_def vdev_view_def vdev_luns_def)
  with Cons show ?case by (simp add: controller_luns_def vdev_view_def)
qed (simp add: controller_luns_def)

section \<open>The calls of the bindings on the daemon\<close>

lemma call_value_error:
  assumes "client_ok cl" and "spdk_daemon env method args s = (Inl (code, message), s')"
  shows "\<exists>cl'. client_ok cl' \<and>
    call_value (Invoke (spdk_daemon env) method args (Some decode) (cl, s)) = (Inl (rpc_error code message), cl', s')"
  using Invoke_working [of cl "spdk_daemon env" "method" args s "Inl (code, message)" s' "Some decode"] assms
  by (auto simp: call_value_def)

lemma call_value_ok:
  assumes "client_ok cl" and "spdk_daemon env method args s = (Inr v, s')" and "v \<noteq> JNull" and "decode v = Inr x"
  shows "\<exists>cl'. client_ok cl' \<and> call_value (Invoke (spdk_daemon env) method args (Some decode) (cl, s)) = (Inr x, cl', s')"
  using Invoke_working [of cl "spdk_daemon env" "method" args s "Inr v" s' "Some decode"] assms
  by (auto simp: call_value_def rpc_value_def)

lemma call_unit_error:
  assumes "client_ok cl" and "spdk_daemon env method args s = (Inl (code, message), s')"
  shows "\<exists>cl'. client_ok cl' \<and>
    call_unit (Invoke (spdk_daemon env) method args None (cl, s)) = (Inl (rpc_error code message), cl', s')"
  using Invoke_working [of cl "spdk_daemon env" "method" args s "Inl (code, message)" s' "None :: (json \<Rightarrow> unit result) option"] assms
  by (auto simp: call_unit_def)

lemma call_unit_ok:
  assumes "client_ok cl" and "spdk_daemon env method args s = (Inr v, s')" and "v \<noteq> JNull"
  shows "\<exists>cl'. client_ok cl' \<and> call_unit (Invoke (spdk_daemon env) method args None (cl, s)) = (Inr (), cl', s')"
  using Invoke_working [of cl "spdk_daemon env" "method" args s "Inr v" s' "None :: (json \<Rightarrow> unit result) option"] assms
  by (auto simp: call_unit_def rpc_value_def)

lemma find_disk:
  "spdk_bdev_get_by_name s name = Some d \<Longrightarrow> d \<in> set (disks s) \<and> disk_name d = name"
  by (auto simp: spdk_bdev_get_by_name_def dest: find_Some_conv)

lemma find_disk_None: "spdk_bdev_get_by_name s name = None \<longleftrightarrow> name \<notin> disk_name ` set (disks s)"
  by (auto simp: spdk_bdev_get_by_name_def find_None_iff)

lemma bdevs_None: "bdevs s name = None \<longleftrightarrow> name \<notin> disk_name ` set (disks s)"
  by (simp add: bdevs_def find_disk_None)

definition not_found :: go_error where
  "not_found = rpc_error (- 32602) ''Invalid parameters''"

lemma GetBDevs_daemon:
  assumes "client_ok cl" and "spdk_inv s" and "name \<noteq> []"
  shows "\<exists>cl'. client_ok cl' \<and> GetBDevs (spdk_daemon env) name (cl, s) =
    ((case bdevs s name of None \<Rightarrow> Inl not_found | Some b \<Rightarrow> Inr [b]), cl', s)"
proof -
  let ?ps = "Some (JObj (omitempty ''name'' name))"
  have d: "spdk_daemon env ''get_bdevs'' ?ps s =
      (case spdk_bdev_get_by_name s name of None \<Rightarrow> (Inl (- 32602, ''Invalid parameters''), s)
       | Some d \<Rightarrow> (Inr (JArr [dump_bdev_info d]), s))"
    using assms(3) by (simp add: spdk_daemon_def rpc_get_bdevs_def json_decode_object_def omitempty_def
        is_str_def invalid_params_def split: option.split)
  show ?thesis
  proof (cases "spdk_bdev_get_by_name s name")
    case None
    with d have "spdk_daemon env ''get_bdevs'' ?ps s = (Inl (- 32602, ''Invalid parameters''), s)" by simp
    from call_value_error [OF assms(1) this] None show ?thesis
      by (simp add: GetBDevs_def bdevs_def not_found_def)
  next
    case (Some b)
    with d have d1: "spdk_daemon env ''get_bdevs'' ?ps s = (Inr (JArr [dump_bdev_info b]), s)" by simp
    have dec: "decode_array decode_BDev (JArr [dump_bdev_info b]) = Inr [bdev_view b]"
      using assms(2) find_disk [OF Some] decode_dump_bdev [of b] by (auto simp: spdk_inv_def decode_array_def)
    from call_value_ok [where decode = "decode_array decode_BDev", OF assms(1) d1 _ dec] Some show ?thesis by (simp add: GetBDevs_def bdevs_def)
  qed
qed

lemma bdevs_unregister: "bdevs (spdk_bdev_unregister name s) = (bdevs s)(name := None)"
proof
  fix n
  have f: "find (\<lambda>d. disk_name d = n) (filter (\<lambda>d. disk_name d \<noteq> name) ds) =
      (if n = name then None else find (\<lambda>d. disk_name d = n) ds)" for ds
    by (induction ds) auto
  have "disks (spdk_bdev_unregister name s) = filter (\<lambda>d. disk_name d \<noteq> name) (disks s)"
    by (simp add: spdk_bdev_unregister_def)
  then show "bdevs (spdk_bdev_unregister name s) n = ((bdevs s)(name := None)) n"
    unfolding bdevs_def spdk_bdev_get_by_name_def by (simp only: f) simp
qed

lemma vdev_luns_unregister:
  "vdev_luns (v\<lparr>scsi_dev_state := map (\<lambda>t. if t = Some name then None else t) (scsi_dev_state v)\<rparr>) =
     filter (\<lambda>(c, t, b). b \<noteq> name) (vdev_luns v)"
proof -
  have "concat (map (\<lambda>(i, t). case t of None \<Rightarrow> [] | Some b \<Rightarrow> [(c, word_of_nat i :: uint32, b)])
          (enumerate n (map (\<lambda>t. if t = Some name then None else t) ts))) =
        filter (\<lambda>(c, t, b). b \<noteq> name)
          (concat (map (\<lambda>(i, t). case t of None \<Rightarrow> [] | Some b \<Rightarrow> [(c, word_of_nat i, b)]) (enumerate n ts)))"
    for c n ts
    by (induction ts arbitrary: n) (auto split: option.split)
  note this [of "vdev_name v" 0 "scsi_dev_state v"]
  then show ?thesis unfolding vdev_luns_def by simp
qed

lemma luns_unregister: "luns (spdk_bdev_unregister name s) = filter (\<lambda>(c, t, b). b \<noteq> name) (luns s)"
proof -
  have "concat (map vdev_luns (map (\<lambda>v. v\<lparr>scsi_dev_state :=
          map (\<lambda>t. if t = Some name then None else t) (scsi_dev_state v)\<rparr>) vs)) =
        filter (\<lambda>(c, t, b). b \<noteq> name) (concat (map vdev_luns vs))" for vs
    by (induction vs) (simp_all add: vdev_luns_unregister)
  then show ?thesis by (simp add: luns_def spdk_bdev_unregister_def)
qed

lemma vhosts_unregister [simp]: "vhosts (spdk_bdev_unregister name s) = vhosts s"
  by (simp add: vhosts_def spdk_bdev_unregister_def image_image)

lemma spdk_inv_unregister [oim_inv]:
  assumes "spdk_inv s"
  shows "spdk_inv (spdk_bdev_unregister name s)"
proof -
  have d: "distinct (map f xs) \<Longrightarrow> distinct (map f (filter P xs))" for f :: "'a \<Rightarrow> 'b" and P xs
    by (induction xs) auto
  have names: "map vdev_name (map (\<lambda>v. v\<lparr>scsi_dev_state :=
      map (\<lambda>t. if t = Some name then None else t) (scsi_dev_state v)\<rparr>) vs) = map vdev_name vs" for vs
    by simp
  have "b \<in> disk_name ` set (filter (\<lambda>d. disk_name d \<noteq> name) (disks s))"
    if "v \<in> set (vdevs s)" "Some b \<in> set (map (\<lambda>t. if t = Some name then None else t) (scsi_dev_state v))" for v b
  proof -
    from that(2) have "Some b \<in> set (scsi_dev_state v)" "b \<noteq> name" by (auto split: if_splits)
    with assms that(1) have "b \<in> disk_name ` set (disks s)" by (auto simp: spdk_inv_def)
    with \<open>b \<noteq> name\<close> show ?thesis by auto
  qed
  moreover have "nbd_bdev n \<in> disk_name ` set (filter (\<lambda>d. disk_name d \<noteq> name) (disks s))"
    if "n \<in> set (nbds s)" "nbd_bdev n \<noteq> name" for n
    using assms that unfolding spdk_inv_def by fastforce
  ultimately show ?thesis
    using assms unfolding spdk_inv_def spdk_bdev_unregister_def by (auto simp: d comp_def)
qed

lemma vdev_luns_iff:
  "(c, t, b) \<in> set (vdev_luns v) \<longleftrightarrow> c = vdev_name v \<and>
     (\<exists>i < length (scsi_dev_state v). scsi_dev_state v ! i = Some b \<and> t = word_of_nat i)"
proof -
  have "(c, t, b) \<in> set (vdev_luns v) \<longleftrightarrow>
      (\<exists>(i, x) \<in> set (enumerate 0 (scsi_dev_state v)). x = Some b \<and> c = vdev_name v \<and> t = word_of_nat i)"
    by (auto simp: vdev_luns_def split: option.splits)
  then show ?thesis by (auto simp: in_set_enumerate_eq Bex_def)
qed

lemma luns_iff:
  "(c, t, b) \<in> set (luns s) \<longleftrightarrow> (\<exists>v \<in> set (vdevs s). c = vdev_name v \<and>
     (\<exists>i < length (scsi_dev_state v). scsi_dev_state v ! i = Some b \<and> t = word_of_nat i))"
  unfolding luns_def set_concat by (auto simp: vdev_luns_iff)

lemma unregister_unknown:
  assumes "spdk_inv s" and "bdevs s name = None"
  shows "(bdevs s)(name := None) = bdevs s" and "filter (\<lambda>(c, t, b). b \<noteq> name) (luns s) = luns s"
proof -
  show "(bdevs s)(name := None) = bdevs s" using assms(2) by auto
  have "name \<notin> disk_name ` set (disks s)" using assms(2) by (simp add: bdevs_None)
  then have "Some name \<notin> set (scsi_dev_state v)" if "v \<in> set (vdevs s)" for v
    using assms(1) that by (auto simp: spdk_inv_def)
  then have "b \<noteq> name" if "(c, t, b) \<in> set (luns s)" for c t b
    using that unfolding luns_iff by (metis nth_mem)
  then show "filter (\<lambda>(c, t, b). b \<noteq> name) (luns s) = luns s" by (auto simp: filter_id_conv)
qed

lemma DeleteBDev_daemon:
  assumes "client_ok cl" and "spdk_inv s"
  shows "\<exists>cl' s'. client_ok cl' \<and> spdk_inv s' \<and>
    DeleteBDev (spdk_daemon env) name (cl, s) = ((if bdevs s name = None then Inl not_found else Inr ()), cl', s')
    \<and> bdevs s' = (bdevs s)(name := None) \<and> luns s' = filter (\<lambda>(c, t, b). b \<noteq> name) (luns s) \<and> vhosts s' = vhosts s"
proof -
  let ?ps = "Some (JObj [(''name'', JStr name)])"
  have d: "spdk_daemon env ''delete_bdev'' ?ps s =
      (case spdk_bdev_get_by_name s name of None \<Rightarrow> (Inl (- 32602, ''Invalid parameters''), s)
       | Some d \<Rightarrow> (Inr (JBool True), spdk_bdev_unregister name s))"
    by (simp add: spdk_daemon_def rpc_delete_bdev_def json_decode_object_def is_str_def invalid_params_def
        split: option.split)
  show ?thesis
  proof (cases "spdk_bdev_get_by_name s name")
    case None
    with d have d1: "spdk_daemon env ''delete_bdev'' ?ps s = (Inl (- 32602, ''Invalid parameters''), s)" by simp
    have "bdevs s name = None" using None by (simp add: bdevs_def)
    with call_unit_error [OF assms(1) d1] unregister_unknown [OF assms(2)] assms(2) show ?thesis
      by (auto simp: DeleteBDev_def not_found_def)
  next
    case (Some b)
    with d have d1: "spdk_daemon env ''delete_bdev'' ?ps s = (Inr (JBool True), spdk_bdev_unregister name s)" by simp
    have "bdevs s name \<noteq> None" using Some by (simp add: bdevs_def)
    with call_unit_ok [OF assms(1) d1] spdk_inv_unregister [OF assms(2)] show ?thesis
      by (auto simp: DeleteBDev_def bdevs_unregister luns_unregister simp del: fun_upd_apply)
  qed
qed

lemma bdevs_register:
  "spdk_bdev_register d s = Some s' \<Longrightarrow>
   bdevs s (disk_name d) = None \<and> bdevs s' = (bdevs s)(disk_name d \<mapsto> bdev_view d) \<and> luns s' = luns s \<and> vhosts s' = vhosts s"
proof -
  assume "spdk_bdev_register d s = Some s'"
  then have new: "spdk_bdev_get_by_name s (disk_name d) = None" and s': "s' = s\<lparr>disks := disks s @ [d]\<rparr>"
    by (auto simp: spdk_bdev_register_def split: if_splits)
  have "find P (xs @ [d]) = (case find P xs of None \<Rightarrow> if P d then Some d else None | Some x \<Rightarrow> Some x)" for P xs
    by (induction xs) auto
  with new have "bdevs s' = (bdevs s)(disk_name d \<mapsto> bdev_view d)"
    by (auto simp: bdevs_def spdk_bdev_get_by_name_def s' fun_eq_iff split: option.split)
  with new show ?thesis by (simp add: bdevs_def s' luns_def vhosts_def)
qed

lemma spdk_inv_register [oim_inv]:
  "spdk_inv s \<Longrightarrow> spdk_bdev_register d s = Some s' \<Longrightarrow> blocklen d < 2 ^ 32 \<Longrightarrow> blockcnt d < 2 ^ 63 \<Longrightarrow> spdk_inv s'"
  by (auto simp: spdk_bdev_register_def find_disk_None spdk_inv_def split: if_splits)

text \<open>A block device that a call has created, by its name, product and size.\<close>

definition created :: "string \<Rightarrow> (BDev \<Rightarrow> bool) \<Rightarrow> spdk \<Rightarrow> spdk \<Rightarrow> bool" where
  "created name P s s' \<longleftrightarrow> bdevs s name = None \<and> (\<exists>b. P b \<and> bdevs s' = (bdevs s)(name \<mapsto> b))"

lemma ConstructMallocBDev_daemon:
  assumes "client_ok cl" and "spdk_inv s" and "cm_Name a \<noteq> []" and "cm_UUID a = []"
    and "is_int64 (cm_NumBlocks a)" and "cm_BlockSize a = 512"
  shows "\<exists>cl' s' r. client_ok cl' \<and> spdk_inv s' \<and>
    ConstructMallocBDev (spdk_daemon env) a (cl, s) = (r, cl', s') \<and> luns s' = luns s \<and> vhosts s' = vhosts s \<and>
    (if 0 < cm_NumBlocks a \<and> bdevs s (cm_Name a) = None \<and> env_alloc env (nat (cm_NumBlocks a) * 512)
     then r = Inr (cm_Name a) \<and> created (cm_Name a)
            (\<lambda>b. ProductName b = ''Malloc disk'' \<and> BlockSize b = 512 \<and> NumBlocks b = cm_NumBlocks a) s s'
     else r = Inl not_found \<and> s' = s)"
proof -
  let ?n = "cm_NumBlocks a"
  let ?ps = "Some (JObj ([(''num_blocks'', JNum ?n), (''block_size'', JNum (cm_BlockSize a))]
         @ omitempty ''name'' (cm_Name a) @ omitempty ''uuid'' (cm_UUID a)))"
  let ?d = "\<lparr>disk_name = cm_Name a, disk_product = ''Malloc disk'', disk_uuid = env_uuid env (cm_Name a),
             blocklen = 512, blockcnt = nat ?n\<rparr>"
  let ?good = "0 < ?n \<and> bdevs s (cm_Name a) = None \<and> env_alloc env (nat ?n * 512)"
  have n: "?n < 2 ^ 63" using assms(5) by (simp add: is_int64_def)
  have "(cm_Name a \<noteq> [])" "bdevs s (cm_Name a) = None \<longleftrightarrow> spdk_bdev_get_by_name s (cm_Name a) = None"
    using assms(3) by (simp_all add: bdevs_def)
  then have d: "spdk_daemon env ''construct_malloc_bdev'' ?ps s =
      (if ?good then (Inr (JStr (cm_Name a)), s\<lparr>disks := disks s @ [?d]\<rparr>)
       else (Inl (- 32602, ''Invalid parameters''), s))"
    using n assms(4,6)
    by (auto simp: spdk_daemon_def rpc_construct_malloc_bdev_def json_decode_object_def is_str_def omitempty_def
        invalid_params_def create_malloc_disk_def spdk_bdev_register_def Let_def)
  show ?thesis
  proof (cases ?good)
    case True
    then have reg: "spdk_bdev_register ?d s = Some (s\<lparr>disks := disks s @ [?d]\<rparr>)"
      by (simp add: spdk_bdev_register_def bdevs_def)
    from True d have d1: "spdk_daemon env ''construct_malloc_bdev'' ?ps s =
      (Inr (JStr (cm_Name a)), s\<lparr>disks := disks s @ [?d]\<rparr>)" by simp
    have "decode_string (JStr (cm_Name a)) = Inr (cm_Name a)" by (simp add: decode_string_def)
    from call_value_ok [where decode = decode_string, OF assms(1) d1 _ this] obtain cl' where
      c: "client_ok cl'" "ConstructMallocBDev (spdk_daemon env) a (cl, s) =
        (Inr (cm_Name a), cl', s\<lparr>disks := disks s @ [?d]\<rparr>)"
      by (auto simp: ConstructMallocBDev_def)
    moreover have "spdk_inv (s\<lparr>disks := disks s @ [?d]\<rparr>)"
      using n True by (intro spdk_inv_register [OF assms(2) reg]) simp_all
    moreover have "created (cm_Name a)
        (\<lambda>b. ProductName b = ''Malloc disk'' \<and> BlockSize b = 512 \<and> NumBlocks b = ?n) s (s\<lparr>disks := disks s @ [?d]\<rparr>)"
      unfolding created_def using bdevs_register [OF reg] True
      by (intro conjI exI [of _ "bdev_view ?d"]) (simp_all add: bdev_view_def)
    ultimately show ?thesis using True bdevs_register [OF reg] by (intro exI) auto
  next
    case False
    with d have d1: "spdk_daemon env ''construct_malloc_bdev'' ?ps s = (Inl (- 32602, ''Invalid parameters''), s)"
      by simp
    from call_value_error [OF assms(1) d1, of decode_string] False assms(2) show ?thesis
      by (auto simp: ConstructMallocBDev_def not_found_def)
  qed
qed

definition rbd_config :: "ConstructRBDBDevArgs \<Rightarrow> (string \<times> json) list" where
  "rbd_config a = map (\<lambda>(k, v). (k, JStr v)) (Config a)"

lemma ConstructRBDBDev_daemon:
  assumes "client_ok cl" and "spdk_inv s" and "env_ok env" and "rbd_Name a \<noteq> []" and "rbd_BlockSize a = 512"
    and "Config a \<noteq> []"
  shows "\<exists>cl' s' r. client_ok cl' \<and> spdk_inv s' \<and>
    ConstructRBDBDev (spdk_daemon env) a (cl, s) = (r, cl', s') \<and> luns s' = luns s \<and> vhosts s' = vhosts s \<and>
    (if bdevs s (rbd_Name a) = None \<and> env_rbd env (UserID a) (PoolName a) (RBDName a) (rbd_config a) \<noteq> None
     then r = Inr (rbd_Name a) \<and> created (rbd_Name a) (\<lambda>b. ProductName b = ''Ceph Rbd Disk'') s s'
     else r = Inl not_found \<and> s' = s)"
proof -
  let ?ps = "Some (JObj ([(''block_size'', JNum (rbd_BlockSize a))]
         @ omitempty ''name'' (rbd_Name a) @ omitempty ''user_id'' (UserID a)
         @ [(''pool_name'', JStr (PoolName a)), (''rbd_name'', JStr (RBDName a))]
         @ (if Config a = [] then [] else [(''config'', JObj (rbd_config a))])))"
  let ?rbd = "env_rbd env (UserID a) (PoolName a) (RBDName a) (rbd_config a)"
  let ?d = "\<lparr>disk_name = rbd_Name a, disk_product = ''Ceph Rbd Disk'', disk_uuid = env_uuid env (rbd_Name a),
             blocklen = 512, blockcnt = the ?rbd div 512\<rparr>"
  let ?good = "bdevs s (rbd_Name a) = None \<and> ?rbd \<noteq> None"
  have cfg: "is_config (JObj (rbd_config a))"
    by (auto simp: rbd_config_def list_all_iff is_str_def)
  have ps: "ConstructRBDBDev (spdk_daemon env) a w =
      call_value (Invoke (spdk_daemon env) ''construct_rbd_bdev'' ?ps (Some decode_string) w)" for w
    by (simp add: ConstructRBDBDev_def rbd_config_def)
  have "bdevs s (rbd_Name a) = None \<longleftrightarrow> spdk_bdev_get_by_name s (rbd_Name a) = None"
    by (simp add: bdevs_def)
  then have d: "spdk_daemon env ''construct_rbd_bdev'' ?ps s =
      (if ?good then (Inr (JStr (rbd_Name a)), s\<lparr>disks := disks s @ [?d]\<rparr>)
       else (Inl (- 32602, ''Invalid parameters''), s))"
    using assms(4-6) cfg
    by (auto simp: spdk_daemon_def rpc_construct_rbd_bdev_def json_decode_object_def is_str_def omitempty_def
        invalid_params_def spdk_bdev_rbd_create_def spdk_bdev_register_def Let_def
        simp del: is_config.simps split: option.split)
  show ?thesis
  proof (cases ?good)
    case True
    then obtain sz where sz: "?rbd = Some sz" "sz < 2 ^ 63" using assms(3) by (auto simp: env_ok_def)
    from True have reg: "spdk_bdev_register ?d s = Some (s\<lparr>disks := disks s @ [?d]\<rparr>)"
      by (simp add: spdk_bdev_register_def bdevs_def)
    from True d have d1: "spdk_daemon env ''construct_rbd_bdev'' ?ps s =
      (Inr (JStr (rbd_Name a)), s\<lparr>disks := disks s @ [?d]\<rparr>)" by simp
    have "decode_string (JStr (rbd_Name a)) = Inr (rbd_Name a)" by (simp add: decode_string_def)
    from call_value_ok [where decode = decode_string, OF assms(1) d1 _ this] obtain cl' where
      c: "client_ok cl'" "ConstructRBDBDev (spdk_daemon env) a (cl, s) =
        (Inr (rbd_Name a), cl', s\<lparr>disks := disks s @ [?d]\<rparr>)"
      by (auto simp: ps)
    moreover have "spdk_inv (s\<lparr>disks := disks s @ [?d]\<rparr>)"
      using sz by (intro spdk_inv_register [OF assms(2) reg]) simp_all
    moreover have "created (rbd_Name a) (\<lambda>b. ProductName b = ''Ceph Rbd Disk'') s (s\<lparr>disks := disks s @ [?d]\<rparr>)"
      unfolding created_def using bdevs_register [OF reg] True
      by (intro conjI exI [of _ "bdev_view ?d"]) (simp_all add: bdev_view_def)
    ultimately show ?thesis using True bdevs_register [OF reg] by (intro exI) auto
  next
    case False
    with d have d1: "spdk_daemon env ''construct_rbd_bdev'' ?ps s = (Inl (- 32602, ''Invalid parameters''), s)"
      by simp
    from call_value_error [OF assms(1) d1, of decode_string] False assms(2) show ?thesis
      by (auto simp: ps not_found_def)
  qed
qed

lemma GetVHostControllers_daemon:
  assumes "client_ok cl"
  shows "\<exists>cl' cs. client_ok cl' \<and> GetVHostControllers (spdk_daemon env) (cl, s) = (Inr cs, cl', s)
    \<and> controller_luns cs = luns s"
proof -
  have d1: "spdk_daemon env ''get_vhost_controllers'' None s = (Inr (JArr (map dump_vhost_controller (vdevs s))), s)"
    by (simp add: spdk_daemon_def rpc_get_vhost_controllers_def)
  have dec: "decode_array decode_Controller (JArr (map dump_vhost_controller (vdevs s))) = Inr (map vdev_view (vdevs s))"
    by (rule decode_array_map) (rule decode_dump_vdev)
  from call_value_ok [where decode = "decode_array decode_Controller", OF assms d1 _ dec] show ?thesis
    by (auto simp: GetVHostControllers_def controller_luns_view luns_def)
qed

lemma small_word_inj: "i < 8 \<Longrightarrow> j < 8 \<Longrightarrow> (word_of_nat i :: uint32) = word_of_nat j \<longleftrightarrow> i = j"
proof
  assume "i < 8" "j < 8" "(word_of_nat i :: uint32) = word_of_nat j"
  then have "unat (word_of_nat i :: uint32) = unat (word_of_nat j :: uint32)" by simp
  with \<open>i < 8\<close> \<open>j < 8\<close> show "i = j" by (simp add: unat_of_nat)
qed simp

text \<open>The part of the invariant that says how the controllers are laid out.\<close>

definition vdevs_ok :: "spdk \<Rightarrow> bool" where
  "vdevs_ok s \<longleftrightarrow> distinct (map vdev_name (vdevs s)) \<and> (\<forall>v \<in> set (vdevs s). length (scsi_dev_state v) = 8)"

lemma spdk_inv_vdevs_ok: "spdk_inv s \<Longrightarrow> vdevs_ok s"
  by (simp add: spdk_inv_def vdevs_ok_def SPDK_VHOST_SCSI_CTRLR_MAX_DEVS_def)

lemma find_vdev:
  assumes "vdevs_ok s" and "spdk_vhost_dev_find s c = Some v"
  shows "v \<in> set (vdevs s)" and "vdev_name v = c" and "length (scsi_dev_state v) = 8"
    and "\<And>v'. v' \<in> set (vdevs s) \<Longrightarrow> vdev_name v' = c \<Longrightarrow> v' = v"
proof -
  from assms(2) show v: "v \<in> set (vdevs s)" "vdev_name v = c"
    by (auto simp: spdk_vhost_dev_find_def dest: find_Some_conv)
  with assms(1) show "length (scsi_dev_state v) = 8" by (simp add: vdevs_ok_def)
  show "v' = v" if "v' \<in> set (vdevs s)" "vdev_name v' = c" for v'
    using assms(1) v that by (auto simp: vdevs_ok_def distinct_map inj_on_def)
qed

lemma find_vdev_None: "spdk_vhost_dev_find s c = None \<longleftrightarrow> c \<notin> vhosts s"
  by (auto simp: spdk_vhost_dev_find_def find_None_iff vhosts_def)

lemma luns_of_vdev:
  assumes "vdevs_ok s" and "spdk_vhost_dev_find s c = Some v"
  shows "(c, t, b) \<in> set (luns s) \<longleftrightarrow> (\<exists>j < 8. t = word_of_nat j \<and> scsi_dev_state v ! j = Some b)"
proof -
  note v = find_vdev [OF assms]
  have "(c, t, b) \<in> set (luns s) \<longleftrightarrow> (\<exists>j < length (scsi_dev_state v). scsi_dev_state v ! j = Some b \<and> t = word_of_nat j)"
    unfolding luns_iff using v(1,2,4) by metis
  then show ?thesis unfolding v(3) by blast
qed

lemma slot_luns:
  assumes "vdevs_ok s" and "spdk_vhost_dev_find s c = Some v" and "i < 8"
  shows "(c, word_of_nat i, b) \<in> set (luns s) \<longleftrightarrow> scsi_dev_state v ! i = Some b"
  unfolding luns_of_vdev [OF assms(1,2)] using assms(3) small_word_inj by metis

lemma vdevs_ok_set_target: "vdevs_ok s \<Longrightarrow> vdevs_ok (set_target c i x s)"
proof -
  have "map vdev_name (vdevs (set_target c i x s)) = map vdev_name (vdevs s)"
    by (auto simp: set_target_def)
  moreover assume ok: "vdevs_ok s"
  then have "\<forall>v \<in> set (vdevs (set_target c i x s)). length (scsi_dev_state v) = 8"
    by (auto simp: vdevs_ok_def set_target_def)
  ultimately show "vdevs_ok (set_target c i x s)" using ok by (simp only: vdevs_ok_def)
qed

lemma find_vdev_set_target:
  "spdk_vhost_dev_find (set_target c i x s) c' =
     map_option (\<lambda>v. if c' = c then v\<lparr>scsi_dev_state := (scsi_dev_state v)[i := x]\<rparr> else v) (spdk_vhost_dev_find s c')"
proof -
  have "find (\<lambda>v. vdev_name v = c') (map (\<lambda>v. if vdev_name v = c
        then v\<lparr>scsi_dev_state := (scsi_dev_state v)[i := x]\<rparr> else v) vs) =
      map_option (\<lambda>v. if c' = c then v\<lparr>scsi_dev_state := (scsi_dev_state v)[i := x]\<rparr> else v)
        (find (\<lambda>v. vdev_name v = c') vs)" for vs
    by (induction vs) auto
  then show ?thesis by (simp add: spdk_vhost_dev_find_def set_target_def)
qed

lemma luns_no_vdev: "spdk_vhost_dev_find s c = None \<Longrightarrow> (c, t, b) \<notin> set (luns s)"
  by (auto simp: find_vdev_None vhosts_def luns_iff)

lemma slot_update:
  assumes "i < 8"
  shows "(\<exists>j < 8. t = (word_of_nat j :: uint32) \<and> (if A \<and> j = i then x else f j) = Some b) \<longleftrightarrow>
    (if A \<and> t = word_of_nat i then x = Some b else \<exists>j < 8. t = word_of_nat j \<and> f j = Some b)"
proof (cases "A \<and> t = word_of_nat i")
  case True
  have "(\<exists>j < 8. t = word_of_nat j \<and> (if A \<and> j = i then x else f j) = Some b) \<longleftrightarrow> x = Some b"
  proof
    assume "\<exists>j < 8. t = word_of_nat j \<and> (if A \<and> j = i then x else f j) = Some b"
    then obtain j where j: "j < 8" "t = word_of_nat j" "(if A \<and> j = i then x else f j) = Some b" by blast
    have "j = i" using small_word_inj [OF j(1) assms] j(2) True by metis
    with j(3) True show "x = Some b" by simp
  next
    assume "x = Some b"
    with True assms show "\<exists>j < 8. t = word_of_nat j \<and> (if A \<and> j = i then x else f j) = Some b"
      by (intro exI [of _ i]) simp
  qed
  then show ?thesis unfolding if_P [OF True] .
next
  case False
  have "(t = word_of_nat j \<and> (if A \<and> j = i then x else f j) = Some b) \<longleftrightarrow> (t = word_of_nat j \<and> f j = Some b)" for j
    using False by (cases "A \<and> j = i") simp_all
  then show ?thesis using False by (simp only: if_False)
qed

lemma luns_set_target:
  assumes "vdevs_ok s" and "spdk_vhost_dev_find s c = Some v" and "i < 8"
  shows "(c', t, b) \<in> set (luns (set_target c i x s)) \<longleftrightarrow>
    (if c' = c \<and> t = word_of_nat i then x = Some b else (c', t, b) \<in> set (luns s))"
proof (cases "spdk_vhost_dev_find s c'")
  case None
  then have f: "spdk_vhost_dev_find (set_target c i x s) c' = None" by (simp add: find_vdev_set_target)
  from None assms(2) have "c' \<noteq> c" by auto
  with luns_no_vdev [OF f, of t b] luns_no_vdev [OF None, of t b] show ?thesis by simp
next
  case (Some u)
  let ?u = "if c' = c then u\<lparr>scsi_dev_state := (scsi_dev_state u)[i := x]\<rparr> else u"
  have f: "spdk_vhost_dev_find (set_target c i x s) c' = Some ?u"
    using Some by (simp add: find_vdev_set_target)
  have len: "length (scsi_dev_state u) = 8" using find_vdev(3) [OF assms(1) Some] .
  have slot: "scsi_dev_state ?u ! j = (if c' = c \<and> j = i then x else scsi_dev_state u ! j)" if "j < 8" for j
    using that len by (simp add: nth_list_update)
  have "(c', t, b) \<in> set (luns (set_target c i x s)) \<longleftrightarrow> (\<exists>j < 8. t = word_of_nat j \<and> scsi_dev_state ?u ! j = Some b)"
    by (rule luns_of_vdev [OF vdevs_ok_set_target [OF assms(1)] f])
  also have "\<dots> \<longleftrightarrow> (\<exists>j < 8. t = word_of_nat j \<and> (if c' = c \<and> j = i then x else scsi_dev_state u ! j) = Some b)"
    by (rule ex_cong1, rule conj_cong, rule refl, simp only: slot)
  finally show ?thesis unfolding slot_update [OF assms(3)] luns_of_vdev [OF assms(1) Some] .
qed

lemma spdk_inv_set_target:
  assumes "spdk_inv s" and "\<And>b. x = Some b \<Longrightarrow> b \<in> disk_name ` set (disks s)"
  shows "spdk_inv (set_target c i x s)"
proof -
  have same: "disks (set_target c i x s) = disks s" "nbds (set_target c i x s) = nbds s"
    by (simp_all add: set_target_def)
  have "vdevs_ok (set_target c i x s)" using assms(1) spdk_inv_vdevs_ok vdevs_ok_set_target by blast
  moreover have "b \<in> disk_name ` set (disks s)"
    if "v \<in> set (vdevs (set_target c i x s))" "Some b \<in> set (scsi_dev_state v)" for v b
  proof -
    from that(1) obtain u where u: "u \<in> set (vdevs s)" and
      v: "v = u \<or> v = u\<lparr>scsi_dev_state := (scsi_dev_state u)[i := x]\<rparr>"
      by (auto simp: set_target_def split: if_splits)
    with that(2) have "Some b \<in> set (scsi_dev_state u) \<or> x = Some b"
      using set_update_subset_insert [of "scsi_dev_state u" i x] by auto
    with assms u show ?thesis by (auto simp: spdk_inv_def)
  qed
  ultimately show ?thesis
    using assms(1) by (auto simp: spdk_inv_def same vdevs_ok_def SPDK_VHOST_SCSI_CTRLR_MAX_DEVS_def)
qed

lemma bdevs_set_target [simp]: "bdevs (set_target c i x s) = bdevs s"
  by (simp add: fun_eq_iff bdevs_def spdk_bdev_get_by_name_def set_target_def)

lemma vhosts_set_target [simp]: "vhosts (set_target c i x s) = vhosts s"
proof -
  have eq: "(\<lambda>v. vdev_name (if vdev_name v = c then v\<lparr>scsi_dev_state := (scsi_dev_state v)[i := x]\<rparr> else v)) = vdev_name"
    by (rule ext) simp
  have vs: "vdevs (set_target c i x s) =
      map (\<lambda>v. if vdev_name v = c then v\<lparr>scsi_dev_state := (scsi_dev_state v)[i := x]\<rparr> else v) (vdevs s)"
    by (simp add: set_target_def)
  show ?thesis unfolding vhosts_def vs set_map image_image eq ..
qed

definition occupied :: "spdk \<Rightarrow> string \<Rightarrow> uint32 \<Rightarrow> bool" where
  "occupied s c t \<longleftrightarrow> (\<exists>b. (c, t, b) \<in> set (luns s))"

lemma occupied_iff:
  assumes "vdevs_ok s" and "spdk_vhost_dev_find s c = Some v" and "unat t < 8"
  shows "occupied s c t \<longleftrightarrow> scsi_dev_state v ! unat t \<noteq> None"
proof -
  have "(c, t, b) \<in> set (luns s) \<longleftrightarrow> scsi_dev_state v ! unat t = Some b" for b
    using slot_luns [OF assms, of b] by simp
  then show ?thesis by (auto simp: occupied_def)
qed

lemma AddVHostSCSILUN_daemon:
  assumes "client_ok cl" and "spdk_inv s"
  shows "\<exists>cl' s' r. client_ok cl' \<and> spdk_inv s' \<and> AddVHostSCSILUN (spdk_daemon env) c t name (cl, s) = (r, cl', s')
    \<and> bdevs s' = bdevs s \<and> vhosts s' = vhosts s \<and>
    (if c \<in> vhosts s \<and> unat t < 8 \<and> \<not> occupied s c t \<and> bdevs s name \<noteq> None
     then r = Inr () \<and> set (luns s') = insert (c, t, name) (set (luns s))
     else (\<exists>m. r = Inl (rpc_error (- 32602) m)) \<and> s' = s)"
  (is "\<exists>cl' s' r. _ \<and> _ \<and> _ \<and> _ \<and> _ \<and> (if ?good then _ else _)")
proof -
  let ?ps = "Some (JObj [(''ctrlr'', JStr c), (''scsi_target_num'', JNum (uint t)), (''bdev_name'', JStr name)])"
  note ok = spdk_inv_vdevs_ok [OF assms(2)]
  have t: "0 \<le> uint t" "nat (uint t) = unat t" by simp_all
  have known: "bdevs s name \<noteq> None \<longleftrightarrow> spdk_bdev_get_by_name s name \<noteq> None" by (simp add: bdevs_def)
  show ?thesis
  proof (cases ?good)
    case True
    then obtain v where v: "spdk_vhost_dev_find s c = Some v" using find_vdev_None [of s c] by auto
    from True have free: "scsi_dev_state v ! unat t = None" using occupied_iff [OF ok v] by blast
    have small: "uint t < 2147483648" "- 2147483648 \<le> uint t" using True t by linarith+
    obtain d where d: "spdk_bdev_get_by_name s name = Some d" using True known by auto
    have d1: "spdk_daemon env ''add_vhost_scsi_lun'' ?ps s =
        (Inr (JNum (int (unat t))), set_target c (unat t) (Some name) s)"
      using True free small d
      by (simp add: spdk_daemon_def rpc_add_vhost_scsi_lun_def json_decode_object_def is_str_def v
          spdk_vhost_scsi_dev_add_tgt_def SPDK_VHOST_SCSI_CTRLR_MAX_DEVS_def)
    have "set (luns (set_target c (unat t) (Some name) s)) = insert (c, t, name) (set (luns s))"
    proof (rule set_eqI)
      fix x :: lun
      obtain c' t' b where x: "x = (c', t', b)" by (cases x)
      show "x \<in> set (luns (set_target c (unat t) (Some name) s)) \<longleftrightarrow> x \<in> insert (c, t, name) (set (luns s))"
        using luns_set_target [OF ok v, of "unat t" c' t' b "Some name"] True unfolding x occupied_def by auto
    qed
    moreover have "spdk_inv (set_target c (unat t) (Some name) s)"
      using True by (intro spdk_inv_set_target [OF assms(2)]) (auto simp: bdevs_None)
    moreover obtain cl' where "client_ok cl'"
      "AddVHostSCSILUN (spdk_daemon env) c t name (cl, s) = (Inr (), cl', set_target c (unat t) (Some name) s)"
      using call_unit_ok [OF assms(1) d1] by (auto simp: AddVHostSCSILUN_def)
    ultimately show ?thesis using True
      by (intro exI [of _ cl'] exI [of _ "set_target c (unat t) (Some name) s"] exI [of _ "Inr ()"]) simp
  next
    case False
    have "\<exists>m. spdk_daemon env ''add_vhost_scsi_lun'' ?ps s = (Inl (- 32602, m), s)"
    proof (cases "spdk_vhost_dev_find s c")
      case None
      then show ?thesis
        by (simp add: spdk_daemon_def rpc_add_vhost_scsi_lun_def invalid_params_def json_decode_object_def is_str_def)
    next
      case (Some v)
      then have "c \<in> vhosts s" using find_vdev_None [of s c] by auto
      with False have "8 \<le> unat t \<or> scsi_dev_state v ! unat t \<noteq> None \<or> spdk_bdev_get_by_name s name = None"
        using occupied_iff [OF ok Some] known by (meson not_le)
      then show ?thesis
        by (auto simp: spdk_daemon_def rpc_add_vhost_scsi_lun_def invalid_params_def json_decode_object_def
            is_str_def Some spdk_vhost_scsi_dev_add_tgt_def SPDK_VHOST_SCSI_CTRLR_MAX_DEVS_def Let_def)
    qed
    then obtain m where d1: "spdk_daemon env ''add_vhost_scsi_lun'' ?ps s = (Inl (- 32602, m), s)" by blast
    obtain cl' where "client_ok cl'"
      "AddVHostSCSILUN (spdk_daemon env) c t name (cl, s) = (Inl (rpc_error (- 32602) m), cl', s)"
      using call_unit_error [OF assms(1) d1] by (auto simp: AddVHostSCSILUN_def)
    with False assms(2) show ?thesis
      by (intro exI [of _ cl'] exI [of _ s] exI [of _ "Inl (rpc_error (- 32602) m)"]) auto
  qed
qed

lemma RemoveVHostSCSITarget_daemon:
  assumes "client_ok cl" and "spdk_inv s"
  shows "\<exists>cl' s' r. client_ok cl' \<and> spdk_inv s' \<and> RemoveVHostSCSITarget (spdk_daemon env) c t (cl, s) = (r, cl', s')
    \<and> bdevs s' = bdevs s \<and> vhosts s' = vhosts s \<and>
    (if occupied s c t then r = Inr () \<and> set (luns s') = {(c', t', b) \<in> set (luns s). \<not> (c' = c \<and> t' = t)}
     else (\<exists>m. r = Inl (rpc_error (- 32602) m)) \<and> s' = s)"
proof -
  let ?ps = "Some (JObj [(''ctrlr'', JStr c), (''scsi_target_num'', JNum (uint t))])"
  note ok = spdk_inv_vdevs_ok [OF assms(2)]
  have t: "0 \<le> uint t" "nat (uint t) = unat t" "uint t < 4294967296"
    using uint_lt2p [of t] by simp_all
  show ?thesis
  proof (cases "occupied s c t")
    case True
    then obtain v where v: "spdk_vhost_dev_find s c = Some v"
      using luns_no_vdev [of s c] by (cases "spdk_vhost_dev_find s c") (auto simp: occupied_def)
    have t8: "unat t < 8"
      using True unfolding occupied_def luns_of_vdev [OF ok v] by (auto simp: unat_of_nat)
    have used: "scsi_dev_state v ! unat t \<noteq> None" using True occupied_iff [OF ok v t8] by blast
    then obtain b where b: "scsi_dev_state v ! unat t = Some b" by blast
    have d1: "spdk_daemon env ''remove_vhost_scsi_target'' ?ps s = (Inr (JBool True), set_target c (unat t) None s)"
      using t t8 b by (simp add: spdk_daemon_def rpc_remove_vhost_scsi_target_def json_decode_object_def is_str_def v
          SPDK_VHOST_SCSI_CTRLR_MAX_DEVS_def)
    have "set (luns (set_target c (unat t) None s)) = {(c', t', b) \<in> set (luns s). \<not> (c' = c \<and> t' = t)}"
    proof (rule set_eqI)
      fix x :: lun
      obtain c' t' b where x: "x = (c', t', b)" by (cases x)
      show "x \<in> set (luns (set_target c (unat t) None s)) \<longleftrightarrow> x \<in> {(c', t', b) \<in> set (luns s). \<not> (c' = c \<and> t' = t)}"
        using luns_set_target [OF ok v t8, of c' t' b None] unfolding x by auto
    qed
    moreover have "spdk_inv (set_target c (unat t) None s)"
      by (intro spdk_inv_set_target [OF assms(2)]) simp
    moreover obtain cl' where "client_ok cl'"
      "RemoveVHostSCSITarget (spdk_daemon env) c t (cl, s) = (Inr (), cl', set_target c (unat t) None s)"
      using call_unit_ok [OF assms(1) d1] by (auto simp: RemoveVHostSCSITarget_def)
    ultimately show ?thesis using True
      by (intro exI [of _ cl'] exI [of _ "set_target c (unat t) None s"] exI [of _ "Inr ()"]) simp
  next
    case False
    have "\<exists>m. spdk_daemon env ''remove_vhost_scsi_target'' ?ps s = (Inl (- 32602, m), s)"
    proof (cases "spdk_vhost_dev_find s c")
      case None
      with t show ?thesis
        by (simp add: spdk_daemon_def rpc_remove_vhost_scsi_target_def invalid_params_def json_decode_object_def is_str_def)
    next
      case (Some v)
      from False have "8 \<le> unat t \<or> scsi_dev_state v ! unat t = None"
        using occupied_iff [OF ok Some] by (meson not_le)
      with t show ?thesis
        by (auto simp: spdk_daemon_def rpc_remove_vhost_scsi_target_def invalid_params_def json_decode_object_def
            is_str_def Some SPDK_VHOST_SCSI_CTRLR_MAX_DEVS_def Let_def)
    qed
    then obtain m where d1: "spdk_daemon env ''remove_vhost_scsi_target'' ?ps s = (Inl (- 32602, m), s)" by blast
    obtain cl' where "client_ok cl'"
      "RemoveVHostSCSITarget (spdk_daemon env) c t (cl, s) = (Inl (rpc_error (- 32602) m), cl', s)"
      using call_unit_error [OF assms(1) d1] by (auto simp: RemoveVHostSCSITarget_def)
    with False assms(2) show ?thesis
      by (intro exI [of _ cl'] exI [of _ s] exI [of _ "Inl (rpc_error (- 32602) m)"]) auto
  qed
qed

lemma luns_facts:
  assumes "spdk_inv s" and "(c, t, b) \<in> set (luns s)"
  shows "bdevs s b \<noteq> None" and "unat t < 8" and "(c, t, b') \<in> set (luns s) \<Longrightarrow> b' = b"
proof -
  note ok = spdk_inv_vdevs_ok [OF assms(1)]
  obtain v where v: "spdk_vhost_dev_find s c = Some v"
    using luns_no_vdev [of s c] assms(2) by (cases "spdk_vhost_dev_find s c") auto
  from assms(2) obtain j where j: "j < 8" "t = word_of_nat j" "scsi_dev_state v ! j = Some b"
    unfolding luns_of_vdev [OF ok v] by blast
  then show "unat t < 8" by (simp add: unat_of_nat)
  have "Some b \<in> set (scsi_dev_state v)"
    using j find_vdev(3) [OF ok v] by (metis nth_mem)
  with find_vdev(1) [OF ok v] assms(1) show "bdevs s b \<noteq> None"
    by (auto simp: bdevs_None spdk_inv_def)
  show "b' = b" if "(c, t, b') \<in> set (luns s)"
    using that j unfolding j(2) slot_luns [OF ok v j(1)] by simp
qed

lemma slots_distinct:
  "n + length ts \<le> 8 \<Longrightarrow>
   distinct (concat (map (\<lambda>(i, t). case t of None \<Rightarrow> [] | Some b \<Rightarrow> [(c, word_of_nat i :: uint32, b)]) (enumerate n ts)))"
proof (induction ts arbitrary: n)
  case (Cons x ts)
  let ?f = "\<lambda>(i, t). case t of None \<Rightarrow> [] | Some b \<Rightarrow> [(c, word_of_nat i :: uint32, b)]"
  have "(c, word_of_nat n, b) \<notin> set (concat (map ?f (enumerate (Suc n) ts)))" for b
  proof
    assume "(c, word_of_nat n, b) \<in> set (concat (map ?f (enumerate (Suc n) ts)))"
    then obtain i where "Suc n \<le> i" "i < Suc n + length ts" "(word_of_nat n :: uint32) = word_of_nat i"
      by (auto simp: in_set_enumerate_eq split: option.splits)
    with Cons.prems small_word_inj [of n i] show False by simp
  qed
  with Cons show ?case by (auto split: option.split)
qed simp

lemma luns_distinct:
  assumes "spdk_inv s"
  shows "distinct (luns s)"
proof -
  have "distinct (concat (map vdev_luns vs))"
    if "distinct (map vdev_name vs)" "\<forall>v \<in> set vs. length (scsi_dev_state v) = 8" for vs
    using that
  proof (induction vs)
    case (Cons v vs)
    have "distinct (vdev_luns v)"
      using slots_distinct [of 0 "scsi_dev_state v" "vdev_name v"] Cons.prems(2) by (simp add: vdev_luns_def)
    moreover have "set (vdev_luns v) \<inter> set (concat (map vdev_luns vs)) = {}"
      using Cons.prems(1) by (auto simp: vdev_luns_iff)
    ultimately show ?case using Cons by simp
  qed simp
  with spdk_inv_vdevs_ok [OF assms] show ?thesis by (simp add: luns_def vdevs_ok_def)
qed

section \<open>The contract of the service\<close>

text \<open>
  What the clients of the daemon rely on, in terms of what they observe: the block devices by
  name, the LUNs of the vhost controllers and the names of the controllers. \<open>can_alloc\<close> and
  \<open>can_rbd\<close> say which devices the environment is able to create.
\<close>

locale spdk_service =
  fixes daemon :: "'s daemon"
    and ok :: "'s \<Rightarrow> bool"
    and bd :: "'s \<Rightarrow> (string \<rightharpoonup> BDev)"
    and lun_list :: "'s \<Rightarrow> lun list"
    and vhost :: "'s \<Rightarrow> string set"
    and can_alloc :: "int \<Rightarrow> bool"
    and can_rbd :: "ConstructRBDBDevArgs \<Rightarrow> bool"
  assumes lun_bdev: "ok s \<Longrightarrow> (c, t, b) \<in> set (lun_list s) \<Longrightarrow> bd s b \<noteq> None"
    and lun_unique: "ok s \<Longrightarrow> (c, t, b) \<in> set (lun_list s) \<Longrightarrow> (c, t, b') \<in> set (lun_list s) \<Longrightarrow> b = b'"
    and lun_range: "ok s \<Longrightarrow> (c, t, b) \<in> set (lun_list s) \<Longrightarrow> unat t < 8"
    and lun_distinct: "ok s \<Longrightarrow> distinct (lun_list s)"
    and bd_name: "ok s \<Longrightarrow> bd s n = Some d \<Longrightarrow> bdev_Name d = n"
    and GetBDevs_law: "ok s \<Longrightarrow> client_ok cl \<Longrightarrow> n \<noteq> [] \<Longrightarrow> \<exists>cl'. client_ok cl' \<and>
      GetBDevs daemon n (cl, s) = ((case bd s n of None \<Rightarrow> Inl not_found | Some b \<Rightarrow> Inr [b]), cl', s)"
    and DeleteBDev_law: "ok s \<Longrightarrow> client_ok cl \<Longrightarrow> \<exists>cl' s'. client_ok cl' \<and> ok s' \<and>
      DeleteBDev daemon n (cl, s) = ((if bd s n = None then Inl not_found else Inr ()), cl', s')
      \<and> bd s' = (bd s)(n := None) \<and> lun_list s' = filter (\<lambda>(c, t, b). b \<noteq> n) (lun_list s) \<and> vhost s' = vhost s"
    and Malloc_law: "ok s \<Longrightarrow> client_ok cl \<Longrightarrow> cm_Name a \<noteq> [] \<Longrightarrow> cm_UUID a = [] \<Longrightarrow>
      is_int64 (cm_NumBlocks a) \<Longrightarrow> cm_BlockSize a = 512 \<Longrightarrow> \<exists>cl' s' r. client_ok cl' \<and> ok s' \<and>
      ConstructMallocBDev daemon a (cl, s) = (r, cl', s') \<and> lun_list s' = lun_list s \<and> vhost s' = vhost s \<and>
      (if 0 < cm_NumBlocks a \<and> bd s (cm_Name a) = None \<and> can_alloc (cm_NumBlocks a)
       then r = Inr (cm_Name a) \<and> bd s (cm_Name a) = None
            \<and> (\<exists>b. (ProductName b = ''Malloc disk'' \<and> BlockSize b = 512 \<and> NumBlocks b = cm_NumBlocks a)
                  \<and> bd s' = (bd s)(cm_Name a \<mapsto> b))
       else r = Inl not_found \<and> s' = s)"
    and RBD_law: "ok s \<Longrightarrow> client_ok cl \<Longrightarrow> rbd_Name q \<noteq> [] \<Longrightarrow> rbd_BlockSize q = 512 \<Longrightarrow> Config q \<noteq> [] \<Longrightarrow>
      \<exists>cl' s' r. client_ok cl' \<and> ok s' \<and>
      ConstructRBDBDev daemon q (cl, s) = (r, cl', s') \<and> lun_list s' = lun_list s \<and> vhost s' = vhost s \<and>
      (if bd s (rbd_Name q) = None \<and> can_rbd q
       then r = Inr (rbd_Name q) \<and> bd s (rbd_Name q) = None
            \<and> (\<exists>b. ProductName b = ''Ceph Rbd Disk'' \<and> bd s' = (bd s)(rbd_Name q \<mapsto> b))
       else r = Inl not_found \<and> s' = s)"
    and Controllers_law: "ok s \<Longrightarrow> client_ok cl \<Longrightarrow> \<exists>cl' cs. client_ok cl' \<and>
      GetVHostControllers daemon (cl, s) = (Inr cs, cl', s) \<and> controller_luns cs = lun_list s"
    and Add_law: "ok s \<Longrightarrow> client_ok cl \<Longrightarrow> \<exists>cl' s' r. client_ok cl' \<and> ok s' \<and>
      AddVHostSCSILUN daemon c t n (cl, s) = (r, cl', s') \<and> bd s' = bd s \<and> vhost s' = vhost s \<and>
      (if c \<in> vhost s \<and> unat t < 8 \<and> \<not> (\<exists>b. (c, t, b) \<in> set (lun_list s)) \<and> bd s n \<noteq> None
       then r = Inr () \<and> set (lun_list s') = insert (c, t, n) (set (lun_list s))
       else (\<exists>m. r = Inl (rpc_error (- 32602) m)) \<and> s' = s)"
    and Remove_law: "ok s \<Longrightarrow> client_ok cl \<Longrightarrow> \<exists>cl' s' r. client_ok cl' \<and> ok s' \<and>
      RemoveVHostSCSITarget daemon c t (cl, s) = (r, cl', s') \<and> bd s' = bd s \<and> vhost s' = vhost s \<and>
      (if \<exists>b. (c, t, b) \<in> set (lun_list s)
       then r = Inr () \<and> set (lun_list s') = {(c', t', b) \<in> set (lun_list s). \<not> (c' = c \<and> t' = t)}
       else (\<exists>m. r = Inl (rpc_error (- 32602) m)) \<and> s' = s)"

text \<open>The daemon provides the service, in any environment whose image sizes fit a signed 64-bit number.\<close>

definition daemon_ok :: "environment \<Rightarrow> spdk \<Rightarrow> bool" where
  "daemon_ok env s \<longleftrightarrow> spdk_inv s \<and> env_ok env"

definition env_can_rbd :: "environment \<Rightarrow> ConstructRBDBDevArgs \<Rightarrow> bool" where
  "env_can_rbd env q \<longleftrightarrow> env_rbd env (UserID q) (PoolName q) (RBDName q) (rbd_config q) \<noteq> None"

interpretation svc: spdk_service "spdk_daemon env" "daemon_ok env" bdevs luns vhosts
  "\<lambda>n. env_alloc env (nat n * 512)" "env_can_rbd env" for env
proof unfold_locales
  fix s cl n c t b b' d a q
  assume ok: "daemon_ok env s"
  then have inv: "spdk_inv s" and env: "env_ok env" by (simp_all add: daemon_ok_def)
  show "bdevs s b \<noteq> None" "unat t < 8" if "(c, t, b) \<in> set (luns s)"
    using luns_facts [OF inv that] by simp_all
  show "b = b'" if "(c, t, b) \<in> set (luns s)" "(c, t, b') \<in> set (luns s)"
    using luns_facts(3) [OF inv] that by blast
  show "distinct (luns s)" by (rule luns_distinct [OF inv])
  show "bdev_Name d = n" if "bdevs s n = Some d"
    using that find_disk by (auto simp: bdevs_def bdev_view_def)
  assume cl: "client_ok cl"
  show "\<exists>cl'. client_ok cl' \<and> GetBDevs (spdk_daemon env) n (cl, s) =
      ((case bdevs s n of None \<Rightarrow> Inl not_found | Some b \<Rightarrow> Inr [b]), cl', s)" if "n \<noteq> []"
    by (rule GetBDevs_daemon [OF cl inv that])
  show "\<exists>cl' s'. client_ok cl' \<and> daemon_ok env s' \<and>
      DeleteBDev (spdk_daemon env) n (cl, s) = ((if bdevs s n = None then Inl not_found else Inr ()), cl', s')
      \<and> bdevs s' = (bdevs s)(n := None) \<and> luns s' = filter (\<lambda>(c, t, b). b \<noteq> n) (luns s) \<and> vhosts s' = vhosts s"
    using DeleteBDev_daemon [OF cl inv, of env n] env unfolding daemon_ok_def by blast
  show "\<exists>cl' s' r. client_ok cl' \<and> daemon_ok env s' \<and>
      ConstructMallocBDev (spdk_daemon env) a (cl, s) = (r, cl', s') \<and> luns s' = luns s \<and> vhosts s' = vhosts s \<and>
      (if 0 < cm_NumBlocks a \<and> bdevs s (cm_Name a) = None \<and> env_alloc env (nat (cm_NumBlocks a) * 512)
       then r = Inr (cm_Name a) \<and> bdevs s (cm_Name a) = None
            \<and> (\<exists>b. (ProductName b = ''Malloc disk'' \<and> BlockSize b = 512 \<and> NumBlocks b = cm_NumBlocks a)
                  \<and> bdevs s' = (bdevs s)(cm_Name a \<mapsto> b))
       else r = Inl not_found \<and> s' = s)"
    if "cm_Name a \<noteq> []" "cm_UUID a = []" "is_int64 (cm_NumBlocks a)" "cm_BlockSize a = 512"
    using ConstructMallocBDev_daemon [OF cl inv that, of env] env unfolding daemon_ok_def created_def
    by blast
  show "\<exists>cl' s' r. client_ok cl' \<and> daemon_ok env s' \<and>
      ConstructRBDBDev (spdk_daemon env) q (cl, s) = (r, cl', s') \<and> luns s' = luns s \<and> vhosts s' = vhosts s \<and>
      (if bdevs s (rbd_Name q) = None \<and> env_can_rbd env q
       then r = Inr (rbd_Name q) \<and> bdevs s (rbd_Name q) = None
            \<and> (\<exists>b. ProductName b = ''Ceph Rbd Disk'' \<and> bdevs s' = (bdevs s)(rbd_Name q \<mapsto> b))
       else r = Inl not_found \<and> s' = s)"
    if "rbd_Name q \<noteq> []" "rbd_BlockSize q = 512" "Config q \<noteq> []"
    using ConstructRBDBDev_daemon [OF cl inv env that] env unfolding daemon_ok_def created_def env_can_rbd_def
    by blast
  show "\<exists>cl' cs. client_ok cl' \<and> GetVHostControllers (spdk_daemon env) (cl, s) = (Inr cs, cl', s)
      \<and> controller_luns cs = luns s"
    by (rule GetVHostControllers_daemon [OF cl])
  show "\<exists>cl' s' r. client_ok cl' \<and> daemon_ok env s' \<and> AddVHostSCSILUN (spdk_daemon env) c t n (cl, s) = (r, cl', s')
      \<and> bdevs s' = bdevs s \<and> vhosts s' = vhosts s \<and>
      (if c \<in> vhosts s \<and> unat t < 8 \<and> \<not> (\<exists>b. (c, t, b) \<in> set (luns s)) \<and> bdevs s n \<noteq> None
       then r = Inr () \<and> set (luns s') = insert (c, t, n) (set (luns s))
       else (\<exists>m. r = Inl (rpc_error (- 32602) m)) \<and> s' = s)"
    using AddVHostSCSILUN_daemon [OF cl inv, of env c t n] env unfolding daemon_ok_def occupied_def
    by blast
  show "\<exists>cl' s' r. client_ok cl' \<and> daemon_ok env s' \<and> RemoveVHostSCSITarget (spdk_daemon env) c t (cl, s) = (r, cl', s')
      \<and> bdevs s' = bdevs s \<and> vhosts s' = vhosts s \<and>
      (if \<exists>b. (c, t, b) \<in> set (luns s)
       then r = Inr () \<and> set (luns s') = {(c', t', b) \<in> set (luns s). \<not> (c' = c \<and> t' = t)}
       else (\<exists>m. r = Inl (rpc_error (- 32602) m)) \<and> s' = s)"
    using RemoveVHostSCSITarget_daemon [OF cl inv, of env c t] env unfolding daemon_ok_def occupied_def
    by blast
qed

end
