(* ===== verification/Pci_Address.thy ===== *)
theory Pci_Address
  imports Go_Strconv Go_Regexp
begin

text \<open>
  PCI addresses in extended BDF notation (\<^verbatim>\<open>pkg/oim-common/pci.go\<close>): parsing, merging with
  defaults and printing. An unknown field has the value 0xFFFF and is left empty in the text.
\<close>

section \<open>Definitions\<close>

record PCIAddress =
  Domain :: uint32
  Bus :: uint32
  Device :: uint32
  Function :: uint32

definition octal :: "char \<Rightarrow> bool" where
  "octal c = (48 \<le> (of_char c :: nat) \<and> (of_char c :: nat) \<le> 55)"

definition bdfRe :: rx where
  "bdfRe = rx_cat [Bol, Cls re_space 0 None,
     Opt (Cat (Grp 1 (Cls is_hex_digit 0 (Some 4))) (Lit '':'')),
     Grp 2 (Cls is_hex_digit 0 (Some 2)), Lit '':'',
     Grp 3 (Cls is_hex_digit 0 (Some 2)), Lit ''.'',
     Grp 4 (Cls octal 0 (Some 1)), Cls re_space 0 None, Eol]"

definition HexToU32 :: "string \<Rightarrow> uint32 outcome" where
  "HexToU32 hex = (if hex = [] then Ret 0xFFFF
     else case parse_uint16_hex hex of
            None \<Rightarrow> Panic
          | Some value \<Rightarrow> Ret (word_of_nat value))"

definition ParseBDFString :: "string \<Rightarrow> PCIAddress result outcome" where
  "ParseBDFString dev =
     (case FindStringSubmatch bdfRe 4 dev of
        None \<Rightarrow> Ret (Inl (Errorf ''%q not in BDF notation ([[domain]:][bus]:[dev].[function])'' [dev]))
      | Some parts \<Rightarrow>
          outcome_bind (HexToU32 (parts ! 1)) (\<lambda>domain.
          outcome_bind (HexToU32 (parts ! 2)) (\<lambda>bus.
          outcome_bind (HexToU32 (parts ! 3)) (\<lambda>device.
          outcome_bind (HexToU32 (parts ! 4)) (\<lambda>function.
          Ret (Inr \<lparr>Domain = domain, Bus = bus, Device = device, Function = function\<rparr>))))))"

definition CompletePCIAddress :: "PCIAddress \<Rightarrow> PCIAddress \<Rightarrow> PCIAddress" where
  "CompletePCIAddress addr def =
    (let addr = (if Domain addr = 0xFFFF then addr\<lparr>Domain := Domain def\<rparr> else addr);
         addr = (if Bus addr = 0xFFFF then addr\<lparr>Bus := Bus def\<rparr> else addr);
         addr = (if Device addr = 0xFFFF then addr\<lparr>Device := Device def\<rparr> else addr);
         addr = (if Function addr = 0xFFFF then addr\<lparr>Function := Function def\<rparr> else addr)
     in addr)"

definition PrettyPCIAddress :: "PCIAddress option \<Rightarrow> string" where
  "PrettyPCIAddress q = (case q of None \<Rightarrow> '':.''
     | Some p \<Rightarrow>
        (let result = [];
             result = (if Domain p \<noteq> 0xFFFF then result @ fmt_x 4 (unat (Domain p)) @ '':'' else result);
             result = (if Bus p \<noteq> 0xFFFF then result @ fmt_x 2 (unat (Bus p)) @ '':'' else result @ '':'');
             result = (if Device p \<noteq> 0xFFFF then result @ fmt_x 2 (unat (Device p)) @ ''.'' else result @ ''.'');
             result = (if Function p \<noteq> 0xFFFF then result @ fmt_x 0 (unat (Function p)) else result)
         in result))"

text \<open>The ranges of the fields that the notation can express.\<close>

definition pci_field :: "nat \<Rightarrow> uint32 \<Rightarrow> bool" where
  "pci_field bound x \<longleftrightarrow> x = 0xFFFF \<or> unat x < bound"

definition valid_pci :: "PCIAddress \<Rightarrow> bool" where
  "valid_pci a \<longleftrightarrow> pci_field 0x10000 (Domain a) \<and> pci_field 0x100 (Bus a)
     \<and> pci_field 0x100 (Device a) \<and> pci_field 8 (Function a)"

section \<open>What the pattern accepts\<close>

text \<open>
  The grammar of the notation: blanks, an optional domain with its colon, bus, device and
  function, blanks.
\<close>

definition bdf_text :: "string \<Rightarrow> string option \<Rightarrow> string \<Rightarrow> string \<Rightarrow> string \<Rightarrow> string \<Rightarrow> string" where
  "bdf_text ws d b v f ws' =
     ws @ (case d of None \<Rightarrow> [] | Some d \<Rightarrow> d @ '':'') @ b @ '':'' @ v @ ''.'' @ f @ ws'"

definition bdf_ok :: "string \<Rightarrow> string option \<Rightarrow> string \<Rightarrow> string \<Rightarrow> string \<Rightarrow> string \<Rightarrow> bool" where
  "bdf_ok ws d b v f ws' \<longleftrightarrow> list_all re_space ws \<and> list_all re_space ws'
     \<and> (case d of None \<Rightarrow> True | Some d \<Rightarrow> list_all is_hex_digit d \<and> length d \<le> 4)
     \<and> list_all is_hex_digit b \<and> length b \<le> 2
     \<and> list_all is_hex_digit v \<and> length v \<le> 2 \<and> list_all octal f \<and> length f \<le> 1"

definition bdf_groups :: "string option \<Rightarrow> string \<Rightarrow> string \<Rightarrow> string \<Rightarrow> (nat \<times> string) list" where
  "bdf_groups d b v f = [(4, f), (3, v), (2, b)] @ (case d of None \<Rightarrow> [] | Some d \<Rightarrow> [(1, d)])"

definition bdf_rest :: "rx list" where
  "bdf_rest = [Grp 2 (Cls is_hex_digit 0 (Some 2)), Lit '':'',
     Grp 3 (Cls is_hex_digit 0 (Some 2)), Lit ''.'',
     Grp 4 (Cls octal 0 (Some 1)), Cls re_space 0 None]"

definition bdf_tail :: rx where
  "bdf_tail = rx_cat ([Cls re_space 0 None]
     @ Opt (Cat (Grp 1 (Cls is_hex_digit 0 (Some 4))) (Lit '':'')) # (bdf_rest @ [Eol]))"

lemma bdfRe_tail: "bdfRe = Cat Bol bdf_tail"
  by (simp add: bdfRe_def bdf_tail_def bdf_rest_def)

definition bdf_pieces :: "string \<Rightarrow> string option \<Rightarrow> string \<Rightarrow> string \<Rightarrow> string \<Rightarrow> string \<Rightarrow> string list" where
  "bdf_pieces ws d b v f ws' =
     ws # (case d of None \<Rightarrow> [] | Some d \<Rightarrow> [d, '':'']) @ [b, '':'', v, ''.'', f, ws']"

definition bdf_rxs :: "bool \<Rightarrow> rx list" where
  "bdf_rxs has = [Cls re_space 0 None]
     @ (if has then [Grp 1 (Cls is_hex_digit 0 (Some 4)), Lit '':''] else []) @ bdf_rest"

lemma bdf_rxs_ok:
  "bdf_ok ws d b v f ws' \<Longrightarrow> list_all2 piece_ok (bdf_rxs (d \<noteq> None)) (bdf_pieces ws d b v f ws')"
  by (cases d) (simp_all add: bdf_rxs_def bdf_rest_def bdf_pieces_def bdf_ok_def)

lemma bdf_rxs_okE:
  assumes "list_all2 piece_ok (bdf_rxs has) ts"
  obtains ws d b v f ws' where "ts = bdf_pieces ws d b v f ws'" and "bdf_ok ws d b v f ws'"
    and "has \<longleftrightarrow> d \<noteq> None"
proof (cases has)
  case True
  with assms obtain ws d b v f ws' where
    "ts = bdf_pieces ws (Some d) b v f ws'" "bdf_ok ws (Some d) b v f ws'"
    by (auto simp: bdf_rxs_def bdf_rest_def list_all2_Cons1 bdf_pieces_def bdf_ok_def)
  with True show ?thesis by (intro that) auto
next
  case False
  with assms obtain ws b v f ws' where
    "ts = bdf_pieces ws None b v f ws'" "bdf_ok ws None b v f ws'"
    by (auto simp: bdf_rxs_def bdf_rest_def list_all2_Cons1 bdf_pieces_def bdf_ok_def)
  with False show ?thesis by (intro that) auto
qed

lemma bdf_pieces_simps [simp]:
  "concat (bdf_pieces ws d b v f ws') = bdf_text ws d b v f ws'"
  "pieces_caps (bdf_rxs (d \<noteq> None)) (bdf_pieces ws d b v f ws') [] = bdf_groups d b v f"
  by (cases d; simp add: bdf_pieces_def bdf_text_def bdf_rxs_def bdf_rest_def bdf_groups_def)+

lemma bdf_match_iff:
  "x \<in> set (rx_match bdf_tail (0, s, [])) \<longleftrightarrow>
     (\<exists>ws d b v f ws'. s = bdf_text ws d b v f ws' \<and> bdf_ok ws d b v f ws'
        \<and> x = (length s, [], bdf_groups d b v f))"
  (is "?L \<longleftrightarrow> ?R")
proof -
  have "?L \<longleftrightarrow> (\<exists>has. x \<in> set (rx_match (rx_cat (bdf_rxs has @ [Eol])) (0, s, [])))"
    unfolding bdf_tail_def rx_match_Opt_in rx_match_Cat_in ex_bool_eq
    by (simp add: bdf_rxs_def)
  also have "\<dots> \<longleftrightarrow> (\<exists>has ts. list_all2 piece_ok (bdf_rxs has) ts \<and> s = concat ts
      \<and> x = (length s, [], pieces_caps (bdf_rxs has) ts []))"
    by (subst rx_match_pieces_Eol) (simp_all add: bdf_rxs_def bdf_rest_def)
  also have "\<dots> \<longleftrightarrow> ?R"
  proof
    assume "\<exists>has ts. list_all2 piece_ok (bdf_rxs has) ts \<and> s = concat ts
      \<and> x = (length s, [], pieces_caps (bdf_rxs has) ts [])"
    then show ?R by (elim exE conjE bdf_rxs_okE) (simp del: not_None_eq, blast)
  next
    assume ?R
    then obtain ws d b v f ws' where r: "s = bdf_text ws d b v f ws'" "bdf_ok ws d b v f ws'"
      "x = (length s, [], bdf_groups d b v f)" by blast
    then show "\<exists>has ts. list_all2 piece_ok (bdf_rxs has) ts \<and> s = concat ts
      \<and> x = (length s, [], pieces_caps (bdf_rxs has) ts [])"
      by (intro exI [of _ "d \<noteq> None"] exI [of _ "bdf_pieces ws d b v f ws'"])
        (simp add: bdf_rxs_ok del: not_None_eq)
  qed
  finally show ?thesis .
qed

section \<open>The notation is unambiguous\<close>

lemma hex_digit_chars:
  "is_hex_digit c \<Longrightarrow> c \<noteq> CHR '':'' \<and> c \<noteq> CHR ''.'' \<and> \<not> re_space c"
  by (auto simp: is_hex_digit_def digit_val_def re_space_def Let_def split: if_splits)

lemma octal_hex: "octal c \<Longrightarrow> is_hex_digit c"
  by (simp add: octal_def is_hex_digit_def digit_val_def)

lemma filter_hex: "list_all is_hex_digit t \<Longrightarrow> filter (\<lambda>c. \<not> re_space c) t = t"
  using hex_digit_chars by (auto simp: list_all_iff filter_id_conv)

lemma filter_space: "list_all re_space t \<Longrightarrow> filter (\<lambda>c. \<not> re_space c) t = []"
  by (auto simp: list_all_iff filter_empty_conv)

lemma hex_no_sep:
  "list_all is_hex_digit t \<Longrightarrow> CHR '':'' \<notin> set t" "list_all is_hex_digit t \<Longrightarrow> CHR ''.'' \<notin> set t"
  using hex_digit_chars by (auto simp: list_all_iff)

lemma bdf_ok_hex:
  assumes "bdf_ok ws d b v f ws'"
  shows "list_all is_hex_digit (case d of None \<Rightarrow> [] | Some d \<Rightarrow> d)" and "list_all is_hex_digit b"
    and "list_all is_hex_digit v" and "list_all is_hex_digit f"
  using assms octal_hex by (auto simp: bdf_ok_def list_all_iff split: option.splits)

lemma bdf_text_strip:
  assumes "bdf_ok ws d b v f ws'"
  shows "filter (\<lambda>c. \<not> re_space c) (bdf_text ws d b v f ws') =
    strings_Join ((case d of None \<Rightarrow> [] | Some d \<Rightarrow> [d]) @ [b, v @ ''.'' @ f]) '':''"
proof -
  have "list_all re_space ws" "list_all re_space ws'" using assms by (simp_all add: bdf_ok_def)
  moreover have "\<not> re_space (CHR '':'')" "\<not> re_space (CHR ''.'')" by (simp_all add: re_space_def)
  ultimately show ?thesis
    using bdf_ok_hex [OF assms]
    by (cases d) (simp_all add: bdf_text_def filter_hex filter_space)
qed

lemma bdf_text_inj:
  assumes ok: "bdf_ok ws d b v f ws'" and ok2: "bdf_ok us d2 b2 v2 f2 us'"
    and eq: "bdf_text ws d b v f ws' = bdf_text us d2 b2 v2 f2 us'"
  shows "d = d2 \<and> b = b2 \<and> v = v2 \<and> f = f2"
proof -
  let ?F = "\<lambda>d b v f. (case d of None \<Rightarrow> [] | Some d \<Rightarrow> [d]) @ [b, v @ ''.'' @ f :: string]"
  have split: "strings_Split (strings_Join (?F d b v f) '':'') (CHR '':'') = ?F d b v f"
    if "bdf_ok ws d b v f ws'" for ws d b v f ws'
    by (rule Split_Join) (use bdf_ok_hex [OF that] hex_no_sep in \<open>auto split: option.splits\<close>)
  have dot: "strings_Split (strings_Join [v, f] ''.'') (CHR ''.'') = [v, f]"
    if "bdf_ok ws d b v f ws'" for ws d b v f ws'
    by (rule Split_Join) (use bdf_ok_hex [OF that] hex_no_sep in auto)
  have "strings_Join (?F d b v f) '':'' = strings_Join (?F d2 b2 v2 f2) '':''"
    using bdf_text_strip [OF ok] bdf_text_strip [OF ok2] eq by simp
  then have "?F d b v f = ?F d2 b2 v2 f2" using split [OF ok] split [OF ok2] by simp
  then have "d = d2" "b = b2" and vf: "v @ ''.'' @ f = v2 @ ''.'' @ f2"
    by (auto split: option.splits)
  moreover have "strings_Join [v, f] ''.'' = strings_Join [v2, f2] ''.''" using vf by simp
  then have "[v, f] = [v2, f2]" using dot [OF ok] dot [OF ok2] by metis
  ultimately show ?thesis by simp
qed

lemma bdfRe_Some:
  assumes "bdf_ok ws d b v f ws'"
  shows "FindStringSubmatch bdfRe 4 (bdf_text ws d b v f ws') =
    Some [bdf_text ws d b v f ws', case d of None \<Rightarrow> [] | Some d \<Rightarrow> d, b, v, f]"
  unfolding bdfRe_tail
proof (rule FindStringSubmatch_anchored_eq)
  let ?s = "bdf_text ws d b v f ws'"
  show "(length ?s, [], bdf_groups d b v f) \<in> set (rx_match bdf_tail (0, ?s, []))"
    using assms unfolding bdf_match_iff by blast
  fix p' s' cs
  assume "(p', s', cs) \<in> set (rx_match bdf_tail (0, ?s, []))"
  then obtain us d2 b2 v2 f2 us' where *: "?s = bdf_text us d2 b2 v2 f2 us'"
    "bdf_ok us d2 b2 v2 f2 us'" and "p' = length ?s" "cs = bdf_groups d2 b2 v2 f2"
    unfolding bdf_match_iff by blast
  moreover from bdf_text_inj [OF assms *(2,1)] have "d = d2 \<and> b = b2 \<and> v = v2 \<and> f = f2" .
  ultimately show "take p' ?s # map (rx_group cs) [1 ..< Suc 4] =
      [?s, case d of None \<Rightarrow> [] | Some d \<Rightarrow> d, b, v, f]"
    by (cases d2) (simp_all add: bdf_groups_def rx_group_def upt_rec)
qed

lemma bdfRe_None_iff:
  "FindStringSubmatch bdfRe 4 s = None \<longleftrightarrow>
     (\<nexists>ws d b v f ws'. s = bdf_text ws d b v f ws' \<and> bdf_ok ws d b v f ws')"
  unfolding bdfRe_tail FindStringSubmatch_anchored_None
  using bdf_match_iff [of _ s] by (metis list.set_intros(1) list.set_cases neq_Nil_conv)

section \<open>Parsing\<close>

definition hex_field :: "string \<Rightarrow> uint32" where
  "hex_field t = (if t = [] then 0xFFFF else word_of_nat (the (parse_base 16 0 t)))"

lemma HexToU32_hex:
  assumes "list_all is_hex_digit t" and "length t \<le> 4"
  shows "HexToU32 t = Ret (hex_field t)"
proof (cases "t = []")
  case False
  with assms parse_uint16_hex_total [of t] obtain n where "parse_uint16_hex t = Some n"
    by (auto simp: list_all_iff)
  then show ?thesis
    using False by (auto simp: HexToU32_def hex_field_def parse_uint16_hex_def split: option.splits if_splits)
qed (simp add: HexToU32_def hex_field_def)

definition bdf_address :: "string option \<Rightarrow> string \<Rightarrow> string \<Rightarrow> string \<Rightarrow> PCIAddress" where
  "bdf_address d b v f = \<lparr>Domain = hex_field (case d of None \<Rightarrow> [] | Some d \<Rightarrow> d),
     Bus = hex_field b, Device = hex_field v, Function = hex_field f\<rparr>"

lemma ParseBDFString_text:
  assumes "bdf_ok ws d b v f ws'"
  shows "ParseBDFString (bdf_text ws d b v f ws') = Ret (Inr (bdf_address d b v f))"
proof -
  have "length (case d of None \<Rightarrow> [] | Some d \<Rightarrow> d) \<le> 4" "length b \<le> 4" "length v \<le> 4" "length f \<le> 4"
    using assms by (auto simp: bdf_ok_def split: option.splits)
  then show ?thesis
    using bdf_ok_hex [OF assms]
    by (simp add: ParseBDFString_def bdfRe_Some [OF assms] HexToU32_hex bdf_address_def)
qed

lemma ParseBDFString_no_text:
  "(\<nexists>ws d b v f ws'. s = bdf_text ws d b v f ws' \<and> bdf_ok ws d b v f ws') \<Longrightarrow>
   ParseBDFString s =
     Ret (Inl (Errorf ''%q not in BDF notation ([[domain]:][bus]:[dev].[function])'' [s]))"
  using bdfRe_None_iff [of s] by (simp add: ParseBDFString_def)

lemma hex_field_bound:
  assumes "list_all is_hex_digit t" and "length t \<le> k" and "k \<le> 4"
  shows "pci_field (16 ^ k) (hex_field t)"
proof (cases "t = []")
  case False
  with assms parse_uint16_hex_total [of t] obtain n
    where n: "n < 16 ^ length t" "parse_uint16_hex t = Some n" by (auto simp: list_all_iff)
  then have p: "parse_base 16 0 t = Some n"
    by (auto simp: parse_uint16_hex_def split: option.splits if_splits)
  have "n < 16 ^ k" using n(1) assms(2) power_increasing [of "length t" k "16::nat"] by linarith
  moreover have "n < 2 ^ 32"
    using \<open>n < 16 ^ k\<close> assms(3) power_increasing [of k 4 "16::nat"] by simp
  ultimately show ?thesis
    using False p by (simp add: pci_field_def hex_field_def unat_of_nat take_bit_eq_mod)
qed (simp add: pci_field_def hex_field_def)

lemma octal_field_bound:
  assumes "list_all octal t" and "length t \<le> 1"
  shows "pci_field 8 (hex_field t)"
proof (cases t)
  case (Cons c cs)
  with assms have t: "t = [c]" and c: "octal c" by auto
  define n :: nat where "n = of_char c - 48"
  have n: "n < 8" and "digit_val c = Some n"
    using c by (auto simp: n_def octal_def digit_val_def)
  then have "hex_field t = word_of_nat n" by (simp add: t hex_field_def)
  with n show ?thesis by (simp add: pci_field_def unat_of_nat)
qed (simp add: pci_field_def hex_field_def)

lemma hex_field_fmt_x:
  assumes "unat x < 16 ^ Suc k" and "Suc k \<le> 4"
  shows "hex_field (fmt_x w (unat x)) = x"
proof -
  have "unat x < 2 ^ 16"
    using assms power_increasing [of "Suc k" 4 "16::nat"] by simp
  then have "parse_uint16_hex (fmt_x w (unat x)) = Some (unat x)" by (rule parse_fmt_x)
  then have "fmt_x w (unat x) \<noteq> []" "parse_base 16 0 (fmt_x w (unat x)) = Some (unat x)"
    by (auto simp: parse_uint16_hex_def split: option.splits if_splits)
  then show ?thesis by (simp add: hex_field_def)
qed

definition field_text :: "nat \<Rightarrow> uint32 \<Rightarrow> string" where
  "field_text w x = (if x = 0xFFFF then [] else fmt_x w (unat x))"

lemma field_text:
  assumes "pci_field (16 ^ Suc k) x" and "Suc k \<le> 4" and "w \<le> Suc k"
  shows "list_all is_hex_digit (field_text w x) \<and> length (field_text w x) \<le> Suc k
    \<and> hex_field (field_text w x) = x"
proof (cases "x = 0xFFFF")
  case False
  with assms(1) have "unat x < 16 ^ Suc k" by (simp add: pci_field_def)
  with False assms(2,3) length_fmt_x(1) [of "unat x" k w] show ?thesis
    by (auto simp: field_text_def hex_field_fmt_x list_all_iff fmt_x_hex_digits)
qed (simp add: field_text_def hex_field_def)

lemma function_text:
  assumes "pci_field 8 x"
  shows "list_all octal (field_text 0 x) \<and> length (field_text 0 x) \<le> 1 \<and> hex_field (field_text 0 x) = x"
proof (cases "x = 0xFFFF")
  case False
  with assms have x: "unat x < 8" by (simp add: pci_field_def)
  then have "fmt_x 0 (unat x) = [digit_char (unat x)]"
    by (simp add: fmt_x_def print_base.simps [of 16 "unat x"])
  moreover have "octal (digit_char (unat x))" using x by (simp add: octal_def of_char_digit_char)
  ultimately show ?thesis
    using False x hex_field_fmt_x [of x 0 0] by (simp add: field_text_def)
qed (simp add: field_text_def hex_field_def)

lemma Pretty_text:
  "PrettyPCIAddress (Some a) =
     bdf_text [] (if Domain a = 0xFFFF then None else Some (field_text 4 (Domain a)))
       (field_text 2 (Bus a)) (field_text 2 (Device a)) (field_text 0 (Function a)) []"
  by (simp add: PrettyPCIAddress_def bdf_text_def field_text_def)

section \<open>Merging\<close>

definition unknown_pci :: PCIAddress where
  "unknown_pci = \<lparr>Domain = 0xFFFF, Bus = 0xFFFF, Device = 0xFFFF, Function = 0xFFFF\<rparr>"

lemma Complete_fields:
  "Domain (CompletePCIAddress a b) = (if Domain a = 0xFFFF then Domain b else Domain a)"
  "Bus (CompletePCIAddress a b) = (if Bus a = 0xFFFF then Bus b else Bus a)"
  "Device (CompletePCIAddress a b) = (if Device a = 0xFFFF then Device b else Device a)"
  "Function (CompletePCIAddress a b) = (if Function a = 0xFFFF then Function b else Function a)"
  "PCIAddress.more (CompletePCIAddress a b) = PCIAddress.more a"
  by (simp_all add: CompletePCIAddress_def Let_def)

section \<open>Properties\<close>


text \<open>
  Every address that \<^verbatim>\<open>ParseBDFString\<close> returns has each field either unknown (0xFFFF) or within
  the range the notation allows: 16 bits of domain, 8 of bus and of device, 3 of function.
\<close>

theorem ParseBDFString_valid:
  assumes "ParseBDFString s = Ret (Inr a)"
  shows "valid_pci a"
proof (cases "\<exists>ws d b v f ws'. s = bdf_text ws d b v f ws' \<and> bdf_ok ws d b v f ws'")
  case True
  then obtain ws d b v f ws' where s: "s = bdf_text ws d b v f ws'" and ok: "bdf_ok ws d b v f ws'"
    by blast
  from assms have "a = bdf_address d b v f" by (simp add: s ParseBDFString_text [OF ok])
  moreover have "length (case d of None \<Rightarrow> [] | Some d \<Rightarrow> d) \<le> 4" "length b \<le> 2" "length v \<le> 2"
    "list_all octal f" "length f \<le> 1"
    using ok by (auto simp: bdf_ok_def split: option.splits)
  with bdf_ok_hex [OF ok]
  have "pci_field (16 ^ 4) (hex_field (case d of None \<Rightarrow> [] | Some d \<Rightarrow> d))"
    "pci_field (16 ^ 2) (hex_field b)" "pci_field (16 ^ 2) (hex_field v)" "pci_field 8 (hex_field f)"
    by (auto intro: hex_field_bound octal_field_bound simp del: power_numeral)
  ultimately show ?thesis by (simp add: valid_pci_def bdf_address_def)
next
  case False
  with assms ParseBDFString_no_text [OF False] show ?thesis by simp
qed

theorem ParseBDFString_valid_witness:
  "valid_pci \<lparr>Domain = 0xFFFF, Bus = 0, Device = 0x15, Function = 0xFFFF\<rparr>"
proof (rule ParseBDFString_valid)
  have "ParseBDFString (bdf_text '' '' None ''00'' ''15'' [] []) = Ret (Inr (bdf_address None ''00'' ''15'' []))"
    by (rule ParseBDFString_text) (simp add: bdf_ok_def re_space_def is_hex_digit_def digit_val_def)
  then show "ParseBDFString '' 00:15.'' =
      Ret (Inr \<lparr>Domain = 0xFFFF, Bus = 0, Device = 0x15, Function = 0xFFFF\<rparr>)"
    by (simp add: bdf_text_def bdf_address_def hex_field_def digit_val_def)
qed

text \<open>
  C10. Printing an address with \<^verbatim>\<open>PrettyPCIAddress\<close> and parsing the text gives the address back,
  unknown fields included, for every address within the ranges of the notation.
\<close>

theorem ParseBDFString_Pretty:
  assumes "valid_pci a"
  shows "ParseBDFString (PrettyPCIAddress (Some a)) = Ret (Inr a)"
proof -
  let ?d = "if Domain a = 0xFFFF then None else Some (field_text 4 (Domain a))"
  have f: "pci_field (16 ^ Suc 3) (Domain a)" "pci_field (16 ^ Suc 1) (Bus a)"
    "pci_field (16 ^ Suc 1) (Device a)" "pci_field 8 (Function a)"
    using assms by (simp_all add: valid_pci_def)
  note t = field_text [OF f(1), of 4] field_text [OF f(2), of 2] field_text [OF f(3), of 2]
    function_text [OF f(4)]
  have "bdf_ok [] ?d (field_text 2 (Bus a)) (field_text 2 (Device a)) (field_text 0 (Function a)) []"
    using t by (simp add: bdf_ok_def)
  moreover have "bdf_address ?d (field_text 2 (Bus a)) (field_text 2 (Device a))
      (field_text 0 (Function a)) = a"
    using t by (simp add: bdf_address_def) (simp add: hex_field_def)
  ultimately show ?thesis unfolding Pretty_text using ParseBDFString_text by metis
qed

theorem ParseBDFString_Pretty_witness:
  "ParseBDFString (PrettyPCIAddress (Some \<lparr>Domain = 0xFFFF, Bus = 0x3a, Device = 0x15, Function = 7\<rparr>)) =
     Ret (Inr \<lparr>Domain = 0xFFFF, Bus = 0x3a, Device = 0x15, Function = 7\<rparr>)"
  by (rule ParseBDFString_Pretty) (simp add: valid_pci_def pci_field_def)

text \<open>
  \<^verbatim>\<open>CompletePCIAddress\<close> fills in exactly the unknown fields: it is associative, so a chain of
  defaults can be merged in any grouping, and the address with all fields unknown is neutral
  on both sides; a result has an unknown field only where both arguments do.
\<close>

theorem CompletePCIAddress_laws:
  "CompletePCIAddress (CompletePCIAddress a b) c = CompletePCIAddress a (CompletePCIAddress b c)
   \<and> CompletePCIAddress a unknown_pci = a
   \<and> CompletePCIAddress unknown_pci a = a
   \<and> (Domain (CompletePCIAddress a b) = 0xFFFF \<longleftrightarrow> Domain a = 0xFFFF \<and> Domain b = 0xFFFF)
   \<and> (Bus (CompletePCIAddress a b) = 0xFFFF \<longleftrightarrow> Bus a = 0xFFFF \<and> Bus b = 0xFFFF)
   \<and> (Device (CompletePCIAddress a b) = 0xFFFF \<longleftrightarrow> Device a = 0xFFFF \<and> Device b = 0xFFFF)
   \<and> (Function (CompletePCIAddress a b) = 0xFFFF \<longleftrightarrow> Function a = 0xFFFF \<and> Function b = 0xFFFF)"
  by (intro conjI) (auto intro!: PCIAddress.equality simp: Complete_fields unknown_pci_def)

end
