(* ===== verification/Volume_Controller.thy ===== *)
theory Volume_Controller
  imports Spdk_Daemon Pci_Address
begin

text \<open>
  The OIM controller (\<^verbatim>\<open>pkg/oim-controller/controller.go\<close>): the handlers that map a volume to a
  SCSI LUN of a vhost controller, unmap it again, and provision and check local Malloc devices.
  Every handler works on a pair of the SPDK client and the daemon's state, one RPC after the
  other, as the code does. The laws of the handlers are proved in the contract
  \<open>spdk_service\<close>, so they hold for any daemon that meets it, and for the SPDK daemon in
  particular. Calls for the same volume are serialised by the key mutex, which is the subject of
  another theory.
\<close>

section \<open>Definitions\<close>

record CephParams =
  UserId :: string
  Secret :: string
  Monitors :: string
  Pool :: string
  Image :: string

datatype volume_params = MallocParams | Ceph CephParams

record MapVolumeRequest =
  VolumeId :: string
  VolumeParams :: "volume_params option"

record SCSIDisk =
  Target :: uint32
  Lun :: uint32

record MapVolumeReply =
  PciAddress :: PCIAddress
  ScsiDisk :: SCSIDisk

text \<open>
  The controller: whether an SPDK client is there (the client itself is part of the state that
  the handlers thread), the vhost controller to use and its PCI address.
\<close>

record OIMController =
  hasSPDK :: bool
  vhostSCSI :: string
  vhostDev :: "PCIAddress option"

definition ceph_request :: "string \<Rightarrow> CephParams \<Rightarrow> ConstructRBDBDevArgs" where
  "ceph_request volumeID cephParams =
     \<lparr>rbd_BlockSize = 512, rbd_Name = volumeID, UserID = UserId cephParams,
      PoolName = Pool cephParams, RBDName = Image cephParams,
      Config = [(''key'', Secret cephParams), (''mon_host'', Monitors cephParams)]\<rparr>"

definition mapCeph ::
  "'s daemon \<Rightarrow> OIMController \<Rightarrow> string \<Rightarrow> CephParams \<Rightarrow> Client \<times> 's \<Rightarrow> unit result \<times> Client \<times> 's" where
  "mapCeph daemon c volumeID cephParams w =
     (if \<not> hasSPDK c then (Inl (ErrText ''not connected to SPDK''), w)
      else case ConstructRBDBDev daemon (ceph_request volumeID cephParams) w of
             (Inl err, w) \<Rightarrow>
               (Inl (Wrap err (sprintf ''ConstructRBDBDev %q for RBD pool %q and image %q, monitors %q''
                 [volumeID, Pool cephParams, Image cephParams, Monitors cephParams])), w)
           | (Inr _, w) \<Rightarrow> (Inr (), w))"

text \<open>The first part of \<^verbatim>\<open>MapVolume\<close>: reuse or create the block device.\<close>

definition ensure_bdev ::
  "'s daemon \<Rightarrow> OIMController \<Rightarrow> string \<Rightarrow> volume_params option \<Rightarrow> Client \<times> 's \<Rightarrow> unit result \<times> Client \<times> 's" where
  "ensure_bdev daemon c volumeID params w =
     (case GetBDevs daemon volumeID w of
        (Inl err, w) \<Rightarrow>
          (case params of
             Some MallocParams \<Rightarrow>
               (Inl (Errorf ''no existing MallocBDev with name %s found'' [volumeID]), w)
           | Some (Ceph x) \<Rightarrow> mapCeph daemon c volumeID x w
           | None \<Rightarrow> (Inl (ErrText ''missing volume parameters''), w))
      | (Inr _, w) \<Rightarrow> (Inr (), w))"

text \<open>The loop over the targets of the vhost controller; \<open>err\<close> is the error of the last attempt.\<close>

fun add_loop ::
  "'s daemon \<Rightarrow> string \<Rightarrow> string \<Rightarrow> uint32 list \<Rightarrow> go_error \<Rightarrow> Client \<times> 's \<Rightarrow> uint32 result \<times> Client \<times> 's" where
  "add_loop daemon scsi volumeID [] err w =
     (Inl (Wrap err ''AddVHostSCSILUN failed for all LUNs, last error''), w)"
| "add_loop daemon scsi volumeID (t # ts) err w =
     (case AddVHostSCSILUN daemon scsi t volumeID w of
        (Inr _, w) \<Rightarrow> (Inr t, w)
      | (Inl e, w) \<Rightarrow> add_loop daemon scsi volumeID ts e w)"

definition scsi_targets :: "uint32 list" where
  "scsi_targets = [0, 1, 2, 3, 4, 5, 6, 7]"

definition MapVolume ::
  "'s daemon \<Rightarrow> OIMController \<Rightarrow> MapVolumeRequest \<Rightarrow> Client \<times> 's \<Rightarrow> MapVolumeReply result \<times> Client \<times> 's" where
  "MapVolume daemon c rq w =
     (let volumeID = VolumeId rq in
      if volumeID = [] then (Inl (ErrText ''empty volume ID''), w)
      else if \<not> hasSPDK c then (Inl (ErrText ''not connected to SPDK''), w)
      else if vhostSCSI c = [] then (Inl (ErrText ''no VHost SCSI controller configured''), w)
      else case vhostDev c of
        None \<Rightarrow> (Inl (ErrText ''no PCI BDF configured''), w)
      | Some dev \<Rightarrow>
         (case ensure_bdev daemon c volumeID (VolumeParams rq) w of
            (Inl err, w) \<Rightarrow> (Inl err, w)
          | (Inr _, w) \<Rightarrow>
             (case GetVHostControllers daemon w of
                (Inl err, w) \<Rightarrow> (Inl (Wrap err ''GetVHostControllers''), w)
              | (Inr controllers, w) \<Rightarrow>
                 (case find (\<lambda>(_, _, bdevName). bdevName = volumeID) (controller_luns controllers) of
                    Some (_, target, _) \<Rightarrow>
                      (Inr \<lparr>PciAddress = dev, ScsiDisk = \<lparr>Target = target, Lun = 0\<rparr>\<rparr>, w)
                  | None \<Rightarrow>
                      (case add_loop daemon (vhostSCSI c) volumeID scsi_targets (ErrText []) w of
                         (Inl err, w) \<Rightarrow> (Inl err, w)
                       | (Inr target, w) \<Rightarrow>
                           (Inr \<lparr>PciAddress = dev, ScsiDisk = \<lparr>Target = target, Lun = 0\<rparr>\<rparr>, w))))))"

text \<open>The loop of \<^verbatim>\<open>UnmapVolume\<close> over the LUNs of all controllers; it goes on after a match.\<close>

fun remove_loop :: "'s daemon \<Rightarrow> string \<Rightarrow> lun list \<Rightarrow> Client \<times> 's \<Rightarrow> unit result \<times> Client \<times> 's" where
  "remove_loop daemon volumeID [] w = (Inr (), w)"
| "remove_loop daemon volumeID ((controller, target, bdevName) # ls) w =
     (if bdevName = volumeID
      then (case RemoveVHostSCSITarget daemon controller target w of
              (Inl err, w) \<Rightarrow> (Inl (Wrap err ''RemoveVHostSCSITarget''), w)
            | (Inr _, w) \<Rightarrow> remove_loop daemon volumeID ls w)
      else remove_loop daemon volumeID ls w)"

definition UnmapVolume ::
  "'s daemon \<Rightarrow> OIMController \<Rightarrow> string \<Rightarrow> Client \<times> 's \<Rightarrow> unit result \<times> Client \<times> 's" where
  "UnmapVolume daemon c volumeID w =
     (if volumeID = [] then (Inl (ErrText ''empty volume ID''), w)
      else if \<not> hasSPDK c then (Inl (ErrText ''not connected to SPDK''), w)
      else case GetVHostControllers daemon w of
        (Inl err, w) \<Rightarrow> (Inl (Wrap err ''GetVHostControllers''), w)
      | (Inr controllers, w) \<Rightarrow>
          (case remove_loop daemon volumeID (controller_luns controllers) w of
             (Inl err, w) \<Rightarrow> (Inl err, w)
           | (Inr _, w) \<Rightarrow>
               (case GetBDevs daemon volumeID w of
                  (Inl _, w) \<Rightarrow> (Inr (), w)
                | (Inr bs, w) \<Rightarrow>
                    if 0 < length bs \<and> ProductName (bs ! 0) \<noteq> ''Malloc disk''
                    then (case DeleteBDev daemon volumeID w of (_, w) \<Rightarrow> (Inr (), w))
                    else (Inr (), w))))"

definition ProvisionMallocBDev ::
  "'s daemon \<Rightarrow> OIMController \<Rightarrow> string \<Rightarrow> int \<Rightarrow> Client \<times> 's \<Rightarrow> unit result \<times> Client \<times> 's" where
  "ProvisionMallocBDev daemon c bdevName sz w =
     (if bdevName = [] then (Inl (ErrText ''empty BDev name''), w)
      else if \<not> hasSPDK c then (Inl (ErrText ''not connected to SPDK''), w)
      else if sz \<noteq> 0
      then let construct = (\<lambda>w. case ConstructMallocBDev daemon
                \<lparr>cm_NumBlocks = go_div sz 512, cm_BlockSize = 512, cm_Name = bdevName, cm_UUID = []\<rparr> w of
                  (Inl err, w) \<Rightarrow> (Inl (Wrap err ''ConstructMallocBDev''), w)
                | (Inr _, w) \<Rightarrow> (Inr (), w))
           in (case GetBDevs daemon bdevName w of
                 (Inl _, w) \<Rightarrow> construct w
               | (Inr bs, w) \<Rightarrow>
                   if length bs \<noteq> 1 then construct w
                   else let actualSize = wrap64 (NumBlocks (bs ! 0) * BlockSize (bs ! 0)) in
                     if actualSize \<noteq> sz
                     then (Inl (StatusErr AlreadyExists ''Existing BDev %s has wrong size %d''
                            [bdevName, strconv_Itoa actualSize]), w)
                     else (Inr (), w))
      else (case DeleteBDev daemon bdevName w of (_, w) \<Rightarrow> (Inr (), w)))"

definition CheckMallocBDev ::
  "'s daemon \<Rightarrow> OIMController \<Rightarrow> string \<Rightarrow> Client \<times> 's \<Rightarrow> unit result \<times> Client \<times> 's" where
  "CheckMallocBDev daemon c bdevName w =
     (if bdevName = [] then (Inl (ErrText ''empty BDev name''), w)
      else if \<not> hasSPDK c then (Inl (ErrText ''not connected to SPDK''), w)
      else case GetBDevs daemon bdevName w of
        (Inr bs, w) \<Rightarrow> if length bs = 1 then (Inr (), w) else (Inl (StatusErr NotFound [] []), w)
      | (Inl _, w) \<Rightarrow> (Inl (StatusErr NotFound [] []), w))"

section \<open>The handlers on any service\<close>

definition map_reply :: "PCIAddress \<Rightarrow> uint32 \<Rightarrow> MapVolumeReply" where
  "map_reply dev t = \<lparr>PciAddress = dev, ScsiDisk = \<lparr>Target = t, Lun = 0\<rparr>\<rparr>"

definition lun_of_volume :: "string \<Rightarrow> lun list \<Rightarrow> lun option" where
  "lun_of_volume volumeID ls = find (\<lambda>(_, _, b). b = volumeID) ls"

lemma lun_of_volume_Some:
  "lun_of_volume v ls = Some (c, t, b) \<Longrightarrow> b = v \<and> (c, t, v) \<in> set ls"
  by (auto simp: lun_of_volume_def dest: find_Some_conv)

lemma lun_of_volume_None: "lun_of_volume v ls = None \<longleftrightarrow> (\<forall>c t. (c, t, v) \<notin> set ls)"
  by (auto simp: lun_of_volume_def find_None_iff)

text \<open>The first of the targets \<open>ts\<close> of the vhost controller \<open>scsi\<close> that no LUN uses.\<close>

definition free_target :: "string set \<Rightarrow> lun list \<Rightarrow> string \<Rightarrow> uint32 list \<Rightarrow> uint32 option" where
  "free_target vs ls scsi ts = find (\<lambda>t. scsi \<in> vs \<and> \<not> (\<exists>b. (scsi, t, b) \<in> set ls)) ts"

text \<open>What \<^verbatim>\<open>MapVolume\<close> does to the block devices: reuse the one of the volume, or add an RBD device.\<close>

definition reuses_or_adds :: "string \<Rightarrow> (string \<rightharpoonup> BDev) \<Rightarrow> (string \<rightharpoonup> BDev) \<Rightarrow> bool" where
  "reuses_or_adds v m m' \<longleftrightarrow> (if m v \<noteq> None then m' = m
     else \<exists>b. ProductName b = ''Ceph Rbd Disk'' \<and> m' = m(v \<mapsto> b))"

lemma reuses_or_adds_facts:
  assumes "reuses_or_adds v m m'"
  shows "m' v \<noteq> None" and "n \<noteq> v \<Longrightarrow> m' n = m n" and "m v \<noteq> None \<Longrightarrow> m' = m"
  using assms by (auto simp: reuses_or_adds_def split: if_splits)

context spdk_service
begin

lemma ensure_bdev_law:
  assumes "ok s" and "client_ok cl" and "vol \<noteq> []" and "hasSPDK c"
  shows "\<exists>cl' s' r. client_ok cl' \<and> ok s' \<and> ensure_bdev daemon c vol ps (cl, s) = (r, cl', s')
    \<and> lun_list s' = lun_list s \<and> vhost s' = vhost s \<and>
    (if bd s vol \<noteq> None then r = Inr () \<and> s' = s
     else if \<exists>x. ps = Some (Ceph x) \<and> can_rbd (ceph_request vol x)
     then r = Inr () \<and> (\<exists>b. ProductName b = ''Ceph Rbd Disk'' \<and> bd s' = (bd s)(vol \<mapsto> b))
     else (\<exists>e. r = Inl e) \<and> s' = s)"
proof -
  from GetBDevs_law [OF assms(1-3)] obtain cl1 where cl1: "client_ok cl1" and
    g: "GetBDevs daemon vol (cl, s) = ((case bd s vol of None \<Rightarrow> Inl not_found | Some b \<Rightarrow> Inr [b]), cl1, s)"
    by blast
  show ?thesis
  proof (cases "bd s vol")
    case (Some b)
    with g cl1 assms(1) show ?thesis by (simp add: ensure_bdev_def)
  next
    case None
    show ?thesis
    proof (cases "\<exists>x. ps = Some (Ceph x)")
      case False
      with None g cl1 assms(1) show ?thesis
        by (auto simp: ensure_bdev_def split: option.split volume_params.split)
    next
      case True
      then obtain x where ps: "ps = Some (Ceph x)" by blast
      have rq: "rbd_Name (ceph_request vol x) = vol" "rbd_BlockSize (ceph_request vol x) = 512"
        "Config (ceph_request vol x) \<noteq> []" by (simp_all add: ceph_request_def)
      from RBD_law [OF assms(1) cl1, of "ceph_request vol x", unfolded rq(1), OF assms(3) rq(2,3)] obtain cl2 s2 r2
        where r2: "client_ok cl2" "ok s2" "ConstructRBDBDev daemon (ceph_request vol x) (cl1, s) = (r2, cl2, s2)"
          "lun_list s2 = lun_list s" "vhost s2 = vhost s" and
        q: "if bd s vol = None \<and> can_rbd (ceph_request vol x)
         then r2 = Inr vol \<and> bd s vol = None \<and> (\<exists>b. ProductName b = ''Ceph Rbd Disk'' \<and> bd s2 = (bd s)(vol \<mapsto> b))
         else r2 = Inl not_found \<and> s2 = s" by blast
      show ?thesis
      proof (cases "can_rbd (ceph_request vol x)")
        case True
        with q None r2 g assms(4) ps show ?thesis by (simp add: ensure_bdev_def mapCeph_def)
      next
        case False
        with q None r2 g assms(4) ps show ?thesis by (simp add: ensure_bdev_def mapCeph_def)
      qed
    qed
  qed
qed

lemma add_loop_law:
  assumes "ok s" and "client_ok cl" and "bd s vol \<noteq> None" and "\<forall>t \<in> set ts. unat t < 8"
  shows "\<exists>cl' s' r. client_ok cl' \<and> ok s' \<and> add_loop daemon scsi vol ts err (cl, s) = (r, cl', s')
    \<and> bd s' = bd s \<and> vhost s' = vhost s \<and>
    (case free_target (vhost s) (lun_list s) scsi ts of
       None \<Rightarrow> (\<exists>e. r = Inl e) \<and> s' = s
     | Some t \<Rightarrow> r = Inr t \<and> set (lun_list s') = insert (scsi, t, vol) (set (lun_list s)))"
  using assms(2,4)
proof (induction ts arbitrary: cl err)
  case Nil
  with assms(1) show ?case by (simp add: free_target_def)
next
  case (Cons t ts)
  from Add_law [OF assms(1) Cons.prems(1), of scsi t vol] obtain cl1 s1 r1
    where r1: "client_ok cl1" "ok s1" "AddVHostSCSILUN daemon scsi t vol (cl, s) = (r1, cl1, s1)"
      "bd s1 = bd s" "vhost s1 = vhost s" and
    q: "if scsi \<in> vhost s \<and> unat t < 8 \<and> \<not> (\<exists>b. (scsi, t, b) \<in> set (lun_list s)) \<and> bd s vol \<noteq> None
       then r1 = Inr () \<and> set (lun_list s1) = insert (scsi, t, vol) (set (lun_list s))
       else (\<exists>m. r1 = Inl (rpc_error (- 32602) m)) \<and> s1 = s" by blast
  show ?case
  proof (cases "scsi \<in> vhost s \<and> \<not> (\<exists>b. (scsi, t, b) \<in> set (lun_list s))")
    case True
    with q assms(3) Cons.prems(2) have "r1 = Inr () \<and> set (lun_list s1) = insert (scsi, t, vol) (set (lun_list s))"
      by auto
    moreover have "free_target (vhost s) (lun_list s) scsi (t # ts) = Some t" using True by (simp add: free_target_def)
    ultimately show ?thesis using r1 by simp
  next
    case False
    then have "\<not> (scsi \<in> vhost s \<and> unat t < 8 \<and> \<not> (\<exists>b. (scsi, t, b) \<in> set (lun_list s)) \<and> bd s vol \<noteq> None)"
      by blast
    from q [unfolded if_not_P [OF this]] obtain m where m: "r1 = Inl (rpc_error (- 32602) m)" "s1 = s" by blast
    have "free_target (vhost s) (lun_list s) scsi (t # ts) = free_target (vhost s) (lun_list s) scsi ts"
      unfolding free_target_def find.simps if_not_P [OF False] ..
    with m r1 Cons.IH [of cl1 "rpc_error (- 32602) m"] Cons.prems(2) show ?thesis by simp
  qed
qed

lemma scsi_targets_range: "\<forall>t \<in> set scsi_targets. unat t < 8"
  by (simp add: scsi_targets_def)

text \<open>\<^verbatim>\<open>MapVolume\<close> on every branch after its guards.\<close>

lemma MapVolume_law:
  assumes "ok s" and "client_ok cl" and "VolumeId rq \<noteq> []" and "hasSPDK c" and "vhostSCSI c \<noteq> []"
    and "vhostDev c = Some dev"
  shows "\<exists>cl' s' r. client_ok cl' \<and> ok s' \<and> MapVolume daemon c rq (cl, s) = (r, cl', s') \<and> vhost s' = vhost s \<and>
    (if bd s (VolumeId rq) = None \<and> \<not> (\<exists>x. VolumeParams rq = Some (Ceph x) \<and> can_rbd (ceph_request (VolumeId rq) x))
     then (\<exists>e. r = Inl e) \<and> s' = s
     else reuses_or_adds (VolumeId rq) (bd s) (bd s')
       \<and> (case lun_of_volume (VolumeId rq) (lun_list s) of
            Some (_, t, _) \<Rightarrow> r = Inr (map_reply dev t) \<and> s' = s
          | None \<Rightarrow> (case free_target (vhost s) (lun_list s) (vhostSCSI c) scsi_targets of
                       Some t \<Rightarrow> r = Inr (map_reply dev t)
                         \<and> set (lun_list s') = insert (vhostSCSI c, t, VolumeId rq) (set (lun_list s))
                     | None \<Rightarrow> (\<exists>e. r = Inl e) \<and> set (lun_list s') = set (lun_list s))))"
proof -
  let ?v = "VolumeId rq"
  from ensure_bdev_law [OF assms(1-4), of "VolumeParams rq"] obtain cl1 s1 r1
    where e: "client_ok cl1" "ok s1" "ensure_bdev daemon c ?v (VolumeParams rq) (cl, s) = (r1, cl1, s1)"
      "lun_list s1 = lun_list s" "vhost s1 = vhost s" and
    q: "if bd s ?v \<noteq> None then r1 = Inr () \<and> s1 = s
     else if \<exists>x. VolumeParams rq = Some (Ceph x) \<and> can_rbd (ceph_request ?v x)
     then r1 = Inr () \<and> (\<exists>b. ProductName b = ''Ceph Rbd Disk'' \<and> bd s1 = (bd s)(?v \<mapsto> b))
     else (\<exists>e. r1 = Inl e) \<and> s1 = s" by blast
  show ?thesis
  proof (cases "bd s ?v = None \<and> \<not> (\<exists>x. VolumeParams rq = Some (Ceph x) \<and> can_rbd (ceph_request ?v x))")
    case True
    with q obtain er where "r1 = Inl er" "s1 = s" by auto
    with e assms(3-6) True show ?thesis by (auto simp: MapVolume_def)
  next
    case False
    with q have r1: "r1 = Inr ()" and bd1: "reuses_or_adds ?v (bd s) (bd s1)" "bd s ?v \<noteq> None \<longrightarrow> s1 = s"
      by (auto simp: reuses_or_adds_def split: if_splits)
    from Controllers_law [OF e(2,1)] obtain cl2 cs where k: "client_ok cl2"
      "GetVHostControllers daemon (cl1, s1) = (Inr cs, cl2, s1)" "controller_luns cs = lun_list s" using e(4) by auto
    have step: "MapVolume daemon c rq (cl, s) =
        (case lun_of_volume ?v (lun_list s) of
           Some (_, t, _) \<Rightarrow> (Inr (map_reply dev t), cl2, s1)
         | None \<Rightarrow> (case add_loop daemon (vhostSCSI c) ?v scsi_targets (ErrText []) (cl2, s1) of
                      (Inl err, w) \<Rightarrow> (Inl err, w)
                    | (Inr target, w) \<Rightarrow> (Inr (map_reply dev target), w)))"
      using assms(3-6) e(3) r1 k(2,3) unfolding MapVolume_def lun_of_volume_def map_reply_def
      by (simp add: Let_def)
    show ?thesis
    proof (cases "lun_of_volume ?v (lun_list s)")
      case (Some l)
      obtain lc lt lb where l: "l = (lc, lt, lb)" by (cases l)
      with Some have "(lc, lt, ?v) \<in> set (lun_list s)" using lun_of_volume_Some by auto
      then have b: "bd s ?v \<noteq> None" using lun_bdev [OF assms(1)] by blast
      then have "s1 = s" using bd1(2) by blast
      then show ?thesis using b step Some l k(1) e(2,5) bd1(1) by simp
    next
      case None
      from add_loop_law [OF e(2) k(1) reuses_or_adds_facts(1) [OF bd1(1)] scsi_targets_range, of "vhostSCSI c" "ErrText []"] obtain cl3 s3 r3
        where a: "client_ok cl3" "ok s3"
          "add_loop daemon (vhostSCSI c) ?v scsi_targets (ErrText []) (cl2, s1) = (r3, cl3, s3)"
          "bd s3 = bd s1" "vhost s3 = vhost s1" and
        a2: "case free_target (vhost s1) (lun_list s1) (vhostSCSI c) scsi_targets of
           None \<Rightarrow> (\<exists>e. r3 = Inl e) \<and> s3 = s1
         | Some t \<Rightarrow> r3 = Inr t \<and> set (lun_list s3) = insert (vhostSCSI c, t, ?v) (set (lun_list s1))" by blast
      have ft: "free_target (vhost s1) (lun_list s1) (vhostSCSI c) scsi_targets = free_target (vhost s) (lun_list s) (vhostSCSI c) scsi_targets"
        using e(4,5) by (simp add: free_target_def)
      show ?thesis
        using step None a a2 ft e(4,5) bd1(1) False
        by (cases "free_target (vhost s) (lun_list s) (vhostSCSI c) scsi_targets") auto
    qed
  qed
qed

text \<open>The loop of \<^verbatim>\<open>UnmapVolume\<close> removes the listed LUNs of the volume and never fails.\<close>

lemma remove_loop_law:
  assumes "ok s" and "client_ok cl" and "distinct ls" and "set ls \<subseteq> set (lun_list s)"
  shows "\<exists>cl' s'. client_ok cl' \<and> ok s' \<and> remove_loop daemon vol ls (cl, s) = (Inr (), cl', s')
    \<and> bd s' = bd s \<and> vhost s' = vhost s
    \<and> set (lun_list s') = set (lun_list s) - {l \<in> set ls. snd (snd l) = vol}"
  using assms
proof (induction ls arbitrary: cl s)
  case Nil
  then show ?case by simp
next
  case (Cons l ls)
  obtain c t b where l: "l = (c, t, b)" by (cases l)
  show ?case
  proof (cases "b = vol")
    case True
    from Remove_law [OF Cons.prems(1,2), of c t] obtain cl1 s1 r1
      where r1: "client_ok cl1" "ok s1" "RemoveVHostSCSITarget daemon c t (cl, s) = (r1, cl1, s1)"
        "bd s1 = bd s" "vhost s1 = vhost s" and
      q: "if \<exists>b. (c, t, b) \<in> set (lun_list s)
       then r1 = Inr () \<and> set (lun_list s1) = {(c', t', b) \<in> set (lun_list s). \<not> (c' = c \<and> t' = t)}
       else (\<exists>m. r1 = Inl (rpc_error (- 32602) m)) \<and> s1 = s" by blast
    have mem: "(c, t, vol) \<in> set (lun_list s)" using Cons.prems(4) l True by simp
    then have ex: "\<exists>b. (c, t, b) \<in> set (lun_list s)" by blast
    from q [unfolded if_P [OF this]] have ok1: "r1 = Inr ()" and
      l1: "set (lun_list s1) = {(c', t', b) \<in> set (lun_list s). \<not> (c' = c \<and> t' = t)}" by blast+
    have s1: "set (lun_list s1) = set (lun_list s) - {(c, t, vol)}"
    proof (intro set_eqI iffI)
      fix x assume "x \<in> set (lun_list s) - {(c, t, vol)}"
      moreover obtain xc xt xb where x: "x = (xc, xt, xb)" by (cases x)
      ultimately have "x \<in> set (lun_list s)" "xc = c \<and> xt = t \<longrightarrow> xb \<noteq> vol" by auto
      then show "x \<in> set (lun_list s1)" unfolding l1 x using lun_unique [OF Cons.prems(1) mem, of xb] by blast
    next
      fix x assume "x \<in> set (lun_list s1)"
      then show "x \<in> set (lun_list s) - {(c, t, vol)}" unfolding l1 by auto
    qed
    have d: "distinct ls" "l \<notin> set ls" using Cons.prems(3) by simp_all
    have "set ls \<subseteq> set (lun_list s1)" using d(2) Cons.prems(4) unfolding s1 l True by auto
    from Cons.IH [OF r1(2,1) d(1) this] obtain cl' s' where "client_ok cl'" "ok s'"
      "remove_loop daemon vol ls (cl1, s1) = (Inr (), cl', s')" "bd s' = bd s1" "vhost s' = vhost s1" and
      l': "set (lun_list s') = set (lun_list s1) - {l \<in> set ls. snd (snd l) = vol}" by blast
    moreover have "set (lun_list s') = set (lun_list s) - {x \<in> set (l # ls). snd (snd x) = vol}"
      unfolding l' s1 l True by auto
    ultimately show ?thesis using r1 ok1 by (simp add: l True)
  next
    case False
    have "distinct ls" "set ls \<subseteq> set (lun_list s)" using Cons.prems(3,4) by simp_all
    note ih = Cons.IH [OF Cons.prems(1,2) this]
    have "{x \<in> set (l # ls). snd (snd x) = vol} = {x \<in> set ls. snd (snd x) = vol}" using False l by auto
    moreover have "remove_loop daemon vol (l # ls) (cl, s) = remove_loop daemon vol ls (cl, s)"
      using False l by simp
    ultimately show ?thesis using ih by metis
  qed
qed

lemma UnmapVolume_law:
  assumes "ok s" and "client_ok cl" and "vol \<noteq> []" and "hasSPDK c"
  shows "\<exists>cl' s'. client_ok cl' \<and> ok s' \<and> UnmapVolume daemon c vol (cl, s) = (Inr (), cl', s') \<and> vhost s' = vhost s
    \<and> set (lun_list s') = {l \<in> set (lun_list s). snd (snd l) \<noteq> vol}
    \<and> bd s' = (if \<exists>b. bd s vol = Some b \<and> ProductName b \<noteq> ''Malloc disk'' then (bd s)(vol := None) else bd s)"
proof -
  from Controllers_law [OF assms(1,2)] obtain cl1 cs where k: "client_ok cl1"
    "GetVHostControllers daemon (cl, s) = (Inr cs, cl1, s)" "controller_luns cs = lun_list s" by blast
  from remove_loop_law [OF assms(1) k(1) lun_distinct [OF assms(1)] order_refl, of vol] obtain cl2 s2
    where r: "client_ok cl2" "ok s2" "remove_loop daemon vol (lun_list s) (cl1, s) = (Inr (), cl2, s2)"
      "bd s2 = bd s" "vhost s2 = vhost s" and
      l2: "set (lun_list s2) = set (lun_list s) - {l \<in> set (lun_list s). snd (snd l) = vol}" by blast
  from GetBDevs_law [OF r(2,1) assms(3)] obtain cl3 where g: "client_ok cl3"
    "GetBDevs daemon vol (cl2, s2) = ((case bd s vol of None \<Rightarrow> Inl not_found | Some b \<Rightarrow> Inr [b]), cl3, s2)"
    using r(4) by auto
  from DeleteBDev_law [OF r(2) g(1), of vol] obtain cl4 s4 where d: "client_ok cl4" "ok s4"
    "DeleteBDev daemon vol (cl3, s2) = ((if bd s2 vol = None then Inl not_found else Inr ()), cl4, s4)"
    "bd s4 = (bd s2)(vol := None)" "lun_list s4 = filter (\<lambda>(c, t, b). b \<noteq> vol) (lun_list s2)" "vhost s4 = vhost s2"
    by blast
  have l2': "set (lun_list s2) = {l \<in> set (lun_list s). snd (snd l) \<noteq> vol}" using l2 by auto
  have l4: "set (lun_list s4) = {l \<in> set (lun_list s). snd (snd l) \<noteq> vol}" using d(5) l2' by auto
  show ?thesis
  proof (cases "\<exists>b. bd s vol = Some b \<and> ProductName b \<noteq> ''Malloc disk''")
    case True
    then obtain b where "bd s vol = Some b" "ProductName b \<noteq> ''Malloc disk''" by blast
    then show ?thesis using assms(3,4) k r g d l4 by (simp add: UnmapVolume_def)
  next
    case False
    then show ?thesis using assms(3,4) k r g l2' by (cases "bd s vol") (auto simp: UnmapVolume_def)
  qed
qed

lemma ProvisionMallocBDev_law:
  assumes "ok s" and "client_ok cl" and "n \<noteq> []" and "hasSPDK c"
  shows "\<exists>cl' s' r. client_ok cl' \<and> ok s' \<and> ProvisionMallocBDev daemon c n sz (cl, s) = (r, cl', s') \<and> vhost s' = vhost s \<and>
    (if sz = 0 then r = Inr () \<and> bd s' = (bd s)(n := None)
       \<and> lun_list s' = filter (\<lambda>(c, t, b). b \<noteq> n) (lun_list s)
     else lun_list s' = lun_list s \<and>
       (case bd s n of
          Some b \<Rightarrow> s' = s \<and> r = (if wrap64 (NumBlocks b * BlockSize b) = sz then Inr ()
            else Inl (StatusErr AlreadyExists ''Existing BDev %s has wrong size %d''
                   [n, strconv_Itoa (wrap64 (NumBlocks b * BlockSize b))]))
        | None \<Rightarrow>
            if 0 < go_div sz 512 \<and> can_alloc (go_div sz 512)
            then r = Inr () \<and> (\<exists>b. (ProductName b = ''Malloc disk'' \<and> BlockSize b = 512 \<and> NumBlocks b = go_div sz 512)
                  \<and> bd s' = (bd s)(n \<mapsto> b))
            else r = Inl (Wrap not_found ''ConstructMallocBDev'') \<and> s' = s))"
proof (cases "sz = 0")
  case True
  from DeleteBDev_law [OF assms(1,2), of n] obtain cl' s' where "client_ok cl'" "ok s'"
    "DeleteBDev daemon n (cl, s) = ((if bd s n = None then Inl not_found else Inr ()), cl', s')"
    "bd s' = (bd s)(n := None)" "lun_list s' = filter (\<lambda>(c, t, b). b \<noteq> n) (lun_list s)" "vhost s' = vhost s"
    by blast
  with True assms(3,4) show ?thesis by (simp add: ProvisionMallocBDev_def)
next
  case False
  from GetBDevs_law [OF assms(1-3)] obtain cl1 where g: "client_ok cl1"
    "GetBDevs daemon n (cl, s) = ((case bd s n of None \<Rightarrow> Inl not_found | Some b \<Rightarrow> Inr [b]), cl1, s)" by blast
  define a where "a = (\<lparr>cm_NumBlocks = go_div sz 512, cm_BlockSize = 512, cm_Name = n, cm_UUID = []\<rparr> :: ConstructMallocBDevArgs)"
  have sel: "cm_Name a = n" "cm_UUID a = []" "cm_NumBlocks a = go_div sz 512" "cm_BlockSize a = 512"
    by (simp_all add: a_def)
  have "is_int64 (go_div sz 512)" by (simp add: go_div_def)
  from Malloc_law [OF assms(1) g(1), of a, unfolded sel, OF assms(3) refl this refl] obtain cl2 s2 r2 where m: "client_ok cl2" "ok s2"
    "ConstructMallocBDev daemon a (cl1, s) = (r2, cl2, s2)" "lun_list s2 = lun_list s" "vhost s2 = vhost s" and
    q: "if 0 < go_div sz 512 \<and> bd s n = None \<and> can_alloc (go_div sz 512)
       then r2 = Inr n \<and> bd s n = None
            \<and> (\<exists>b. (ProductName b = ''Malloc disk'' \<and> BlockSize b = 512 \<and> NumBlocks b = go_div sz 512)
                  \<and> bd s2 = (bd s)(n \<mapsto> b))
       else r2 = Inl not_found \<and> s2 = s" by blast
  show ?thesis
  proof (cases "bd s n")
    case (Some b)
    then show ?thesis using False assms g by (simp add: ProvisionMallocBDev_def Let_def)
  next
    case None
    show ?thesis
    proof (cases "0 < go_div sz 512 \<and> can_alloc (go_div sz 512)")
      case True
      with q None have q': "r2 = Inr n" "\<exists>b. (ProductName b = ''Malloc disk'' \<and> BlockSize b = 512
        \<and> NumBlocks b = go_div sz 512) \<and> bd s2 = (bd s)(n \<mapsto> b)" by simp_all
      then show ?thesis using True None False assms(3,4) g m unfolding a_def by (simp add: ProvisionMallocBDev_def Let_def)
    next
      case False
      with q None have "r2 = Inl not_found" "s2 = s" by (auto split: if_splits)
      then show ?thesis using False None \<open>sz \<noteq> 0\<close> assms g m unfolding a_def by (simp add: ProvisionMallocBDev_def Let_def)
    qed
  qed
qed

lemma CheckMallocBDev_law:
  assumes "ok s" and "client_ok cl" and "n \<noteq> []" and "hasSPDK c"
  shows "\<exists>cl'. client_ok cl' \<and> CheckMallocBDev daemon c n (cl, s) =
    ((if bd s n = None then Inl (StatusErr NotFound [] []) else Inr ()), cl', s)"
proof -
  from GetBDevs_law [OF assms(1-3)] obtain cl' where "client_ok cl'"
    "GetBDevs daemon n (cl, s) = ((case bd s n of None \<Rightarrow> Inl not_found | Some b \<Rightarrow> Inr [b]), cl', s)" by blast
  with assms(3,4) show ?thesis by (cases "bd s n") (simp_all add: CheckMallocBDev_def)
qed

text \<open>A successful \<^verbatim>\<open>MapVolume\<close>, with the LUN \<open>(k, t, vol)\<close> that it reports.\<close>

lemma MapVolume_guards:
  "MapVolume daemon c rq w = (Inr rep, w') \<Longrightarrow>
   VolumeId rq \<noteq> [] \<and> hasSPDK c \<and> vhostSCSI c \<noteq> [] \<and> (\<exists>dev. vhostDev c = Some dev)"
  by (auto simp: MapVolume_def Let_def split: if_splits option.splits)

lemma MapVolume_Inr:
  assumes "ok s" and "client_ok cl" and m: "MapVolume daemon c rq (cl, s) = (Inr rep, cl', s')"
  obtains dev k t where "vhostDev c = Some dev" "rep = map_reply dev t" "client_ok cl'" "ok s'" "vhost s' = vhost s"
    "reuses_or_adds (VolumeId rq) (bd s) (bd s')"
    "lun_of_volume (VolumeId rq) (lun_list s') = Some (k, t, VolumeId rq)"
    "set (lun_list s') = insert (k, t, VolumeId rq) (set (lun_list s))"
    "(k, t, VolumeId rq) \<in> set (lun_list s) \<and> s' = s \<or>
     k = vhostSCSI c \<and> free_target (vhost s) (lun_list s) k scsi_targets = Some t
       \<and> lun_of_volume (VolumeId rq) (lun_list s) = None"
proof -
  let ?v = "VolumeId rq"
  from MapVolume_guards [OF m] obtain dev where g: "?v \<noteq> []" "hasSPDK c" "vhostSCSI c \<noteq> []" "vhostDev c = Some dev"
    by blast
  from MapVolume_law [OF assms(1,2) g] obtain cl1 s1 r where
    w1: "client_ok cl1" "ok s1" "MapVolume daemon c rq (cl, s) = (r, cl1, s1)" "vhost s1 = vhost s" and
    q1: "if bd s ?v = None \<and> \<not> (\<exists>x. VolumeParams rq = Some (Ceph x) \<and> can_rbd (ceph_request ?v x))
     then (\<exists>e. r = Inl e) \<and> s1 = s
     else reuses_or_adds ?v (bd s) (bd s1)
       \<and> (case lun_of_volume ?v (lun_list s) of
            Some (_, t, _) \<Rightarrow> r = Inr (map_reply dev t) \<and> s1 = s
          | None \<Rightarrow> (case free_target (vhost s) (lun_list s) (vhostSCSI c) scsi_targets of
                       Some t \<Rightarrow> r = Inr (map_reply dev t)
                         \<and> set (lun_list s1) = insert (vhostSCSI c, t, ?v) (set (lun_list s))
                     | None \<Rightarrow> (\<exists>e. r = Inl e) \<and> set (lun_list s1) = set (lun_list s)))" by blast
  from w1(3) m have eq: "r = Inr rep" "cl1 = cl'" "s1 = s'" by simp_all
  note w = w1(1,2,4) [unfolded eq] and q = q1 [unfolded eq]
  from q have b: "reuses_or_adds ?v (bd s) (bd s')" by (auto split: if_splits)
  show ?thesis
  proof (cases "lun_of_volume ?v (lun_list s)")
    case (Some l)
    obtain k t v where l: "l = (k, t, v)" by (cases l)
    with Some have v: "v = ?v" "(k, t, ?v) \<in> set (lun_list s)" using lun_of_volume_Some by auto
    from q Some l have "rep = map_reply dev t" "s' = s" by (auto split: if_splits)
    with that [OF g(4) _ w b, of t k] Some l v show ?thesis by auto
  next
    case None
    with q obtain t where t: "free_target (vhost s) (lun_list s) (vhostSCSI c) scsi_targets = Some t"
      "rep = map_reply dev t" "set (lun_list s') = insert (vhostSCSI c, t, ?v) (set (lun_list s))"
      by (auto split: if_splits option.splits)
    have "lun_of_volume ?v (lun_list s') = Some (vhostSCSI c, t, ?v)"
    proof (cases "lun_of_volume ?v (lun_list s')")
      case None
      then show ?thesis using t(3) unfolding lun_of_volume_None by blast
    next
      case (Some l)
      obtain k' t' v' where l: "l = (k', t', v')" by (cases l)
      with Some have "v' = ?v" "(k', t', ?v) \<in> set (lun_list s')" using lun_of_volume_Some by auto
      with t(3) \<open>lun_of_volume ?v (lun_list s) = None\<close> Some l show ?thesis by (auto simp: lun_of_volume_None)
    qed
    with that [OF g(4) t(2) w b _ t(3)] t(1) None show ?thesis by blast
  qed
qed

lemma MapVolume_again:
  assumes "ok s" and "client_ok cl" and m: "MapVolume daemon c rq (cl, s) = (Inr rep, cl', s')"
  shows "\<exists>cl''. MapVolume daemon c rq (cl', s') = (Inr rep, cl'', s')"
proof -
  from MapVolume_Inr [OF assms] obtain dev k t where r: "vhostDev c = Some dev" "rep = map_reply dev t"
    "client_ok cl'" "ok s'" "reuses_or_adds (VolumeId rq) (bd s) (bd s')"
    "lun_of_volume (VolumeId rq) (lun_list s') = Some (k, t, VolumeId rq)" by metis
  from MapVolume_guards [OF m] have "VolumeId rq \<noteq> []" "hasSPDK c" "vhostSCSI c \<noteq> []" by blast+
  from MapVolume_law [OF r(4,3) this r(1)] r(2,6) reuses_or_adds_facts(1) [OF r(5)] show ?thesis by auto
qed

end

section \<open>Properties\<close>

lemma length_scsi_targets: "length scsi_targets = 8"
  by (simp add: scsi_targets_def)

lemma scsi_targets_nth: "i < 8 \<Longrightarrow> scsi_targets ! i = word_of_nat i"
  by (auto simp: scsi_targets_def less_Suc_eq numeral_eq_Suc)

lemma free_target_Some:
  assumes "free_target vs ls k scsi_targets = Some t"
  shows "k \<in> vs" and "unat t < 8" and "(k, t, b) \<notin> set ls" and "t' < t \<Longrightarrow> \<exists>b. (k, t', b) \<in> set ls"
proof -
  let ?P = "\<lambda>t. k \<in> vs \<and> \<not> (\<exists>b. (k, t, b) \<in> set ls)"
  from assms obtain i where i: "i < 8" "?P t" "t = scsi_targets ! i" and
    before: "\<And>j. j < i \<Longrightarrow> \<not> ?P (scsi_targets ! j)"
    unfolding free_target_def find_Some_iff length_scsi_targets by blast
  have t: "t = word_of_nat i" "unat t = i"
    using i(1,3) by (simp_all add: scsi_targets_nth unsigned_of_nat take_bit_nat_eq_self)
  show "k \<in> vs" "unat t < 8" "(k, t, b) \<notin> set ls" using i(1,2) t(2) by auto
  assume "t' < t"
  then have j: "unat t' < i" using t(2) by (simp add: word_less_nat_alt)
  with i(1) have "scsi_targets ! unat t' = t'" by (simp add: scsi_targets_nth)
  with before [OF j] i(2) show "\<exists>b. (k, t', b) \<in> set ls" by simp
qed

lemma free_target_None:
  "free_target vs ls k scsi_targets = None \<longleftrightarrow> (k \<in> vs \<longrightarrow> (\<forall>t. unat t < 8 \<longrightarrow> (\<exists>b. (k, t, b) \<in> set ls)))"
proof -
  have "t \<in> set scsi_targets \<longleftrightarrow> unat t < 8" for t
  proof
    assume "unat t < 8"
    then have "scsi_targets ! unat t = t" "unat t < length scsi_targets"
      by (simp_all add: scsi_targets_nth length_scsi_targets)
    then show "t \<in> set scsi_targets" by (metis nth_mem)
  qed (auto simp: scsi_targets_def)
  then show ?thesis by (auto simp: free_target_def find_None_iff)
qed


text \<open>
  C18. \<^verbatim>\<open>MapVolume\<close> on a configured controller succeeds exactly when the volume has a block device or
  is a Ceph volume whose image can be opened, and it is attached already or the vhost controller exists and
  one of its eight targets is free.
\<close>

theorem MapVolume_succeeds_iff:
  assumes "daemon_ok env s" and "client_ok cl" and "VolumeId rq \<noteq> []" and "hasSPDK c" and "vhostSCSI c \<noteq> []"
    and "vhostDev c = Some dev"
  shows "(\<exists>reply w. MapVolume (spdk_daemon env) c rq (cl, s) = (Inr reply, w)) \<longleftrightarrow>
    (bdevs s (VolumeId rq) \<noteq> None \<or>
       (\<exists>x. VolumeParams rq = Some (Ceph x) \<and> env_can_rbd env (ceph_request (VolumeId rq) x))) \<and>
    ((\<exists>k t. (k, t, VolumeId rq) \<in> set (luns s)) \<or>
       vhostSCSI c \<in> vhosts s \<and> (\<exists>t. unat t < 8 \<and> (\<forall>b. (vhostSCSI c, t, b) \<notin> set (luns s))))"
proof -
  let ?v = "VolumeId rq"
  let ?dev = "bdevs s ?v = None \<and> \<not> (\<exists>x. VolumeParams rq = Some (Ceph x) \<and> env_can_rbd env (ceph_request ?v x))"
  from svc.MapVolume_law [OF assms] obtain cl' s' r where
    m: "MapVolume (spdk_daemon env) c rq (cl, s) = (r, cl', s')" and
    q: "if ?dev then (\<exists>e. r = Inl e) \<and> s' = s
     else reuses_or_adds ?v (bdevs s) (bdevs s')
       \<and> (case lun_of_volume ?v (luns s) of
            Some (_, t, _) \<Rightarrow> r = Inr (map_reply dev t) \<and> s' = s
          | None \<Rightarrow> (case free_target (vhosts s) (luns s) (vhostSCSI c) scsi_targets of
                       Some t \<Rightarrow> r = Inr (map_reply dev t)
                         \<and> set (luns s') = insert (vhostSCSI c, t, ?v) (set (luns s))
                     | None \<Rightarrow> (\<exists>e. r = Inl e) \<and> set (luns s') = set (luns s)))" by blast
  let ?att = "\<exists>k t. (k, t, ?v) \<in> set (luns s)"
  let ?free = "vhostSCSI c \<in> vhosts s \<and> (\<exists>t. unat t < 8 \<and> (\<forall>b. (vhostSCSI c, t, b) \<notin> set (luns s)))"
  have att: "?att \<longleftrightarrow> lun_of_volume ?v (luns s) \<noteq> None" unfolding lun_of_volume_None by blast
  have free: "?free \<longleftrightarrow> free_target (vhosts s) (luns s) (vhostSCSI c) scsi_targets \<noteq> None"
    unfolding free_target_None by blast
  have "(\<exists>reply. r = Inr reply) \<longleftrightarrow> \<not> ?dev \<and> (?att \<or> ?free)"
  proof (cases ?dev)
    case True
    with q [unfolded if_P [OF True]] show ?thesis by auto
  next
    case False
    note q' = conjunct2 [OF q [unfolded if_not_P [OF False]]]
    have "(\<exists>reply. r = Inr reply) \<longleftrightarrow> ?att \<or> ?free"
      unfolding att free using q' by (auto split: option.splits)
    with False show ?thesis by blast
  qed
  then show ?thesis unfolding m by simp
qed

text \<open>
  C19. \<^verbatim>\<open>MapVolume\<close> is idempotent: repeating a successful call gives the same reply and leaves the state
  of the daemon as it is.
\<close>

theorem MapVolume_idempotent:
  assumes "daemon_ok env s" and "client_ok cl"
    and "MapVolume (spdk_daemon env) c rq (cl, s) = (Inr reply, cl', s')"
  shows "\<exists>cl''. MapVolume (spdk_daemon env) c rq (cl', s') = (Inr reply, cl'', s')"
  by (rule svc.MapVolume_again [OF assms])

text \<open>
  C20. \<^verbatim>\<open>UnmapVolume\<close> on a connected controller always succeeds. Afterwards no LUN of any vhost
  controller refers to the volume, the LUNs of other volumes are as before, and the block device of
  the volume is gone unless it is a Malloc device, which is kept.
\<close>

theorem UnmapVolume_spec:
  assumes "daemon_ok env s" and "client_ok cl" and "vol \<noteq> []" and "hasSPDK c"
  shows "\<exists>cl' s'. UnmapVolume (spdk_daemon env) c vol (cl, s) = (Inr (), cl', s') \<and> daemon_ok env s'
    \<and> set (luns s') = {(k, t, b) \<in> set (luns s). b \<noteq> vol}
    \<and> (\<forall>n. n \<noteq> vol \<longrightarrow> bdevs s' n = bdevs s n)
    \<and> bdevs s' vol = (case bdevs s vol of
        Some b \<Rightarrow> if ProductName b = ''Malloc disk'' then Some b else None | None \<Rightarrow> None)"
proof -
  from svc.UnmapVolume_law [OF assms] obtain cl' s' where
    u: "UnmapVolume (spdk_daemon env) c vol (cl, s) = (Inr (), cl', s')" "daemon_ok env s'"
    "set (luns s') = {l \<in> set (luns s). snd (snd l) \<noteq> vol}" and
    b: "bdevs s' = (if \<exists>b. bdevs s vol = Some b \<and> ProductName b \<noteq> ''Malloc disk'' then (bdevs s)(vol := None) else bdevs s)"
    by blast
  have "set (luns s') = {(k, t, b) \<in> set (luns s). b \<noteq> vol}" unfolding u(3) by auto
  moreover have "(\<forall>n. n \<noteq> vol \<longrightarrow> bdevs s' n = bdevs s n) \<and> bdevs s' vol = (case bdevs s vol of
        Some b \<Rightarrow> if ProductName b = ''Malloc disk'' then Some b else None | None \<Rightarrow> None)"
    unfolding b by (auto split: option.split)
  ultimately show ?thesis using u(1,2) by blast
qed

text \<open>
  C21. Mapping a Ceph volume and unmapping it again gives back the block devices and the LUNs that
  were there before, whatever else is attached.
\<close>

theorem Map_Unmap_roundtrip:
  assumes "daemon_ok env s" and "client_ok cl" and "bdevs s (VolumeId rq) = None"
    and "MapVolume (spdk_daemon env) c rq (cl, s) = (Inr reply, cl', s')"
  shows "\<exists>cl'' s''. UnmapVolume (spdk_daemon env) c (VolumeId rq) (cl', s') = (Inr (), cl'', s'')
    \<and> bdevs s'' = bdevs s \<and> set (luns s'') = set (luns s) \<and> vhosts s'' = vhosts s"
proof -
  let ?v = "VolumeId rq"
  from svc.MapVolume_Inr [OF assms(1,2,4)] obtain k t where m: "client_ok cl'" "daemon_ok env s'"
    "vhosts s' = vhosts s" "reuses_or_adds ?v (bdevs s) (bdevs s')" "set (luns s') = insert (k, t, ?v) (set (luns s))"
    by metis
  from m(4) assms(3) obtain b where b: "ProductName b = ''Ceph Rbd Disk''" "bdevs s' = (bdevs s)(?v \<mapsto> b)"
    unfolding reuses_or_adds_def by auto
  have none: "\<forall>l \<in> set (luns s). snd (snd l) \<noteq> ?v" using svc.lun_bdev [OF assms(1)] assms(3) by fastforce
  from svc.MapVolume_guards [OF assms(4)] have "?v \<noteq> []" "hasSPDK c" by blast+
  from svc.UnmapVolume_law [OF m(2,1) this] obtain cl'' s'' where
    u: "UnmapVolume (spdk_daemon env) c ?v (cl', s') = (Inr (), cl'', s'')" "vhosts s'' = vhosts s'"
      "set (luns s'') = {l \<in> set (luns s'). snd (snd l) \<noteq> ?v}" and
    ub: "bdevs s'' = (if \<exists>b. bdevs s' ?v = Some b \<and> ProductName b \<noteq> ''Malloc disk'' then (bdevs s')(?v := None) else bdevs s')"
    by blast
  have "bdevs s'' = bdevs s" unfolding ub b(2) using b(1) assms(3) by auto
  moreover have "set (luns s'') = set (luns s)" unfolding u(3) m(5) using none by auto
  ultimately show ?thesis using u(1,2) m(3) by simp
qed

text \<open>
  C23. \<^verbatim>\<open>ProvisionMallocBDev\<close> with a size: a new Malloc device of \<open>size / 512\<close> blocks is created when
  there was none of that name, an existing one is accepted exactly when it has the size, and
  otherwise the call fails with \<^verbatim>\<open>AlreadyExists\<close> and changes nothing. With size zero the
  device is deleted, with the LUNs that used it.
\<close>

theorem ProvisionMallocBDev_spec:
  assumes "daemon_ok env s" and "client_ok cl" and "n \<noteq> []" and "hasSPDK c"
  shows "\<exists>cl' s' r. ProvisionMallocBDev (spdk_daemon env) c n sz (cl, s) = (r, cl', s') \<and> daemon_ok env s' \<and>
    (if sz = 0
     then r = Inr () \<and> bdevs s' = (bdevs s)(n := None) \<and> luns s' = filter (\<lambda>(c, t, b). b \<noteq> n) (luns s)
     else luns s' = luns s \<and>
       (case bdevs s n of
          Some b \<Rightarrow> s' = s \<and> r = (if wrap64 (NumBlocks b * BlockSize b) = sz then Inr ()
            else Inl (StatusErr AlreadyExists ''Existing BDev %s has wrong size %d''
                   [n, strconv_Itoa (wrap64 (NumBlocks b * BlockSize b))]))
        | None \<Rightarrow>
            if 0 < go_div sz 512 \<and> env_alloc env (nat (go_div sz 512) * 512)
            then r = Inr () \<and> (\<exists>b. (ProductName b = ''Malloc disk'' \<and> BlockSize b = 512 \<and> NumBlocks b = go_div sz 512)
                  \<and> bdevs s' = (bdevs s)(n \<mapsto> b))
            else r = Inl (Wrap not_found ''ConstructMallocBDev'') \<and> s' = s))"
  using svc.ProvisionMallocBDev_law [OF assms, of sz] by blast

text \<open>
  A concrete daemon: one vhost controller without LUNs, one Malloc device, and a Ceph cluster with
  images of one MiB in the pool \<^verbatim>\<open>rbd\<close>.
\<close>

definition sample_env :: environment where
  "sample_env = \<lparr>env_alloc = (\<lambda>n. n \<le> 2 ^ 20), env_rbd = (\<lambda>u p i c. if p = ''rbd'' then Some (2 ^ 20) else None),
     env_nbd = (\<lambda>_. True), env_uuid = (\<lambda>n. n), env_name = (\<lambda>b s. b),
     env_vhost = (\<lambda>_ _. Inr ''1''), env_connected = (\<lambda>_. False)\<rparr>"

definition sample_spdk :: spdk where
  "sample_spdk = \<lparr>disks = [\<lparr>disk_name = ''m'', disk_product = ''Malloc disk'', disk_uuid = ''m'', blocklen = 512, blockcnt = 8\<rparr>],
     vdevs = [\<lparr>vdev_name = ''vhost.0'', vdev_cpumask = ''1'', scsi_dev_state = [None, None, None, None, None, None, None, None]\<rparr>],
     nbds = []\<rparr>"

definition sample_controller :: OIMController where
  "sample_controller = \<lparr>hasSPDK = True, vhostSCSI = ''vhost.0'', vhostDev = Some unknown_pci\<rparr>"

definition sample_map :: MapVolumeRequest where
  "sample_map = \<lparr>VolumeId = ''v'', VolumeParams = Some (Ceph
     \<lparr>UserId = ''u'', Secret = ''k'', Monitors = ''h'', Pool = ''rbd'', Image = ''i''\<rparr>)\<rparr>"

lemma sample_ok: "daemon_ok sample_env sample_spdk"
  by (simp add: daemon_ok_def spdk_inv_def env_ok_def sample_env_def sample_spdk_def SPDK_VHOST_SCSI_CTRLR_MAX_DEVS_def)

lemma sample_views: "bdevs sample_spdk ''v'' = None" "luns sample_spdk = []" "vhosts sample_spdk = {''vhost.0''}"
  "bdevs sample_spdk ''m'' = Some (bdev_view (disks sample_spdk ! 0))"
  by (simp_all add: bdevs_def luns_def vdev_luns_def vhosts_def sample_spdk_def spdk_bdev_get_by_name_def)

lemma sample_product: "ProductName (bdev_view (disks sample_spdk ! 0)) = ''Malloc disk''"
  by (simp add: bdev_view_def sample_spdk_def)

lemma sample_guards: "VolumeId sample_map = ''v''" "hasSPDK sample_controller" "vhostSCSI sample_controller = ''vhost.0''"
  "vhostDev sample_controller = Some unknown_pci"
  by (simp_all add: sample_map_def sample_controller_def)

lemma sample_rbd: "\<exists>x. VolumeParams sample_map = Some (Ceph x) \<and> env_can_rbd sample_env (ceph_request ''v'' x)"
  by (simp add: sample_map_def env_can_rbd_def ceph_request_def sample_env_def)

lemma sample_succeeds:
  obtains reply cl' s' where
    "MapVolume (spdk_daemon sample_env) sample_controller sample_map (New_client, sample_spdk) = (Inr reply, cl', s')"
proof -
  have "free_target {''vhost.0''} [] ''vhost.0'' scsi_targets = Some 0" "lun_of_volume ''v'' [] = None"
    by (simp_all add: free_target_def scsi_targets_def lun_of_volume_def)
  with svc.MapVolume_law [OF sample_ok client_ok_New, of sample_map sample_controller unknown_pci] sample_rbd that
  show ?thesis by (auto simp: sample_views sample_guards)
qed


theorem MapVolume_succeeds_iff_witness:
  "\<exists>reply w. MapVolume (spdk_daemon sample_env) sample_controller sample_map (New_client, sample_spdk) = (Inr reply, w)"
proof -
  have "\<exists>t :: uint32. unat t < 8" by (rule exI [of _ 0]) simp
  with MapVolume_succeeds_iff [OF sample_ok client_ok_New, of sample_map sample_controller unknown_pci] sample_rbd
  show ?thesis by (simp add: sample_views sample_guards)
qed

theorem MapVolume_idempotent_witness:
  "\<exists>reply cl' s' cl''. MapVolume (spdk_daemon sample_env) sample_controller sample_map (New_client, sample_spdk) = (Inr reply, cl', s')
    \<and> MapVolume (spdk_daemon sample_env) sample_controller sample_map (cl', s') = (Inr reply, cl'', s')"
  by (rule sample_succeeds) (use MapVolume_idempotent [OF sample_ok client_ok_New] in blast)

theorem UnmapVolume_spec_witness:
  "\<exists>cl' s'. UnmapVolume (spdk_daemon sample_env) sample_controller ''m'' (New_client, sample_spdk) = (Inr (), cl', s')
    \<and> bdevs s' ''m'' \<noteq> None"
proof -
  have "''m'' \<noteq> []" by simp
  from UnmapVolume_spec [OF sample_ok client_ok_New this sample_guards(2)] show ?thesis
    unfolding sample_views by (auto simp: sample_product)
qed

theorem Map_Unmap_roundtrip_witness:
  "\<exists>reply cl' s' cl'' s''. MapVolume (spdk_daemon sample_env) sample_controller sample_map (New_client, sample_spdk) = (Inr reply, cl', s')
    \<and> UnmapVolume (spdk_daemon sample_env) sample_controller ''v'' (cl', s') = (Inr (), cl'', s'')
    \<and> bdevs s'' = bdevs sample_spdk \<and> luns s'' = []"
proof -
  obtain reply cl' s' where m:
    "MapVolume (spdk_daemon sample_env) sample_controller sample_map (New_client, sample_spdk) = (Inr reply, cl', s')"
    by (rule sample_succeeds)
  have "bdevs sample_spdk (VolumeId sample_map) = None" by (simp add: sample_views sample_guards)
  from Map_Unmap_roundtrip [OF sample_ok client_ok_New this m] m show ?thesis
    unfolding sample_guards sample_views by simp blast
qed

theorem ProvisionMallocBDev_spec_witness:
  "\<exists>cl' s' e. ProvisionMallocBDev (spdk_daemon sample_env) sample_controller ''m'' 4095 (New_client, sample_spdk)
     = (Inl e, cl', s') \<and> status_code e = AlreadyExists \<and> s' = sample_spdk"
proof -
  have n: "''m'' \<noteq> []" by simp
  have "wrap64 (NumBlocks (bdev_view (disks sample_spdk ! 0)) * BlockSize (bdev_view (disks sample_spdk ! 0))) = 4096"
    by (simp add: bdev_view_def sample_spdk_def wrap64_id is_int64_def)
  with ProvisionMallocBDev_spec [OF sample_ok client_ok_New n sample_guards(2), of 4095] show ?thesis
    by (auto simp: sample_views)
qed

section \<open>Sequences of calls\<close>

text \<open>The calls a controller serves, one after the other.\<close>

datatype call = Call_Map MapVolumeRequest | Call_Unmap string | Call_Provision string int | Call_Check string

fun run_call :: "'s daemon \<Rightarrow> OIMController \<Rightarrow> call \<Rightarrow> Client \<times> 's \<Rightarrow> Client \<times> 's" where
  "run_call daemon c (Call_Map rq) w = snd (MapVolume daemon c rq w)"
| "run_call daemon c (Call_Unmap v) w = snd (UnmapVolume daemon c v w)"
| "run_call daemon c (Call_Provision n sz) w = snd (ProvisionMallocBDev daemon c n sz w)"
| "run_call daemon c (Call_Check n) w = snd (CheckMallocBDev daemon c n w)"

definition run_calls :: "'s daemon \<Rightarrow> OIMController \<Rightarrow> call list \<Rightarrow> Client \<times> 's \<Rightarrow> Client \<times> 's" where
  "run_calls daemon c = fold (run_call daemon c)"

text \<open>No volume is attached twice.\<close>

definition single_lun :: "lun list \<Rightarrow> bool" where
  "single_lun ls \<longleftrightarrow> (\<forall>k t k' t' b. (k, t, b) \<in> set ls \<longrightarrow> (k', t', b) \<in> set ls \<longrightarrow> (k, t) = (k', t'))"

lemma single_lun_subset: "single_lun ls \<Longrightarrow> set ls' \<subseteq> set ls \<Longrightarrow> single_lun ls'"
  unfolding single_lun_def by blast

context spdk_service
begin

definition good :: "Client \<times> 's \<Rightarrow> bool" where
  "good w \<longleftrightarrow> client_ok (fst w) \<and> ok (snd w) \<and> single_lun (lun_list (snd w))"

lemma MapVolume_good:
  assumes "good (cl, s)"
  shows "good (snd (MapVolume daemon c rq (cl, s))) \<and> vhost (snd (snd (MapVolume daemon c rq (cl, s)))) = vhost s"
proof (cases "VolumeId rq = [] \<or> \<not> hasSPDK c \<or> vhostSCSI c = [] \<or> vhostDev c = None")
  case True
  then have "snd (MapVolume daemon c rq (cl, s)) = (cl, s)" by (auto simp: MapVolume_def Let_def)
  with assms show ?thesis by simp
next
  case False
  then obtain dev where g: "VolumeId rq \<noteq> []" "hasSPDK c" "vhostSCSI c \<noteq> []" "vhostDev c = Some dev" by auto
  from assms have ok: "ok s" "client_ok cl" "single_lun (lun_list s)" by (simp_all add: good_def)
  obtain r cl' s' where m: "MapVolume daemon c rq (cl, s) = (r, cl', s')" by (metis prod.exhaust)
  show ?thesis
  proof (cases r)
    case (Inr rep)
    from MapVolume_Inr [OF ok(1,2) m [unfolded Inr]] obtain k t where
      r: "client_ok cl'" "ok s'" "vhost s' = vhost s" "set (lun_list s') = insert (k, t, VolumeId rq) (set (lun_list s))"
      "(k, t, VolumeId rq) \<in> set (lun_list s) \<and> s' = s \<or> lun_of_volume (VolumeId rq) (lun_list s) = None"
      by metis
    have "single_lun (lun_list s')"
      using r(4,5) ok(3) unfolding single_lun_def lun_of_volume_None by auto
    with r(1-3) m show ?thesis by (simp add: good_def)
  next
    case (Inl e)
    from MapVolume_law [OF ok(1,2) g] m Inl have r: "client_ok cl'" "ok s'" "vhost s' = vhost s"
      "set (lun_list s') = set (lun_list s)"
      by (auto split: if_splits option.splits)
    with single_lun_subset [OF ok(3), of "lun_list s'"] m show ?thesis by (simp add: good_def)
  qed
qed

lemma run_call_good:
  assumes "good (cl, s)"
  shows "good (run_call daemon c k (cl, s)) \<and> vhost (snd (run_call daemon c k (cl, s))) = vhost s"
proof -
  from assms have ok: "ok s" "client_ok cl" "single_lun (lun_list s)" by (simp_all add: good_def)
  show ?thesis
  proof (cases k)
    case (Call_Map rq)
    with MapVolume_good [OF assms] show ?thesis by simp
  next
    case (Call_Unmap v)
    show ?thesis
    proof (cases "v \<noteq> [] \<and> hasSPDK c")
      case True
      with UnmapVolume_law [OF ok(1,2)] obtain cl' s' where u: "client_ok cl'" "ok s'"
        "UnmapVolume daemon c v (cl, s) = (Inr (), cl', s')" "vhost s' = vhost s"
        "set (lun_list s') = {l \<in> set (lun_list s). snd (snd l) \<noteq> v}" by meson
      then have "single_lun (lun_list s')" using single_lun_subset [OF ok(3), of "lun_list s'"] by auto
      with u Call_Unmap show ?thesis by (simp add: good_def)
    next
      case False
      with Call_Unmap assms show ?thesis by (auto simp: UnmapVolume_def)
    qed
  next
    case (Call_Provision n sz)
    show ?thesis
    proof (cases "n \<noteq> [] \<and> hasSPDK c")
      case True
      then have n: "n \<noteq> []" "hasSPDK c" by simp_all
      from ProvisionMallocBDev_law [OF ok(1,2) this, of sz] obtain cl' s' r where u: "client_ok cl'" "ok s'"
        "ProvisionMallocBDev daemon c n sz (cl, s) = (r, cl', s')" "vhost s' = vhost s"
        "set (lun_list s') \<subseteq> set (lun_list s)" by (auto split: if_splits)
      with single_lun_subset [OF ok(3) u(5)] Call_Provision show ?thesis by (simp add: good_def)
    next
      case False
      with Call_Provision assms show ?thesis by (auto simp: ProvisionMallocBDev_def)
    qed
  next
    case (Call_Check n)
    show ?thesis
    proof (cases "n \<noteq> [] \<and> hasSPDK c")
      case True
      with CheckMallocBDev_law [OF ok(1,2)] obtain cl' where "client_ok cl'"
        "snd (CheckMallocBDev daemon c n (cl, s)) = (cl', s)" by (metis snd_conv)
      with ok Call_Check show ?thesis by (simp add: good_def)
    next
      case False
      with Call_Check assms show ?thesis by (auto simp: CheckMallocBDev_def)
    qed
  qed
qed

lemma run_calls_good:
  "good (cl, s) \<Longrightarrow> good (run_calls daemon c ks (cl, s)) \<and> vhost (snd (run_calls daemon c ks (cl, s))) = vhost s"
proof (induction ks arbitrary: cl s)
  case Nil
  then show ?case by (simp add: run_calls_def)
next
  case (Cons k ks)
  obtain cl1 s1 where k: "run_call daemon c k (cl, s) = (cl1, s1)" by fastforce
  with run_call_good [OF Cons.prems, of c k] Cons.IH [of cl1 s1] show ?case by (simp add: run_calls_def)
qed

end

text \<open>
  C22. Whatever calls a controller serves, with whatever arguments: the state of the daemon stays
  well formed, no volume is ever attached twice, and the vhost controllers stay.
\<close>

theorem run_calls_invariant:
  assumes "daemon_ok env s" and "client_ok cl" and "single_lun (luns s)"
    and "run_calls (spdk_daemon env) c ks (cl, s) = (cl', s')"
  shows "daemon_ok env s' \<and> client_ok cl' \<and> single_lun (luns s') \<and> vhosts s' = vhosts s"
  using svc.run_calls_good [of env cl s c ks] assms unfolding svc.good_def by auto

theorem run_calls_invariant_witness:
  "\<exists>cl' s'. run_calls (spdk_daemon sample_env) sample_controller
     [Call_Map sample_map, Call_Unmap ''v'', Call_Map sample_map, Call_Provision ''m'' 0] (New_client, sample_spdk) = (cl', s')
   \<and> single_lun (luns s')"
proof -
  let ?ks = "[Call_Map sample_map, Call_Unmap ''v'', Call_Map sample_map, Call_Provision ''m'' 0]"
  obtain cl' s' where r: "run_calls (spdk_daemon sample_env) sample_controller ?ks (New_client, sample_spdk) = (cl', s')"
    by fastforce
  have "single_lun (luns sample_spdk)" by (simp add: sample_views single_lun_def)
  from run_calls_invariant [OF sample_ok client_ok_New this r] r show ?thesis by blast
qed

text \<open>
  C24. A second, identical \<^verbatim>\<open>ProvisionMallocBDev\<close> after one that created the device is accepted
  exactly when the size is a multiple of the block size of 512 bytes; otherwise it fails with
  \<^verbatim>\<open>AlreadyExists\<close>, because the device was rounded down to whole blocks.
\<close>

theorem ProvisionMallocBDev_twice:
  assumes "daemon_ok env s" and "client_ok cl" and "is_int64 sz" and "sz \<noteq> 0" and "bdevs s n = None"
    and "ProvisionMallocBDev (spdk_daemon env) c n sz (cl, s) = (Inr (), cl', s')"
  shows "\<exists>cl''. ProvisionMallocBDev (spdk_daemon env) c n sz (cl', s') =
    ((if 512 dvd sz then Inr ()
      else Inl (StatusErr AlreadyExists ''Existing BDev %s has wrong size %d'' [n, strconv_Itoa (sz div 512 * 512)])), cl'', s')"
proof -
  have g: "n \<noteq> []" "hasSPDK c" using assms(6) by (auto simp: ProvisionMallocBDev_def split: if_splits)
  from svc.ProvisionMallocBDev_law [OF assms(1,2) g, of sz] assms(4-6) obtain b where
    r: "daemon_ok env s'" "client_ok cl'" "0 < go_div sz 512" and
    b: "BlockSize b = 512" "NumBlocks b = go_div sz 512" "bdevs s' n = Some b"
    by (auto split: if_splits)
  have d: "go_div sz 512 = sz div 512" "0 < sz"
  proof -
    show pos: "0 < sz"
    proof (rule ccontr)
      assume "\<not> 0 < sz"
      then have "sz sdiv 512 \<le> 0 \<and> - (2 ^ 63) \<le> sz sdiv 512" using assms(3)
        by (auto simp: signed_divide_int_def sgn_if is_int64_def)
      then show False using r(3) by (simp add: go_div_def wrap64_id is_int64_def)
    qed
    then have "is_int64 (sz div 512)" using assms(3) is_int64_div by simp
    with pos show "go_div sz 512 = sz div 512" by (simp add: go_div_def sdiv_pos wrap64_id)
  qed
  have "is_int64 (sz div 512 * 512)" using assms(3) d(2) is_int64_div by simp
  then have w: "wrap64 (NumBlocks b * BlockSize b) = sz div 512 * 512" by (simp add: b d wrap64_id)
  have "sz div 512 * 512 = sz \<longleftrightarrow> 512 dvd sz" by (metis dvd_div_mult_self dvd_triv_right)
  with svc.ProvisionMallocBDev_law [OF r(1,2) g, of sz] assms(4) b(3) w show ?thesis by auto
qed

theorem ProvisionMallocBDev_twice_witness:
  "\<exists>cl' s' cl''. ProvisionMallocBDev (spdk_daemon sample_env) sample_controller ''n'' 1000 (New_client, sample_spdk) = (Inr (), cl', s')
    \<and> ProvisionMallocBDev (spdk_daemon sample_env) sample_controller ''n'' 1000 (cl', s') =
       (Inl (StatusErr AlreadyExists ''Existing BDev %s has wrong size %d'' [''n'', ''512'']), cl'', s')"
proof -
  have n: "''n'' \<noteq> []" and i: "is_int64 1000" "1000 \<noteq> (0 :: int)" by (simp_all add: is_int64_def)
  have b: "bdevs sample_spdk ''n'' = None" by (simp add: bdevs_def sample_spdk_def spdk_bdev_get_by_name_def)
  have "go_div 1000 512 = 1" by (simp add: go_div_def sdiv_pos wrap64_id is_int64_def)
  moreover have "env_alloc sample_env 512" by (simp add: sample_env_def)
  ultimately obtain cl' s' where
    p: "ProvisionMallocBDev (spdk_daemon sample_env) sample_controller ''n'' 1000 (New_client, sample_spdk) = (Inr (), cl', s')"
    using svc.ProvisionMallocBDev_law [OF sample_ok client_ok_New n sample_guards(2), of 1000] b by auto
  have "\<not> 512 dvd (1000 :: int)" and "strconv_Itoa (1000 div 512 * 512) = ''512''" by code_simp+
  with ProvisionMallocBDev_twice [OF sample_ok client_ok_New i b p] p show ?thesis by auto
qed

end
