(* ===== verification/Csi_Types.thy ===== *)
theory Csi_Types
  imports Oim_Prelude
begin

text \<open>
  The messages of the Container Storage Interface that the driver handles. Versions 1.0
  (\<^verbatim>\<open>github.com/container-storage-interface/spec\<close>) and 0.3 (\<^verbatim>\<open>pkg/spec/csi/v0\<close>) have the same
  structure wherever a field is read by both handlers; what only one of them has says so.
  A message that may be absent is an \<open>option\<close>, and a repeated field is a list that is empty
  when the field is absent (\<^verbatim>\<open>nil\<close>), as the decoder of protocol buffers produces it. The
  \<^verbatim>\<open>Get\<close> accessors return the zero value for an absent message.
\<close>

type_synonym go_smap = "string \<rightharpoonup> string"

text \<open>Enumerations of protocol buffers are open: a value without a name is kept as its number.\<close>

datatype AccessMode = UNKNOWN | SINGLE_NODE_WRITER | SINGLE_NODE_READER_ONLY | MULTI_NODE_READER_ONLY
  | MULTI_NODE_SINGLE_WRITER | MULTI_NODE_MULTI_WRITER | OtherMode string

fun mode_String :: "AccessMode \<Rightarrow> string" where
  "mode_String UNKNOWN = ''UNKNOWN''"
| "mode_String SINGLE_NODE_WRITER = ''SINGLE_NODE_WRITER''"
| "mode_String SINGLE_NODE_READER_ONLY = ''SINGLE_NODE_READER_ONLY''"
| "mode_String MULTI_NODE_READER_ONLY = ''MULTI_NODE_READER_ONLY''"
| "mode_String MULTI_NODE_SINGLE_WRITER = ''MULTI_NODE_SINGLE_WRITER''"
| "mode_String MULTI_NODE_MULTI_WRITER = ''MULTI_NODE_MULTI_WRITER''"
| "mode_String (OtherMode n) = n"

record MountVolume =
  FsType :: string
  MountFlags :: "string list"

datatype access_type = BlockVolume | MountAccess MountVolume

record VolumeCapability =
  AccessType :: "access_type option"
  CapAccessMode :: "AccessMode option"

definition GetBlock :: "VolumeCapability \<Rightarrow> bool" where
  "GetBlock c \<longleftrightarrow> AccessType c = Some BlockVolume"

definition GetMount :: "VolumeCapability \<Rightarrow> MountVolume option" where
  "GetMount c = (case AccessType c of Some (MountAccess m) \<Rightarrow> Some m | _ \<Rightarrow> None)"

definition GetMode :: "VolumeCapability \<Rightarrow> AccessMode" where
  "GetMode c = (case CapAccessMode c of None \<Rightarrow> UNKNOWN | Some m \<Rightarrow> m)"

definition GetFsType :: "MountVolume option \<Rightarrow> string" where
  "GetFsType m = (case m of None \<Rightarrow> [] | Some m \<Rightarrow> FsType m)"

record CreateVolumeRequest =
  CreateName :: string
  RequiredBytes :: int
  CreateCapabilities :: "VolumeCapability list"
  Parameters :: go_smap
  VolumeContentSource :: bool

text \<open>\<open>Attributes\<close> is a field of version 0.3 only.\<close>

record CsiVolume =
  CsiVolumeId :: string
  CapacityBytes :: int

record CsiVolume0 = CsiVolume +
  Attributes :: go_smap

record ValidateVolumeCapabilitiesRequest =
  ValidateVolumeId :: string
  VolumeContext :: go_smap
  ValidateCapabilities :: "VolumeCapability list"
  ValidateParameters :: go_smap

record Confirmed =
  ConfirmedContext :: go_smap
  ConfirmedCapabilities :: "VolumeCapability list"
  ConfirmedParameters :: go_smap

record ValidateVolumeCapabilitiesResponse =
  ConfirmedField :: "Confirmed option"
  ValidateMessage :: string

record ValidateVolumeCapabilitiesResponse0 =
  Supported :: bool
  Message0 :: string

text \<open>\<open>Secrets\<close> and the volume's context are called \<^verbatim>\<open>NodeStageSecrets\<close> and \<^verbatim>\<open>VolumeAttributes\<close> in version 0.3.\<close>

record NodeStageVolumeRequest =
  StageVolumeId :: string
  StagingTargetPath :: string
  StageCapability :: "VolumeCapability option"
  NodeStageSecrets :: go_smap
  VolumeAttributes :: go_smap

record NodePublishVolumeRequest =
  PublishVolumeId :: string
  PublishStagingTargetPath :: string
  PublishTargetPath :: string
  PublishCapability :: "VolumeCapability option"
  Readonly :: bool

text \<open>The value of the Go interface that a backend receives: a request of one of the two versions.\<close>

datatype csi_request = CSI03 NodeStageVolumeRequest | CSI10 NodeStageVolumeRequest

datatype controller_capability = UNKNOWN_CAP | CREATE_DELETE_VOLUME | PUBLISH_UNPUBLISH_VOLUME | LIST_VOLUMES
  | GET_CAPACITY | CREATE_DELETE_SNAPSHOT | LIST_SNAPSHOTS

datatype node_capability = STAGE_UNSTAGE_VOLUME

datatype plugin_capability = CONTROLLER_SERVICE

end
