(* ===== verification/Csi_Ceph.thy ===== *)
theory Csi_Ceph
  imports Volume_Controller Csi_Types
begin

text \<open>
  The emulation of the Ceph CSI driver (\<^verbatim>\<open>pkg/oim-csi-driver/ceph-csi.go\<close>): how the parameters of a
  request to stage a volume become the parameters of \<^verbatim>\<open>MapVolume\<close>. Go maps of strings are
  partial functions, because the code only looks keys up.
\<close>

section \<open>Definitions\<close>

record rbdVolume =
  VolName :: string
  VolID :: string
  rbd_Monitors :: string
  MonValueFromSecret :: string
  rbd_Pool :: string
  AdminID :: string
  rbd_UserID :: string

definition rbdDefaultAdminID :: string where "rbdDefaultAdminID = ''admin''"
definition rbdDefaultUserID :: string where "rbdDefaultUserID = rbdDefaultAdminID"

definition lookup_default :: "go_smap \<Rightarrow> string \<Rightarrow> string \<Rightarrow> string" where
  "lookup_default m k d = (case m k of None \<Rightarrow> d | Some v \<Rightarrow> v)"

definition getRBDVolumeOptions :: "go_smap \<Rightarrow> rbdVolume result" where
  "getRBDVolumeOptions volOptions =
     (case volOptions ''pool'' of
        None \<Rightarrow> Inl (ErrText ''Missing required parameter pool'')
      | Some pool \<Rightarrow>
          (case (case volOptions ''monitors'' of
                   Some m \<Rightarrow> Inr (m, [])
                 | None \<Rightarrow>
                     (case volOptions ''monValueFromSecret'' of
                        None \<Rightarrow> Inl (ErrText ''Either monitors or monValueFromSecret must be set'')
                      | Some v \<Rightarrow> Inr ([], v))) of
             Inl err \<Rightarrow> Inl err
           | Inr (monitors, fromSecret) \<Rightarrow>
               Inr \<lparr>VolName = [], VolID = [], rbd_Monitors = monitors, MonValueFromSecret = fromSecret, rbd_Pool = pool,
                    AdminID = lookup_default volOptions ''adminid'' rbdDefaultAdminID,
                    rbd_UserID = lookup_default volOptions ''userid'' rbdDefaultUserID\<rparr>))"

definition getRBDKey :: "string \<Rightarrow> go_smap \<Rightarrow> string result" where
  "getRBDKey i credentials =
     (case credentials i of
        Some key \<Rightarrow> Inr key
      | None \<Rightarrow> Inl (Errorf ''RBD key for ID: %s not found'' [i]))"

definition getMon :: "rbdVolume \<Rightarrow> go_smap \<Rightarrow> string result" where
  "getMon pOpts credentials =
     (let mon = rbd_Monitors pOpts in
      if length mon = 0
      then (if length (MonValueFromSecret pOpts) = 0
            then Inl (ErrText ''either monitors or monValueFromSecret must be set'')
            else (case credentials (MonValueFromSecret pOpts) of
                    None \<Rightarrow> Inl (Errorf ''mon data %s is not set in secret'' [MonValueFromSecret pOpts])
                  | Some val \<Rightarrow> Inr val))
      else Inr mon)"

text \<open>The request \<^verbatim>\<open>to\<close> is returned with its parameters replaced.\<close>

definition mapCephVolumeParams :: "NodeStageVolumeRequest \<Rightarrow> MapVolumeRequest \<Rightarrow> MapVolumeRequest result" where
  "mapCephVolumeParams from to =
     (let targetPath = StagingTargetPath from in
      if \<not> strings_HasSuffix targetPath ''/globalmount''
      then Inl (Errorf ''malformed value of target path: %s'' [targetPath])
      else let s = strings_Split (strings_TrimSuffix targetPath ''/globalmount'') (CHR ''/'');
               volName = s ! (length s - 1)
           in (case getRBDVolumeOptions (VolumeAttributes from) of
                 Inl err \<Rightarrow> Inl err
               | Inr volOptions \<Rightarrow>
                   let userID = rbd_UserID volOptions; credentials = NodeStageSecrets from in
                   (case getMon volOptions credentials of
                      Inl err \<Rightarrow> Inl err
                    | Inr mon \<Rightarrow>
                        (case getRBDKey userID credentials of
                           Inl err \<Rightarrow> Inl err
                         | Inr key \<Rightarrow>
                             Inr (to\<lparr>VolumeParams := Some (Ceph
                               \<lparr>UserId = userID, Secret = key, Monitors = mon,
                                Pool = rbd_Pool volOptions, Image = volName\<rparr>)\<rparr>)))))"

section \<open>Lemmas\<close>

text \<open>The last element of a path.\<close>

lemma Split_last:
  assumes "c \<notin> set v"
  shows "(let s = strings_Split (u @ c # v) c in s ! (length s - 1)) = v"
proof -
  let ?xs = "strings_Split u c @ [v]"
  have no: "c \<notin> set x" if "x \<in> set (strings_Split u c)" for x
    using split_loop_no_sep [of c "[]" x u] that by (simp add: strings_Split_def)
  have "u @ c # v = strings_Join ?xs [c]" by (simp add: Join_append Join_Split)
  then have "strings_Split (u @ c # v) c = ?xs"
    using Split_Join [of ?xs c] assms no by auto
  then show ?thesis by (simp add: Let_def)
qed

text \<open>
  The monitors as the attributes and the secrets of the request give them: directly, or else
  through the name of a secret; an empty value of the attribute counts as missing for \<^verbatim>\<open>getMon\<close>
  but not for \<^verbatim>\<open>getRBDVolumeOptions\<close>, so it cannot be made up for by a secret.
\<close>

definition ceph_monitors :: "go_smap \<Rightarrow> go_smap \<Rightarrow> string option" where
  "ceph_monitors attributes secrets =
     (case attributes ''monitors'' of
        Some m \<Rightarrow> if m = [] then None else Some m
      | None \<Rightarrow> (case attributes ''monValueFromSecret'' of
                  Some n \<Rightarrow> if n = [] then None else secrets n
                | None \<Rightarrow> None))"

lemma getMon_options:
  assumes "getRBDVolumeOptions attributes = Inr v"
  shows "getMon v secrets = Inr mon \<longleftrightarrow> ceph_monitors attributes secrets = Some mon"
  using assms
  by (auto simp: getRBDVolumeOptions_def getMon_def ceph_monitors_def Let_def split: option.splits sum.splits if_splits)

lemma getRBDVolumeOptions_fields:
  assumes "getRBDVolumeOptions attributes = Inr v"
  shows "attributes ''pool'' = Some (rbd_Pool v)"
    and "rbd_UserID v = lookup_default attributes ''userid'' ''admin''"
  using assms
  by (auto simp: getRBDVolumeOptions_def rbdDefaultUserID_def rbdDefaultAdminID_def split: option.splits sum.splits)

lemma getRBDVolumeOptions_ok:
  "attributes ''pool'' = Some p \<Longrightarrow> ceph_monitors attributes secrets = Some m \<Longrightarrow>
   \<exists>v. getRBDVolumeOptions attributes = Inr v"
  by (auto simp: getRBDVolumeOptions_def ceph_monitors_def split: option.splits)

section \<open>Properties\<close>

text \<open>
  C29. Staging a Ceph volume maps the image that the staging path names: for a path
  \<open>dir/name/globalmount\<close> the parameters are accepted exactly when there is a pool, the monitors are
  given directly or by a secret, and there is a key for the user, and they are then these
  values with the name as image; a path without that suffix is always refused.
\<close>

theorem mapCephVolumeParams_spec:
  "(\<not> strings_HasSuffix (StagingTargetPath from) ''/globalmount'' \<longrightarrow> isl (mapCephVolumeParams from to)) \<and>
   (StagingTargetPath from = dir @ ''/'' @ name @ ''/globalmount'' \<and> CHR ''/'' \<notin> set name \<longrightarrow>
    (mapCephVolumeParams from to = Inr to' \<longleftrightarrow>
      (\<exists>pool mon key user. VolumeAttributes from ''pool'' = Some pool
         \<and> ceph_monitors (VolumeAttributes from) (NodeStageSecrets from) = Some mon
         \<and> user = lookup_default (VolumeAttributes from) ''userid'' ''admin''
         \<and> NodeStageSecrets from user = Some key
         \<and> to' = to\<lparr>VolumeParams := Some (Ceph \<lparr>UserId = user, Secret = key, Monitors = mon, Pool = pool, Image = name\<rparr>)\<rparr>)))"
proof (intro conjI impI)
  show "isl (mapCephVolumeParams from to)" if "\<not> strings_HasSuffix (StagingTargetPath from) ''/globalmount''"
    using that by (simp add: mapCephVolumeParams_def)
next
  assume a: "StagingTargetPath from = dir @ ''/'' @ name @ ''/globalmount'' \<and> CHR ''/'' \<notin> set name"
  let ?at = "VolumeAttributes from" and ?se = "NodeStageSecrets from"
  have p: "StagingTargetPath from = (dir @ CHR ''/'' # name) @ ''/globalmount''" using a by simp
  have suf: "strings_HasSuffix (StagingTargetPath from) ''/globalmount''"
    unfolding strings_HasSuffix_iff using p by blast
  have trim: "strings_TrimSuffix (StagingTargetPath from) ''/globalmount'' = dir @ CHR ''/'' # name"
    unfolding p by (rule strings_TrimSuffix_append)
  have vol: "(let s = strings_Split (dir @ CHR ''/'' # name) (CHR ''/'') in s ! (length s - 1)) = name"
    using a by (intro Split_last) simp
  have *: "mapCephVolumeParams from to =
     (case getRBDVolumeOptions ?at of Inl err \<Rightarrow> Inl err
      | Inr v \<Rightarrow> (case getMon v ?se of Inl err \<Rightarrow> Inl err
         | Inr mon \<Rightarrow> (case getRBDKey (rbd_UserID v) ?se of Inl err \<Rightarrow> Inl err
            | Inr key \<Rightarrow> Inr (to\<lparr>VolumeParams := Some (Ceph \<lparr>UserId = rbd_UserID v, Secret = key,
                Monitors = mon, Pool = rbd_Pool v, Image = name\<rparr>)\<rparr>))))"
    using suf unfolding mapCephVolumeParams_def Let_def trim vol [unfolded Let_def] by simp
  show "mapCephVolumeParams from to = Inr to' \<longleftrightarrow>
      (\<exists>pool mon key user. ?at ''pool'' = Some pool \<and> ceph_monitors ?at ?se = Some mon
         \<and> user = lookup_default ?at ''userid'' ''admin'' \<and> ?se user = Some key
         \<and> to' = to\<lparr>VolumeParams := Some (Ceph \<lparr>UserId = user, Secret = key, Monitors = mon, Pool = pool, Image = name\<rparr>)\<rparr>)"
    (is "?L \<longleftrightarrow> ?R")
  proof (cases "getRBDVolumeOptions ?at")
    case (Inl e)
    then have "\<not> ?R" using getRBDVolumeOptions_ok [of ?at _ ?se] by fastforce
    then show ?thesis using Inl * by simp
  next
    case (Inr v)
    note f = getRBDVolumeOptions_fields [OF Inr] and g = getMon_options [OF Inr, of ?se]
    show ?thesis
    proof (cases "getMon v ?se")
      case (Inl e)
      then have "ceph_monitors ?at ?se = None" using g by (metis Inl_Inr_False option.exhaust)
      then show ?thesis using Inl Inr * by simp
    next
      case (Inr mon)
      then have "ceph_monitors ?at ?se = Some mon" using g by simp
      then show ?thesis using Inr \<open>getRBDVolumeOptions ?at = Inr v\<close> f *
        by (auto simp: getRBDKey_def split: option.splits)
    qed
  qed
qed

definition sample_stage :: NodeStageVolumeRequest where
  "sample_stage = \<lparr>StageVolumeId = ''pvc-1-id'', StagingTargetPath = ''/k/pvc-1/globalmount'',
     StageCapability = Some \<lparr>AccessType = Some (MountAccess \<lparr>FsType = ''ext4'', MountFlags = []\<rparr>), CapAccessMode = Some SINGLE_NODE_WRITER\<rparr>,
     NodeStageSecrets = [''monitors'' \<mapsto> ''h:6789'', ''kubernetes'' \<mapsto> ''key''],
     VolumeAttributes = [''pool'' \<mapsto> ''rbd'', ''monValueFromSecret'' \<mapsto> ''monitors'', ''userid'' \<mapsto> ''kubernetes'']\<rparr>"

theorem mapCephVolumeParams_spec_witness:
  "mapCephVolumeParams sample_stage sample_map = Inr (sample_map\<lparr>VolumeParams := Some (Ceph
     \<lparr>UserId = ''kubernetes'', Secret = ''key'', Monitors = ''h:6789'', Pool = ''rbd'', Image = ''pvc-1''\<rparr>)\<rparr>)"
proof -
  have "StagingTargetPath sample_stage = ''/k'' @ ''/'' @ ''pvc-1'' @ ''/globalmount'' \<and> CHR ''/'' \<notin> set ''pvc-1''"
    by (simp add: sample_stage_def)
  from conjunct2 [OF mapCephVolumeParams_spec [of sample_stage sample_map "''/k''" "''pvc-1''"], rule_format, OF this]
  show ?thesis by (simp add: sample_stage_def ceph_monitors_def lookup_default_def)
qed

end
