(* ===== verification/Key_Mutex.thy ===== *)
theory Key_Mutex
  imports Oim_Prelude
begin

unbundle bit_operations_syntax

text \<open>
  The lock table that serialises CSI calls per volume (\<^verbatim>\<open>pkg/oim-csi-driver/serialize.go\<close>), a
  hashed key mutex (\<^verbatim>\<open>vendor/k8s.io/utils/keymutex/hashed.go\<close>). A mutex is the flag that tells
  whether it is held; locking a held mutex blocks (\<open>None\<close>) and unlocking a free one is a
  fatal error of the Go runtime (\<open>Panic\<close>). Concurrent calls are a step relation over
  which mutual exclusion and the absence of deadlocks are proved.
\<close>

section \<open>Definitions\<close>

record KeyMutex =
  mutexes :: "bool list"

definition NewHashed :: "nat \<Rightarrow> int \<Rightarrow> KeyMutex" where
  "NewHashed NumCPU n =
     (let n = (if n \<le> 0 then int NumCPU else n) in \<lparr>mutexes = replicate (nat n) False\<rparr>)"

text \<open>\<^verbatim>\<open>fnv.New32a\<close> of the standard library: FNV-1a on 32 bits.\<close>

definition fnv_byte :: "uint32 \<Rightarrow> char \<Rightarrow> uint32" where
  "fnv_byte h c = (h XOR of_nat (of_char c)) * 16777619"

definition fnv32a :: "string \<Rightarrow> uint32" where
  "fnv32a bs = foldl fnv_byte 2166136261 bs"

text \<open>\<^verbatim>\<open>int\<close> has 64 bits, so the conversion from \<^verbatim>\<open>uint32\<close> never gives a negative number.\<close>

definition km_hash :: "string \<Rightarrow> nat" where
  "km_hash i = unat (fnv32a i)"

definition km_index :: "string \<Rightarrow> KeyMutex \<Rightarrow> nat" where
  "km_index i km = km_hash i mod length (mutexes km)"

definition LockKey :: "string \<Rightarrow> KeyMutex \<Rightarrow> KeyMutex option" where
  "LockKey i km =
     (let k = km_index i km in
      if mutexes km ! k then None else Some (km\<lparr>mutexes := (mutexes km)[k := True]\<rparr>))"

definition UnlockKey :: "string \<Rightarrow> KeyMutex \<Rightarrow> KeyMutex outcome" where
  "UnlockKey i km =
     (let k = km_index i km in
      if mutexes km ! k then Ret (km\<lparr>mutexes := (mutexes km)[k := False]\<rparr>) else Panic)"

definition volumeNameMutex :: "nat \<Rightarrow> KeyMutex" where
  "volumeNameMutex NumCPU = NewHashed NumCPU (- 1)"

text \<open>
  The pattern of every CSI call, \<^verbatim>\<open>volumeNameMutex.LockKey(name)\<close> followed by the deferred
  \<^verbatim>\<open>UnlockKey(name)\<close>: \<open>body\<close> is the rest of the call.
\<close>

definition with_key ::
  "string \<Rightarrow> ('w \<Rightarrow> ('a \<times> 'w) outcome option) \<Rightarrow> KeyMutex \<times> 'w \<Rightarrow> ('a \<times> KeyMutex \<times> 'w) outcome option" where
  "with_key name body = (\<lambda>(km, w).
     case LockKey name km of
       None \<Rightarrow> None
     | Some km \<Rightarrow>
         (case body w of
            None \<Rightarrow> None
          | Some Panic \<Rightarrow> Some Panic
          | Some (Ret (r, w)) \<Rightarrow>
              (case UnlockKey name km of
                 Panic \<Rightarrow> Some Panic
               | Ret km \<Rightarrow> Some (Ret (r, km, w)))))"

text \<open>
  Concurrent calls. A thread is idle, has asked for the lock of a key, or is between
  \<^verbatim>\<open>LockKey\<close> and \<^verbatim>\<open>UnlockKey\<close> of a key.
\<close>

datatype phase = Idle | Waiting string | Critical string

type_synonym lock_state = "(nat \<Rightarrow> phase) \<times> KeyMutex"

inductive km_step :: "lock_state \<Rightarrow> lock_state \<Rightarrow> bool" where
  call: "th t = Idle \<Longrightarrow> km_step (th, km) (th(t := Waiting k), km)"
| lock: "th t = Waiting k \<Longrightarrow> LockKey k km = Some km' \<Longrightarrow> km_step (th, km) (th(t := Critical k), km')"
| unlock: "th t = Critical k \<Longrightarrow> UnlockKey k km = Ret km' \<Longrightarrow> km_step (th, km) (th(t := Idle), km')"

definition km_start :: "nat \<Rightarrow> lock_state" where
  "km_start NumCPU = (\<lambda>_. Idle, volumeNameMutex NumCPU)"

inductive_cases km_stepE: "km_step s s'"

section \<open>Lemmas\<close>

definition km_ok :: "KeyMutex \<Rightarrow> bool" where
  "km_ok km \<longleftrightarrow> mutexes km \<noteq> []"

lemma km_index_less: "km_ok km \<Longrightarrow> km_index k km < length (mutexes km)"
  by (simp add: km_ok_def km_index_def)

lemma km_ok_start: "0 < n \<Longrightarrow> km_ok (volumeNameMutex n)"
  by (simp add: km_ok_def volumeNameMutex_def NewHashed_def)

lemma LockKey_Some:
  "LockKey k km = Some km' \<longleftrightarrow> \<not> mutexes km ! km_index k km
     \<and> km' = km\<lparr>mutexes := (mutexes km)[km_index k km := True]\<rparr>"
  by (auto simp: LockKey_def Let_def)

lemma UnlockKey_Ret:
  "UnlockKey k km = Ret km' \<longleftrightarrow> mutexes km ! km_index k km
     \<and> km' = km\<lparr>mutexes := (mutexes km)[km_index k km := False]\<rparr>"
  by (auto simp: UnlockKey_def Let_def)

text \<open>Locking and unlocking restores the table, so a call that returns leaves no lock behind.\<close>

lemma LockKey_UnlockKey:
  assumes "km_ok km" and "LockKey k km = Some km'"
  shows "UnlockKey k km' = Ret km"
proof -
  have k: "km_index k km < length (mutexes km)" using assms(1) by (rule km_index_less)
  have "km_index k km' = km_index k km" using assms(2) by (auto simp: LockKey_Some km_index_def)
  moreover have "(mutexes km)[km_index k km := False] = mutexes km"
    using assms(2) by (metis (full_types) LockKey_Some list_update_id)
  ultimately show ?thesis
    using assms(2) k by (auto simp: UnlockKey_Ret LockKey_Some)
qed

lemma with_key_cases:
  assumes "km_ok km"
  shows "with_key name body (km, w) =
     (if mutexes km ! km_index name km then None
      else map_option (\<lambda>r. case r of Panic \<Rightarrow> Panic | Ret (x, w) \<Rightarrow> Ret (x, km, w)) (body w))"
proof (cases "LockKey name km")
  case None
  then show ?thesis by (simp add: with_key_def LockKey_def Let_def split: if_splits)
next
  case (Some km')
  moreover have "\<not> mutexes km ! km_index name km" using Some by (simp add: LockKey_Some)
  ultimately show ?thesis using LockKey_UnlockKey [OF assms Some]
    by (auto simp: with_key_def split: option.split outcome.split)
qed

text \<open>A mutex is held exactly while one thread is in a critical section that hashes to it.\<close>

definition holds :: "lock_state \<Rightarrow> nat \<Rightarrow> nat \<Rightarrow> bool" where
  "holds s t i \<longleftrightarrow> (\<exists>k. fst s t = Critical k \<and> km_index k (snd s) = i)"

definition km_inv :: "lock_state \<Rightarrow> bool" where
  "km_inv s \<longleftrightarrow> km_ok (snd s)
     \<and> (\<forall>i < length (mutexes (snd s)). mutexes (snd s) ! i \<longleftrightarrow> (\<exists>t. holds s t i))
     \<and> (\<forall>t t' i. holds s t i \<longrightarrow> holds s t' i \<longrightarrow> t = t')"

lemma km_index_update [simp]: "km_index k (km\<lparr>mutexes := (mutexes km)[i := b]\<rparr>) = km_index k km"
  by (simp add: km_index_def)

lemma holds_update:
  "holds (th(t := p), km\<lparr>mutexes := (mutexes km)[i := b]\<rparr>) t' j \<longleftrightarrow>
     (if t' = t then \<exists>k. p = Critical k \<and> km_index k km = j else holds (th, km) t' j)"
  by (simp add: holds_def)

lemma holds_call: "holds (th(t := p), km) t' j \<longleftrightarrow>
     (if t' = t then \<exists>k. p = Critical k \<and> km_index k km = j else holds (th, km) t' j)"
  by (simp add: holds_def)

lemma km_inv_lock:
  assumes "km_inv (th, km)" and "th t = Waiting k" and "LockKey k km = Some km'"
  shows "km_inv (th(t := Critical k), km')"
proof -
  let ?i = "km_index k km"
  have "?i < length (mutexes km)" and free: "\<not> mutexes km ! ?i"
    and km': "km' = km\<lparr>mutexes := (mutexes km)[?i := True]\<rparr>"
    using assms by (simp_all add: km_inv_def km_index_less LockKey_Some)
  moreover have "\<not> holds (th, km) t' ?i" for t'
    using assms(1) free calculation(1) by (auto simp: km_inv_def)
  moreover have "\<not> holds (th, km) t j" for j using assms(2) by (simp add: holds_def)
  ultimately show ?thesis
    using assms(1) unfolding km_inv_def km' holds_update
    by (auto simp: km_ok_def nth_list_update) metis
qed

lemma km_inv_unlock:
  assumes "km_inv (th, km)" and "th t = Critical k" and "UnlockKey k km = Ret km'"
  shows "km_inv (th(t := Idle), km')"
proof -
  let ?i = "km_index k km"
  have "?i < length (mutexes km)" and km': "km' = km\<lparr>mutexes := (mutexes km)[?i := False]\<rparr>"
    using assms by (simp_all add: km_inv_def km_index_less UnlockKey_Ret)
  moreover have "holds (th, km) t j \<longleftrightarrow> j = ?i" for j using assms(2) by (auto simp: holds_def)
  ultimately show ?thesis
    using assms(1) unfolding km_inv_def km' holds_update
    by (auto simp: km_ok_def nth_list_update) metis
qed

lemma km_inv_step: "km_step s s' \<Longrightarrow> km_inv s \<Longrightarrow> km_inv s'"
proof (induction rule: km_step.induct)
  case (call th t km k)
  then have "holds (th(t := Waiting k), km) t' j \<longleftrightarrow> holds (th, km) t' j" for t' j
    by (auto simp: holds_call holds_def)
  then show ?case using call.prems by (simp add: km_inv_def)
qed (rule km_inv_lock km_inv_unlock; assumption)+

lemma km_inv_start: "0 < n \<Longrightarrow> km_inv (km_start n)"
  using km_ok_start [of n]
  by (simp add: km_inv_def km_start_def holds_def) (simp add: volumeNameMutex_def NewHashed_def)

lemma km_inv_reachable: "km_step\<^sup>*\<^sup>* s s' \<Longrightarrow> km_inv s \<Longrightarrow> km_inv s'"
  by (induction rule: rtranclp_induct) (auto intro: km_inv_step)

lemma km_inv_held: "km_inv (th, km) \<Longrightarrow> th t = Critical k \<Longrightarrow> mutexes km ! km_index k km"
  by (metis fst_conv holds_def km_inv_def km_index_less snd_conv)

text \<open>A thread in a critical section can leave it; if there is none, every waiting thread can enter.\<close>

lemma km_progress:
  assumes "km_inv s" and "fst s t \<noteq> Idle"
  shows "\<exists>s' t'. km_step s s' \<and> fst s t' \<noteq> Idle \<and> fst s' t' \<noteq> fst s t'"
proof -
  obtain th km where s: "s = (th, km)" by (cases s)
  show ?thesis
  proof (cases "\<exists>t' k. th t' = Critical k")
    case True
    then obtain t' k where t': "th t' = Critical k" by blast
    then have "mutexes km ! km_index k km" using km_inv_held assms(1) s by blast
    then show ?thesis using km_step.unlock [of th t' k km] t' s by (force simp: UnlockKey_Ret)
  next
    case False
    with assms(2) s obtain k where t: "th t = Waiting k" by (cases "th t") auto
    have "\<not> mutexes km ! km_index k km"
      using False assms(1) s by (metis km_inv_def km_index_less snd_conv fst_conv holds_def)
    then show ?thesis using km_step.lock [of th t k km] t s by (force simp: LockKey_Some)
  qed
qed

section \<open>Properties\<close>

text \<open>
  C16. Calls for the same volume never overlap and never block each other for good: in
  every state that concurrent calls can reach from the initial lock table, at most one
  thread is in the critical section of a volume name, no \<^verbatim>\<open>UnlockKey\<close> finds its mutex free,
  and as long as a thread waits or is in its critical section some such thread can go on.
\<close>

theorem volume_calls_exclusive:
  assumes "0 < NumCPU" and "km_step\<^sup>*\<^sup>* (km_start NumCPU) (th, km)"
  shows "(th t = Critical name \<and> th t' = Critical name \<longrightarrow> t = t')
    \<and> (th t = Critical name \<longrightarrow> (\<exists>km'. UnlockKey name km = Ret km'))
    \<and> (th t \<noteq> Idle \<longrightarrow> (\<exists>s' t'. km_step (th, km) s' \<and> th t' \<noteq> Idle \<and> fst s' t' \<noteq> th t'))"
proof (intro conjI impI)
  have inv: "km_inv (th, km)" using km_inv_reachable [OF assms(2)] km_inv_start [OF assms(1)] .
  show "t = t'" if "th t = Critical name \<and> th t' = Critical name"
    using inv that by (auto simp: km_inv_def holds_def)
  show "\<exists>km'. UnlockKey name km = Ret km'" if "th t = Critical name"
    using km_inv_held [OF inv] that by (simp add: UnlockKey_Ret)
  show "\<exists>s' t'. km_step (th, km) s' \<and> th t' \<noteq> Idle \<and> fst s' t' \<noteq> th t'" if "th t \<noteq> Idle"
    using km_progress [OF inv, of t] that by simp
qed

theorem volume_calls_exclusive_witness:
  "\<exists>th km. km_step\<^sup>*\<^sup>* (km_start 4) (th, km) \<and> th 0 = Critical ''v'' \<and> th 1 = Waiting ''v''
     \<and> th 1 \<noteq> Critical ''v'' \<and> (\<exists>km'. UnlockKey ''v'' km = Ret km')"
proof -
  let ?th = "(\<lambda>_. Idle)(0 := Waiting ''v'', 0 := Critical ''v'', 1 := Waiting ''v'')"
  obtain km where km: "LockKey ''v'' (volumeNameMutex 4) = Some km"
    using km_inv_start [of 4] by (simp add: LockKey_def Let_def volumeNameMutex_def NewHashed_def km_index_def)
  have 1: "km_step (km_start 4) ((\<lambda>_. Idle)(0 := Waiting ''v''), volumeNameMutex 4)"
    by (simp add: km_start_def km_step.call)
  have 2: "km_step ((\<lambda>_. Idle)(0 := Waiting ''v''), volumeNameMutex 4)
      ((\<lambda>_. Idle)(0 := Waiting ''v'', 0 := Critical ''v''), km)"
    by (rule km_step.lock [OF _ km]) simp
  have 3: "km_step ((\<lambda>_. Idle)(0 := Waiting ''v'', 0 := Critical ''v''), km) (?th, km)"
    by (rule km_step.call) simp
  have reach: "km_step\<^sup>*\<^sup>* (km_start 4) (?th, km)"
    by (rule rtranclp_trans [of km_step, OF r_into_rtranclp [of km_step, OF 1]
          rtranclp_trans [of km_step, OF r_into_rtranclp [of km_step, OF 2] r_into_rtranclp [of km_step, OF 3]]])
  have "\<exists>km'. UnlockKey ''v'' km = Ret km'"
    using volume_calls_exclusive [OF _ reach, of 0 "''v''" 1, THEN conjunct2, THEN conjunct1] by simp
  then show ?thesis using reach by (intro exI [of _ ?th] exI [of _ km]) simp
qed

end
