(* ===== verification/Csi_Backend.thy ===== *)
theory Csi_Backend
  imports Csi_Ceph Key_Mutex
begin

text \<open>
  What the handlers of the CSI driver share (\<^verbatim>\<open>pkg/oim-csi-driver/oim-driver.go\<close>): the interface
  \<^verbatim>\<open>OIMBackend\<close> with its two implementations (theories \<open>Csi_Remote\<close> and \<open>Csi_Local\<close>), the limits of
  a volume's size, and the contract that a backend keeps towards the handlers.

  A backend works on a world \<open>'w\<close>. \<^verbatim>\<open>createDevice\<close> may panic and may wait for ever, and it
  returns a cleanup function next to its error. The context argument of the Go
  functions carries only the deadline and the logger and is left out.
\<close>

section \<open>Definitions\<close>

definition kib :: int where "kib = 1024"
definition mib :: int where "mib = kib * 1024"
definition gib :: int where "gib = mib * 1024"
definition tib :: int where "tib = gib * 1024"
definition maxStorageCapacity :: int where "maxStorageCapacity = tib"

type_synonym 'w cleanup = "'w \<Rightarrow> unit result \<times> 'w"

record 'w OIMBackend =
  backend_createVolume :: "string \<Rightarrow> int \<Rightarrow> 'w \<Rightarrow> int result \<times> 'w"
  backend_deleteVolume :: "string \<Rightarrow> 'w \<Rightarrow> unit result \<times> 'w"
  backend_checkVolumeExists :: "string \<Rightarrow> 'w \<Rightarrow> unit result \<times> 'w"
  backend_createDevice ::
    "string \<Rightarrow> csi_request \<Rightarrow> 'w \<Rightarrow> (string result \<times> 'w cleanup option \<times> 'w) outcome option"
  backend_deleteDevice :: "string \<Rightarrow> 'w \<Rightarrow> unit result \<times> 'w"

record remoteSPDK =
  oimRegistryAddress :: string
  registryCA :: string
  registryKey :: string
  oimControllerID :: string
  mapVolumeParams :: "(csi_request \<Rightarrow> MapVolumeRequest \<Rightarrow> MapVolumeRequest result outcome) option"

record localSPDK =
  vhostEndpoint :: string

text \<open>
  What a volume backend is for: a store of named volumes with their sizes. Creating a
  volume may fail for any reason, but then nothing changes; a new volume is at least as
  large as requested and not empty, and an existing volume is never resized.
\<close>

type_synonym store = "string \<rightharpoonup> int"

datatype vol_event = Created string int int | Deleted string | Found string | Refused

inductive store_step :: "store \<Rightarrow> vol_event \<Rightarrow> store \<Rightarrow> bool" where
  created: "n \<le> c \<Longrightarrow> m v = Some c \<or> m v = None \<and> 0 < c \<Longrightarrow> store_step m (Created v n c) (m(v \<mapsto> c))"
| deleted: "store_step m (Deleted v) (m(v := None))"
| found: "m v \<noteq> None \<Longrightarrow> store_step m (Found v) m"
| refused: "store_step m Refused m"

inductive_simps store_step_simps:
  "store_step m (Created v n c) m'" "store_step m (Deleted v) m'" "store_step m (Found v) m'" "store_step m Refused m'"

fun store_run :: "store \<Rightarrow> vol_event list \<Rightarrow> store \<Rightarrow> bool" where
  "store_run m [] m' \<longleftrightarrow> m' = m"
| "store_run m (e # es) m' \<longleftrightarrow> (\<exists>m1. store_step m e m1 \<and> store_run m1 es m')"

section \<open>The contract of a backend\<close>

text \<open>
  \<open>inv\<close> is the invariant of the world, \<open>up\<close> tells that everything the backend talks to can be
  reached, and \<open>vols\<close> is the store that the world stands for.
\<close>

locale volume_backend =
  fixes be :: "'w OIMBackend"
    and inv :: "'w \<Rightarrow> bool"
    and up :: "'w \<Rightarrow> bool"
    and vols :: "'w \<Rightarrow> store"
  assumes create_law: "inv w \<Longrightarrow> v \<noteq> [] \<Longrightarrow> 0 \<le> n \<Longrightarrow> backend_createVolume be v n w = (r, w') \<Longrightarrow>
      inv w' \<and> (up w \<longrightarrow> up w') \<and>
      (case r of Inl _ \<Rightarrow> vols w' = vols w | Inr c \<Rightarrow> store_step (vols w) (Created v n c) (vols w'))"
    and create_again: "inv w \<Longrightarrow> up w \<Longrightarrow> v \<noteq> [] \<Longrightarrow> 0 \<le> n \<Longrightarrow> backend_createVolume be v n w = (Inr c, w') \<Longrightarrow>
      \<exists>w''. backend_createVolume be v n w' = (Inr c, w'')"
    and delete_law: "inv w \<Longrightarrow> v \<noteq> [] \<Longrightarrow> backend_deleteVolume be v w = (q, w') \<Longrightarrow>
      inv w' \<and> (up w \<longrightarrow> up w' \<and> q = Inr ()) \<and>
      (case q of Inl _ \<Rightarrow> vols w' = vols w | Inr _ \<Rightarrow> store_step (vols w) (Deleted v) (vols w'))"
    and check_law: "inv w \<Longrightarrow> v \<noteq> [] \<Longrightarrow> backend_checkVolumeExists be v w = (q, w') \<Longrightarrow>
      inv w' \<and> (up w \<longrightarrow> up w') \<and> vols w' = vols w \<and>
      (q = Inr () \<longrightarrow> vols w v \<noteq> None) \<and> (up w \<and> vols w v \<noteq> None \<longrightarrow> q = Inr ())"

section \<open>Lemmas\<close>

text \<open>The size that both backends give to a new volume, and the store that a set of BDevs stands for.\<close>

definition rounded :: "int \<Rightarrow> int" where
  "rounded n = (if n = 0 then 2 ^ 20 else (n + 511) div 512 * 512)"

definition volume_size :: "BDev \<Rightarrow> int" where
  "volume_size b = wrap64 (BlockSize b * NumBlocks b)"

definition bdev_store :: "(string \<rightharpoonup> BDev) \<Rightarrow> store" where
  "bdev_store m = (\<lambda>v. map_option volume_size (m v))"

lemma bdev_store_upd:
  "bdev_store (m(v \<mapsto> b)) = (bdev_store m)(v \<mapsto> volume_size b)"
  "bdev_store (m(v := None)) = (bdev_store m)(v := None)"
  by (auto simp: bdev_store_def)

lemma rounded_facts:
  assumes "0 \<le> n" and "n < maxStorageCapacity"
  shows "(if n = 0 then mib else wrap64 (go_div (wrap64 (n + 511)) 512 * 512)) = rounded n"
    and "n \<le> rounded n" and "0 < rounded n"
    and "go_div (rounded n) 512 = rounded n div 512" and "0 < rounded n div 512"
    and "wrap64 (512 * (rounded n div 512)) = rounded n" and "is_int64 (rounded n div 512)"
    and "rounded n < maxStorageCapacity + 512"
proof -
  have max: "maxStorageCapacity = 2 ^ 40"
    by (simp add: maxStorageCapacity_def tib_def gib_def mib_def kib_def)
  have n: "n < 2 ^ 40" using assms(2) max by simp
  have div: "(n + 511) div 512 * 512 \<le> n + 511" "n \<le> (n + 511) div 512 * 512"
    using mod_less_divisor [of 512 "nat (n + 511)"] pos_mod_bound [of 512 "n + 511"]
    by (simp_all add: minus_mod_eq_div_mult [symmetric])
  then show le: "n \<le> rounded n" and pos: "0 < rounded n" and lt: "rounded n < maxStorageCapacity + 512"
    using assms(1) n max by (auto simp: rounded_def)
  have dvd: "512 dvd rounded n" by (simp add: rounded_def)
  then have eq: "512 * (rounded n div 512) = rounded n" by simp
  then show "0 < rounded n div 512" using pos by linarith
  have i: "is_int64 (rounded n)" "is_int64 (n + 511)" using pos lt assms(1) n max by (simp_all add: is_int64_def)
  then show d: "is_int64 (rounded n div 512)" using is_int64_div(1) [of "rounded n" 512] pos by simp
  then show "go_div (rounded n) 512 = rounded n div 512" using pos by (simp add: go_div_def sdiv_pos wrap64_id)
  show "wrap64 (512 * (rounded n div 512)) = rounded n" using i by (simp add: eq wrap64_id)
  show "(if n = 0 then mib else wrap64 (go_div (wrap64 (n + 511)) 512 * 512)) = rounded n"
  proof (cases "n = 0")
    case False
    have "is_int64 ((n + 511) div 512)" "is_int64 ((n + 511) div 512 * 512)"
      using is_int64_div [of "n + 511" 512] i(2) assms(1) by simp_all
    then show ?thesis using False i(2) assms(1) by (simp add: rounded_def go_div_def sdiv_pos wrap64_id)
  qed (simp add: rounded_def mib_def kib_def)
qed

lemma invalid_not_found: "IsJSONError not_found ERROR_INVALID_PARAMS"
  using IsJSONError_rpc_error_iff [of "- 32602" "''Invalid parameters''" "- 32602"]
  by (simp add: not_found_def ERROR_INVALID_PARAMS_def is_int64_def)

end
