(* ===== verification/Csi_Controller.thy ===== *)
theory Csi_Controller
  imports Csi_Backend
begin

text \<open>
  The controller service of the CSI driver, for version 1.0 of the interface
  (\<^verbatim>\<open>pkg/oim-csi-driver/controllerserver.go\<close>) and for version 0.3
  (\<^verbatim>\<open>pkg/oim-csi-driver/controllerserver0.go\<close>, names ending in \<open>0\<close>). The state of a handler is the
  table of volume locks and the world of the backend; the result is \<open>None\<close> when the call
  waits for a lock that is held.
\<close>

section \<open>Definitions\<close>

type_synonym ('w, 'a) handler = "KeyMutex \<times> 'w \<Rightarrow> ('a result \<times> KeyMutex \<times> 'w) outcome option"

definition reply_with :: "'a result \<Rightarrow> ('w, 'a) handler" where
  "reply_with r s = Some (Ret (r, s))"

text \<open>The loop over the requested capabilities, the same in both versions.\<close>

fun create_capabilities :: "VolumeCapability list \<Rightarrow> unit result" where
  "create_capabilities [] = Inr ()"
| "create_capabilities (c # caps) =
     (if GetBlock c then Inl (StatusErr Unimplemented ''Block Volume not supported'' [])
      else case GetMode c of
        SINGLE_NODE_WRITER \<Rightarrow> create_capabilities caps
      | SINGLE_NODE_READER_ONLY \<Rightarrow> create_capabilities caps
      | MULTI_NODE_READER_ONLY \<Rightarrow> create_capabilities caps
      | MULTI_NODE_SINGLE_WRITER \<Rightarrow>
          Inl (StatusErr Unimplemented ''multi-node reader, single writer not supported'' [])
      | MULTI_NODE_MULTI_WRITER \<Rightarrow>
          Inl (StatusErr Unimplemented ''multi-node reader, multi-node writer not supported'' [])
      | m \<Rightarrow> Inl (StatusErr Unimplemented ''%s not supported'' [mode_String m]))"

definition CreateVolume :: "'w OIMBackend \<Rightarrow> CreateVolumeRequest \<Rightarrow> ('w, CsiVolume) handler" where
  "CreateVolume backend rq s =
     (let name = CreateName rq; caps = CreateCapabilities rq in
      if name = [] then reply_with (Inl (StatusErr InvalidArgument ''Name missing in request'' [])) s
      else if caps = []
      then reply_with (Inl (StatusErr InvalidArgument ''Volume Capabilities missing in request'' [])) s
      else case create_capabilities caps of
        Inl err \<Rightarrow> reply_with (Inl err) s
      | Inr _ \<Rightarrow>
          if VolumeContentSource rq
          then reply_with (Inl (StatusErr Unimplemented ''snapshots not supported'' [])) s
          else if name = [] then reply_with (Inl (StatusErr InvalidArgument ''empty name'' [])) s
          else with_key name (\<lambda>w.
            case backend_createVolume backend name (RequiredBytes rq) w of
              (Inl err, w) \<Rightarrow> Some (Ret (Inl err, w))
            | (Inr actualBytes, w) \<Rightarrow>
                Some (Ret (Inr \<lparr>CsiVolumeId = name, CapacityBytes = actualBytes\<rparr>, w))) s)"

definition DeleteVolume :: "'w OIMBackend \<Rightarrow> string \<Rightarrow> ('w, unit) handler" where
  "DeleteVolume backend volumeID s =
     (if length volumeID = 0
      then reply_with (Inl (StatusErr InvalidArgument ''Volume ID missing in request'' [])) s
      else if volumeID = [] then reply_with (Inl (StatusErr InvalidArgument ''empty volume ID'' [])) s
      else with_key volumeID (\<lambda>w. Some (Ret (backend_deleteVolume backend volumeID w))) s)"

text \<open>The loop of \<^verbatim>\<open>ValidateVolumeCapabilities\<close>: \<open>Inl\<close> the message of an early return.\<close>

fun confirm_capabilities :: "VolumeCapability list \<Rightarrow> VolumeCapability list \<Rightarrow> string + VolumeCapability list" where
  "confirm_capabilities [] confirmed = Inr confirmed"
| "confirm_capabilities (c # caps) confirmed =
     (if GetBlock c then Inl ''Block Volume not supported''
      else if GetMount c = None then confirm_capabilities caps confirmed
      else case GetMode c of
        SINGLE_NODE_WRITER \<Rightarrow> confirm_capabilities caps (confirmed @ [c])
      | SINGLE_NODE_READER_ONLY \<Rightarrow> confirm_capabilities caps (confirmed @ [c])
      | MULTI_NODE_READER_ONLY \<Rightarrow> confirm_capabilities caps (confirmed @ [c])
      | MULTI_NODE_SINGLE_WRITER \<Rightarrow> Inl ''multi-node reader, single writer not supported''
      | MULTI_NODE_MULTI_WRITER \<Rightarrow> Inl ''multi-node reader, multi-node writer not supported''
      | _ \<Rightarrow> confirm_capabilities caps confirmed)"

definition ValidateVolumeCapabilities ::
  "'w OIMBackend \<Rightarrow> ValidateVolumeCapabilitiesRequest \<Rightarrow> ('w, ValidateVolumeCapabilitiesResponse) handler" where
  "ValidateVolumeCapabilities backend rq s =
     (let name = ValidateVolumeId rq in
      if length name = 0
      then reply_with (Inl (StatusErr InvalidArgument ''Volume ID missing in request'' [])) s
      else if ValidateCapabilities rq = []
      then reply_with (Inl (StatusErr InvalidArgument ''Volume capabilities missing in request'' [])) s
      else if name = [] then reply_with (Inl (StatusErr InvalidArgument ''empty volume ID'' [])) s
      else with_key name (\<lambda>w.
        case backend_checkVolumeExists backend name w of
          (Inl err, w) \<Rightarrow> Some (Ret (Inl err, w))
        | (Inr _, w) \<Rightarrow>
            (case confirm_capabilities (ValidateCapabilities rq) [] of
               Inl msg \<Rightarrow> Some (Ret (Inr \<lparr>ConfirmedField = None, ValidateMessage = msg\<rparr>, w))
             | Inr caps \<Rightarrow>
                 Some (Ret (Inr \<lparr>ConfirmedField = Some \<lparr>ConfirmedContext = VolumeContext rq,
                     ConfirmedCapabilities = caps, ConfirmedParameters = ValidateParameters rq\<rparr>,
                   ValidateMessage = []\<rparr>, w)))) s)"

text \<open>The calls that the driver does not implement, in both versions.\<close>

definition ControllerPublishVolume :: "unit result" where
  "ControllerPublishVolume = Inl (StatusErr Unimplemented [] [])"
definition ControllerUnpublishVolume :: "unit result" where
  "ControllerUnpublishVolume = Inl (StatusErr Unimplemented [] [])"
definition ListVolumes :: "unit result" where
  "ListVolumes = Inl (StatusErr Unimplemented [] [])"
definition GetCapacity :: "unit result" where
  "GetCapacity = Inl (StatusErr Unimplemented [] [])"
definition CreateSnapshot :: "unit result" where
  "CreateSnapshot = Inl (StatusErr Unimplemented [] [])"
definition DeleteSnapshot :: "unit result" where
  "DeleteSnapshot = Inl (StatusErr Unimplemented [] [])"
definition ListSnapshots :: "unit result" where
  "ListSnapshots = Inl (StatusErr Unimplemented [] [])"

subsection \<open>Version 0.3\<close>

definition CreateVolume0 :: "'w OIMBackend \<Rightarrow> CreateVolumeRequest \<Rightarrow> ('w, CsiVolume0) handler" where
  "CreateVolume0 backend rq s =
     (let name = CreateName rq; caps = CreateCapabilities rq in
      if name = [] then reply_with (Inl (StatusErr InvalidArgument ''Name missing in request'' [])) s
      else if caps = []
      then reply_with (Inl (StatusErr InvalidArgument ''Volume Capabilities missing in request'' [])) s
      else case create_capabilities caps of
        Inl err \<Rightarrow> reply_with (Inl err) s
      | Inr _ \<Rightarrow>
          if VolumeContentSource rq
          then reply_with (Inl (StatusErr Unimplemented ''snapshots not supported'' [])) s
          else if name = [] then reply_with (Inl (StatusErr InvalidArgument ''empty name'' [])) s
          else with_key name (\<lambda>w.
            case backend_createVolume backend name (RequiredBytes rq) w of
              (Inl err, w) \<Rightarrow> Some (Ret (Inl err, w))
            | (Inr actualBytes, w) \<Rightarrow>
                Some (Ret (Inr \<lparr>CsiVolumeId = name, CapacityBytes = actualBytes,
                                Attributes = Parameters rq\<rparr>, w))) s)"

definition DeleteVolume0 :: "'w OIMBackend \<Rightarrow> string \<Rightarrow> ('w, unit) handler" where
  "DeleteVolume0 backend volumeID s =
     (if length volumeID = 0
      then reply_with (Inl (StatusErr InvalidArgument ''Volume ID missing in request'' [])) s
      else if volumeID = [] then reply_with (Inl (StatusErr InvalidArgument ''empty volume ID'' [])) s
      else with_key volumeID (\<lambda>w. Some (Ret (backend_deleteVolume backend volumeID w))) s)"

definition ValidateVolumeCapabilities0 ::
  "'w OIMBackend \<Rightarrow> ValidateVolumeCapabilitiesRequest \<Rightarrow> ('w, ValidateVolumeCapabilitiesResponse0) handler" where
  "ValidateVolumeCapabilities0 backend rq s =
     (let name = ValidateVolumeId rq in
      if length name = 0
      then reply_with (Inl (StatusErr InvalidArgument ''Volume ID missing in request'' [])) s
      else if ValidateCapabilities rq = []
      then reply_with (Inl (StatusErr InvalidArgument ''Volume capabilities missing in request'' [])) s
      else if name = [] then reply_with (Inl (StatusErr InvalidArgument ''empty volume ID'' [])) s
      else with_key name (\<lambda>w.
        case backend_checkVolumeExists backend name w of
          (Inl err, w) \<Rightarrow> Some (Ret (Inl err, w))
        | (Inr _, w) \<Rightarrow>
            Some (Ret (Inr \<lparr>Supported = \<not> list_ex (\<lambda>c. GetMode c \<noteq> SINGLE_NODE_WRITER) (ValidateCapabilities rq),
                            Message0 = []\<rparr>, w))) s)"

subsection \<open>Sequences of calls\<close>

datatype csi_call = Call_CreateVolume CreateVolumeRequest | Call_DeleteVolume string
  | Call_ValidateVolume ValidateVolumeCapabilitiesRequest

text \<open>The effect on the abstract store that a reply announces.\<close>

fun reply_event :: "('a \<Rightarrow> vol_event) \<Rightarrow> ('a result \<times> 's) outcome option \<Rightarrow> (vol_event \<times> 's) outcome option" where
  "reply_event f None = None"
| "reply_event f (Some Panic) = Some Panic"
| "reply_event f (Some (Ret (Inl _, s))) = Some (Ret (Refused, s))"
| "reply_event f (Some (Ret (Inr x, s))) = Some (Ret (f x, s))"

fun csi_step :: "'w OIMBackend \<Rightarrow> csi_call \<Rightarrow> KeyMutex \<times> 'w \<Rightarrow> (vol_event \<times> KeyMutex \<times> 'w) outcome option" where
  "csi_step be (Call_CreateVolume rq) s =
     reply_event (\<lambda>v. Created (CsiVolumeId v) (RequiredBytes rq) (CapacityBytes v)) (CreateVolume be rq s)"
| "csi_step be (Call_DeleteVolume v) s = reply_event (\<lambda>_. Deleted v) (DeleteVolume be v s)"
| "csi_step be (Call_ValidateVolume rq) s =
     reply_event (\<lambda>_. Found (ValidateVolumeId rq)) (ValidateVolumeCapabilities be rq s)"

fun csi_run :: "'w OIMBackend \<Rightarrow> csi_call list \<Rightarrow> KeyMutex \<times> 'w \<Rightarrow> (vol_event list \<times> KeyMutex \<times> 'w) outcome option" where
  "csi_run be [] s = Some (Ret ([], s))"
| "csi_run be (c # cs) s =
     (case csi_step be c s of
        None \<Rightarrow> None
      | Some Panic \<Rightarrow> Some Panic
      | Some (Ret (e, s)) \<Rightarrow>
          (case csi_run be cs s of
             None \<Rightarrow> None
           | Some Panic \<Rightarrow> Some Panic
           | Some (Ret (es, s)) \<Rightarrow> Some (Ret (e # es, s))))"

fun sized :: "csi_call \<Rightarrow> bool" where
  "sized (Call_CreateVolume rq) \<longleftrightarrow> 0 \<le> RequiredBytes rq"
| "sized _ \<longleftrightarrow> True"

section \<open>Lemmas\<close>

definition locks_free :: "KeyMutex \<Rightarrow> bool" where
  "locks_free km \<longleftrightarrow> km_ok km \<and> True \<notin> set (mutexes km)"

lemma locks_free_with_key:
  "locks_free km \<Longrightarrow> with_key name body (km, w) =
     map_option (\<lambda>r. case r of Panic \<Rightarrow> Panic | Ret (x, w) \<Rightarrow> Ret (x, km, w)) (body w)"
  using nth_mem [OF km_index_less, of km name] by (auto simp: locks_free_def with_key_cases)

lemma locks_free_start: "0 < n \<Longrightarrow> locks_free (volumeNameMutex n)"
  by (simp add: locks_free_def km_ok_start) (simp add: volumeNameMutex_def NewHashed_def)

text \<open>The error with which \<^verbatim>\<open>CreateVolume\<close> rejects a request before it takes the lock.\<close>

definition create_guard :: "CreateVolumeRequest \<Rightarrow> go_error option" where
  "create_guard rq =
     (if CreateName rq = [] then Some (StatusErr InvalidArgument ''Name missing in request'' [])
      else if CreateCapabilities rq = []
      then Some (StatusErr InvalidArgument ''Volume Capabilities missing in request'' [])
      else case create_capabilities (CreateCapabilities rq) of
        Inl err \<Rightarrow> Some err
      | Inr _ \<Rightarrow> if VolumeContentSource rq
          then Some (StatusErr Unimplemented ''snapshots not supported'' []) else None)"

lemma create_guard_name: "create_guard rq = None \<Longrightarrow> CreateName rq \<noteq> []"
  by (auto simp: create_guard_def)

lemma CreateVolume_free:
  assumes "locks_free km"
  shows "CreateVolume be rq (km, w) =
     (case create_guard rq of
        Some e \<Rightarrow> Some (Ret (Inl e, km, w))
      | None \<Rightarrow> (case backend_createVolume be (CreateName rq) (RequiredBytes rq) w of (r, w') \<Rightarrow>
          Some (Ret (map_sum id (\<lambda>c. \<lparr>CsiVolumeId = CreateName rq, CapacityBytes = c\<rparr>) r, km, w'))))"
  by (simp add: CreateVolume_def create_guard_def reply_with_def Let_def locks_free_with_key [OF assms]
      split: sum.split prod.split)

lemma DeleteVolume_free:
  assumes "locks_free km" and "v \<noteq> []"
  shows "DeleteVolume be v (km, w) = (case backend_deleteVolume be v w of (r, w') \<Rightarrow> Some (Ret (r, km, w')))"
  using assms by (simp add: DeleteVolume_def locks_free_with_key split: prod.split)

lemma ValidateVolume_free:
  assumes "locks_free km" and "ValidateVolumeId rq \<noteq> []" and "ValidateCapabilities rq \<noteq> []"
  shows "\<exists>f. ValidateVolumeCapabilities be rq (km, w) =
     (case backend_checkVolumeExists be (ValidateVolumeId rq) w of (r, w') \<Rightarrow> Some (Ret (map_sum id f r, km, w')))"
proof -
  let ?f = "\<lambda>_. case confirm_capabilities (ValidateCapabilities rq) [] of
       Inl msg \<Rightarrow> \<lparr>ConfirmedField = None, ValidateMessage = msg\<rparr>
     | Inr caps \<Rightarrow> \<lparr>ConfirmedField = Some \<lparr>ConfirmedContext = VolumeContext rq,
         ConfirmedCapabilities = caps, ConfirmedParameters = ValidateParameters rq\<rparr>, ValidateMessage = []\<rparr>"
  show ?thesis
    using assms by (intro exI [of _ ?f])
      (simp add: ValidateVolumeCapabilities_def Let_def locks_free_with_key split: sum.split prod.split)
qed

text \<open>What the handlers do over any backend that keeps its contract.\<close>

context volume_backend
begin

lemma csi_step_simulates:
  assumes "inv w" and "locks_free km" and "sized c"
  shows "\<exists>e w'. csi_step be c (km, w) = Some (Ret (e, km, w')) \<and> inv w' \<and> (up w \<longrightarrow> up w')
     \<and> store_step (vols w) e (vols w')"
proof (cases c)
  case (Call_CreateVolume rq)
  obtain r w' where b: "backend_createVolume be (CreateName rq) (RequiredBytes rq) w = (r, w')" by fastforce
  show ?thesis
  proof (cases "create_guard rq")
    case None
    have "0 \<le> RequiredBytes rq" using assms(3) Call_CreateVolume by simp
    from create_law [OF assms(1) create_guard_name [OF None] this b] show ?thesis
      unfolding Call_CreateVolume by (cases r) (simp_all add: CreateVolume_free [OF assms(2)] None b store_step.refused)
  qed (simp add: Call_CreateVolume CreateVolume_free [OF assms(2)] assms(1) store_step.refused)
next
  case (Call_DeleteVolume v)
  obtain r w' where b: "backend_deleteVolume be v w = (r, w')" by fastforce
  show ?thesis
  proof (cases "v = []")
    case True
    then show ?thesis
      by (simp add: Call_DeleteVolume DeleteVolume_def reply_with_def assms(1) store_step.refused)
  next
    case False
    from delete_law [OF assms(1) False b] show ?thesis
      unfolding Call_DeleteVolume by (cases r) (auto simp: DeleteVolume_free [OF assms(2) False] b store_step.refused)
  qed
next
  case (Call_ValidateVolume rq)
  let ?v = "ValidateVolumeId rq"
  obtain r w' where b: "backend_checkVolumeExists be ?v w = (r, w')" by fastforce
  show ?thesis
  proof (cases "?v = [] \<or> ValidateCapabilities rq = []")
    case True
    then show ?thesis
      by (cases "?v = []")
        (simp_all add: Call_ValidateVolume ValidateVolumeCapabilities_def Let_def reply_with_def assms(1) store_step.refused)
  next
    case False
    then obtain f where "ValidateVolumeCapabilities be rq (km, w) = Some (Ret (map_sum id f r, km, w'))"
      using ValidateVolume_free [OF assms(2), of rq be w] b by auto
    then show ?thesis
      using check_law [OF assms(1) _ b] False unfolding Call_ValidateVolume
      by (cases r) (auto simp: store_step_simps)
  qed
qed

lemma csi_run_refines:
  assumes "inv w" and "locks_free km" and "list_all sized cs"
  shows "\<exists>es w'. csi_run be cs (km, w) = Some (Ret (es, km, w')) \<and> inv w' \<and> (up w \<longrightarrow> up w')
     \<and> store_run (vols w) es (vols w')"
  using assms(1,3)
proof (induction cs arbitrary: w)
  case (Cons c cs)
  from csi_step_simulates [OF Cons.prems(1) assms(2), of c] Cons.prems(2) obtain e w1 where
    s: "csi_step be c (km, w) = Some (Ret (e, km, w1))" "inv w1" "up w \<longrightarrow> up w1" "store_step (vols w) e (vols w1)"
    by auto
  from Cons.IH [OF s(2)] Cons.prems(2) obtain es w2 where
    "csi_run be cs (km, w1) = Some (Ret (es, km, w2))" "inv w2" "up w1 \<longrightarrow> up w2" "store_run (vols w1) es (vols w2)"
    by auto
  with s show ?case by auto
qed simp

lemma CreateVolume_idempotent:
  assumes "inv w" and "up w" and "locks_free km" and "0 \<le> RequiredBytes rq"
    and "CreateVolume be rq (km, w) = Some (Ret (Inr vol, s))"
  shows "vols (snd s) (CsiVolumeId vol) = Some (CapacityBytes vol)"
    and "\<exists>w''. CreateVolume be rq s = Some (Ret (Inr vol, km, w'')) \<and> vols w'' = vols (snd s)"
proof -
  let ?v = "CreateName rq" and ?n = "RequiredBytes rq"
  obtain r w' where b: "backend_createVolume be ?v ?n w = (r, w')" by fastforce
  have g: "create_guard rq = None"
    using assms(5) by (cases "create_guard rq") (simp_all add: CreateVolume_free [OF assms(3)])
  then obtain c where c: "r = Inr c" "s = (km, w')" "vol = \<lparr>CsiVolumeId = ?v, CapacityBytes = c\<rparr>"
    using assms(5) b by (cases r) (auto simp: CreateVolume_free [OF assms(3)])
  note v = create_guard_name [OF g]
  have l: "inv w'" "up w'" "store_step (vols w) (Created ?v ?n c) (vols w')"
    using create_law [OF assms(1) v assms(4) b] assms(2) c by simp_all
  then show m: "vols (snd s) (CsiVolumeId vol) = Some (CapacityBytes vol)"
    using c by (simp add: store_step_simps)
  obtain w'' where w'': "backend_createVolume be ?v ?n w' = (Inr c, w'')"
    using create_again [OF assms(1,2) v assms(4)] b c by blast
  have "vols w'' = vols w'"
    using create_law [OF l(1) v assms(4) w''] m c by (auto simp: store_step_simps)
  then show "\<exists>w''. CreateVolume be rq s = Some (Ret (Inr vol, km, w'')) \<and> vols w'' = vols (snd s)"
    using w'' g c by (simp add: CreateVolume_free [OF assms(3)])
qed

text \<open>After a successful \<^verbatim>\<open>DeleteVolume\<close> the volume is gone for every later call that asks for it.\<close>

lemma DeleteVolume_gone:
  assumes "inv w" and "locks_free km" and "DeleteVolume be v (km, w) = Some (Ret (Inr (), s))"
    and "ValidateVolumeId rq = v"
  shows "vols (snd s) = (vols w)(v := None)"
    and "\<exists>e w''. ValidateVolumeCapabilities be rq s = Some (Ret (Inl e, km, w''))"
proof -
  have v: "v \<noteq> []" using assms(3) by (auto simp: DeleteVolume_def reply_with_def)
  obtain r w' where b: "backend_deleteVolume be v w = (r, w')" by fastforce
  have s: "s = (km, w')" "r = Inr ()" using assms(3) b by (simp_all add: DeleteVolume_free [OF assms(2) v])
  have l: "inv w'" "vols w' = (vols w)(v := None)"
    using delete_law [OF assms(1) v b] s by (simp_all add: store_step_simps)
  then show "vols (snd s) = (vols w)(v := None)" using s by simp
  show "\<exists>e w''. ValidateVolumeCapabilities be rq s = Some (Ret (Inl e, km, w''))"
  proof (cases "ValidateCapabilities rq = []")
    case True
    then show ?thesis using v assms(4) s by (simp add: ValidateVolumeCapabilities_def reply_with_def Let_def)
  next
    case False
    obtain r2 w2 where b2: "backend_checkVolumeExists be v w' = (r2, w2)" by fastforce
    obtain f where "ValidateVolumeCapabilities be rq s = Some (Ret (map_sum id f r2, km, w2))"
      using ValidateVolume_free [OF assms(2), of rq be w'] v assms(4) False b2 s by auto
    moreover have "r2 \<noteq> Inr ()" using check_law [OF l(1) v b2] l(2) by auto
    ultimately show ?thesis by (cases r2) auto
  qed
qed

end

end
