(* ===== verification/Go_Path.thy ===== *)
theory Go_Path
  imports Go_Strings
begin

text \<open>
  Go's package \<^verbatim>\<open>path/filepath\<close> on Unix: lexical cleaning of paths, joining, the parent and the last
  element of a path, and the path of one relative to another.
\<close>

section \<open>Definitions\<close>

text \<open>The loop of \<^verbatim>\<open>Clean\<close> over the elements; \<open>st\<close> are the elements kept so far, the last one first.\<close>

fun clean_loop :: "bool \<Rightarrow> string list \<Rightarrow> string list \<Rightarrow> string list" where
  "clean_loop rooted st [] = rev st"
| "clean_loop rooted st (e # es) =
     (if e = [] \<or> e = ''.'' then clean_loop rooted st es
      else if e = ''..'' then
        (case st of
           x # st' \<Rightarrow> if x = ''..'' then clean_loop rooted (e # st) es else clean_loop rooted st' es
         | [] \<Rightarrow> if rooted then clean_loop rooted [] es else clean_loop rooted [e] es)
      else clean_loop rooted (e # st) es)"

definition path_rooted :: "string \<Rightarrow> bool" where
  "path_rooted p \<longleftrightarrow> strings_HasPrefix p ''/''"

definition path_elems :: "string \<Rightarrow> string list" where
  "path_elems p = clean_loop (path_rooted p) [] (strings_Split p (CHR ''/''))"

definition path_of :: "bool \<Rightarrow> string list \<Rightarrow> string" where
  "path_of rooted es = (if rooted then ''/'' @ strings_Join es ''/''
     else if es = [] then ''.'' else strings_Join es ''/'')"

definition filepath_Clean :: "string \<Rightarrow> string" where
  "filepath_Clean p = (if p = [] then ''.'' else path_of (path_rooted p) (path_elems p))"

definition filepath_Join :: "string list \<Rightarrow> string" where
  "filepath_Join es = (case dropWhile (\<lambda>e. e = []) es of [] \<Rightarrow> []
     | es' \<Rightarrow> filepath_Clean (strings_Join es' ''/''))"

text \<open>The text up to and including the last slash, cleaned.\<close>

definition filepath_Dir :: "string \<Rightarrow> string" where
  "filepath_Dir p = filepath_Clean (rev (dropWhile (\<lambda>c. c \<noteq> CHR ''/'') (rev p)))"

definition filepath_Base :: "string \<Rightarrow> string" where
  "filepath_Base p = (if p = [] then ''.''
     else let q = rev (dropWhile (\<lambda>c. c = CHR ''/'') (rev p)) in
          if q = [] then ''/'' else rev (takeWhile (\<lambda>c. c \<noteq> CHR ''/'') (rev q)))"

fun strip_common :: "string list \<Rightarrow> string list \<Rightarrow> string list \<times> string list" where
  "strip_common (b # bs) (t # ts) = (if b = t then strip_common bs ts else (b # bs, t # ts))"
| "strip_common bs ts = (bs, ts)"

definition filepath_Rel :: "string \<Rightarrow> string \<Rightarrow> string result" where
  "filepath_Rel basepath targpath =
     (let base = filepath_Clean basepath; targ = filepath_Clean targpath in
      if targ = base then Inr ''.''
      else if path_rooted basepath \<noteq> path_rooted targpath
      then Inl (ErrText (''Rel: can't make '' @ targpath @ '' relative to '' @ basepath))
      else case strip_common (path_elems basepath) (path_elems targpath) of
             (bs, ts) \<Rightarrow>
               (if bs \<noteq> [] \<and> hd bs = ''..''
                then Inl (ErrText (''Rel: can't make '' @ targpath @ '' relative to '' @ basepath))
                else Inr (strings_Join (replicate (length bs) ''..'' @ ts) ''/'')))"

section \<open>Clean elements\<close>

text \<open>The elements of a cleaned path: plain names, behind some \<open>..\<close> if the path is not rooted.\<close>

definition plain_elem :: "string \<Rightarrow> bool" where
  "plain_elem e \<longleftrightarrow> e \<noteq> [] \<and> e \<noteq> ''.'' \<and> e \<noteq> ''..'' \<and> CHR ''/'' \<notin> set e"

lemma clean_loop_plain: "list_all plain_elem es \<Longrightarrow> clean_loop rooted st es = rev st @ es"
  by (induction es arbitrary: st) (auto simp: plain_elem_def)

lemma clean_loop_rooted:
  "list_all (\<lambda>e. CHR ''/'' \<notin> set e) es \<Longrightarrow> list_all plain_elem st \<Longrightarrow> list_all plain_elem (clean_loop True st es)"
proof (induction es arbitrary: st)
  case (Cons e es)
  show ?case
  proof (cases "e = [] \<or> e = ''.''")
    case False
    show ?thesis
    proof (cases "e = ''..''")
      case True
      with Cons False show ?thesis by (cases st) (auto simp: plain_elem_def)
    next
      case no: False
      with False Cons.prems have "plain_elem e" by (simp add: plain_elem_def)
      with Cons.prems(2) have "list_all plain_elem (e # st)" by simp
      with no False Cons show ?thesis by simp
    qed
  qed (use Cons in simp)
qed (simp add: list_all_iff)

lemma Split_no_sep: "x \<in> set (strings_Split s c) \<Longrightarrow> c \<notin> set x"
  using split_loop_no_sep [of c "[]" x s] by (simp add: strings_Split_def)

lemma path_elems_rooted: "path_rooted p \<Longrightarrow> list_all plain_elem (path_elems p)"
  unfolding path_elems_def
  by (simp add: clean_loop_rooted Split_no_sep list_all_iff [of "\<lambda>e. CHR ''/'' \<notin> set e"])

lemma path_of_rooted:
  assumes "list_all plain_elem es"
  shows "path_rooted (path_of True es)" and "path_elems (path_of True es) = es"
proof -
  show r: "path_rooted (path_of True es)" by (simp add: path_rooted_def path_of_def strings_HasPrefix_def)
  show "path_elems (path_of True es) = es"
  proof (cases "es = []")
    case True
    then show ?thesis using r by (simp add: path_elems_def path_of_def strings_Split_def)
  next
    case False
    have no: "\<forall>x \<in> set ([] # es). CHR ''/'' \<notin> set x" using assms by (auto simp: plain_elem_def list_all_iff)
    have "path_of True es = strings_Join ([] # es) ''/''" using False by (simp add: path_of_def Join_Cons)
    then have "strings_Split (path_of True es) (CHR ''/'') = [] # es" using Split_Join [OF _ no] by simp
    then show ?thesis using assms r by (simp add: path_elems_def clean_loop_plain)
  qed
qed

lemma Clean_rooted:
  assumes "path_rooted p"
  shows "filepath_Clean p = path_of True (path_elems p)" and "path_rooted (filepath_Clean p)"
    and "path_elems (filepath_Clean p) = path_elems p"
proof -
  have "p \<noteq> []" using assms by (auto simp: path_rooted_def strings_HasPrefix_def)
  then show c: "filepath_Clean p = path_of True (path_elems p)" using assms by (simp add: filepath_Clean_def)
  show "path_rooted (filepath_Clean p)" "path_elems (filepath_Clean p) = path_elems p"
    unfolding c using path_of_rooted [OF path_elems_rooted [OF assms]] by simp_all
qed

lemma path_of_inj:
  "list_all plain_elem es \<Longrightarrow> list_all plain_elem es' \<Longrightarrow> path_of True es = path_of True es' \<longleftrightarrow> es = es'"
  using path_of_rooted(2) by metis

section \<open>Relative paths\<close>

lemma strip_common_split:
  "strip_common bs ts = (bs', ts') \<Longrightarrow>
   \<exists>cs. bs = cs @ bs' \<and> ts = cs @ ts' \<and> (bs' = [] \<or> ts' = [] \<or> hd bs' \<noteq> hd ts')"
proof (induction bs ts rule: strip_common.induct)
  case (1 b bs t ts)
  show ?case
  proof (cases "b = t")
    case True
    with 1 obtain cs where "bs = cs @ bs'" "ts = cs @ ts'" "bs' = [] \<or> ts' = [] \<or> hd bs' \<noteq> hd ts'" by auto
    with True have "b # bs = (b # cs) @ bs' \<and> t # ts = (b # cs) @ ts'" by simp
    with \<open>bs' = [] \<or> ts' = [] \<or> hd bs' \<noteq> hd ts'\<close> show ?thesis by blast
  qed (use 1 in auto)
qed auto

lemma strip_common_prefix: "strip_common bs ts = (bs', ts') \<Longrightarrow> bs' = [] \<longleftrightarrow> prefix bs ts"
  by (induction bs ts rule: strip_common.induct) (auto split: if_splits)

text \<open>
  For rooted paths, the relative path exists; it goes up once for every element of the base
  that is not shared, and then down to the target.
\<close>

lemma Rel_rooted:
  assumes "path_rooted b" and "path_rooted t"
  shows "filepath_Rel b t = Inr (if path_elems t = path_elems b then ''.''
    else case strip_common (path_elems b) (path_elems t) of
      (bs, ts) \<Rightarrow> strings_Join (replicate (length bs) ''..'' @ ts) ''/'')"
proof -
  have pb: "list_all plain_elem (path_elems b)" and pt: "list_all plain_elem (path_elems t)"
    using path_elems_rooted assms by simp_all
  have eq: "filepath_Clean t = filepath_Clean b \<longleftrightarrow> path_elems t = path_elems b"
    using Clean_rooted(1) assms path_of_inj [OF pt pb] by simp
  obtain bs ts where s: "strip_common (path_elems b) (path_elems t) = (bs, ts)" by fastforce
  from strip_common_split [OF s] pb have "bs \<noteq> [] \<longrightarrow> plain_elem (hd bs)" by (auto simp: neq_Nil_conv)
  then have "\<not> (bs \<noteq> [] \<and> hd bs = ''..'')" by (auto simp: plain_elem_def)
  then show ?thesis using s eq assms by (auto simp: filepath_Rel_def Let_def)
qed

section \<open>Parents\<close>

lemma rev_dropWhile_last:
  "CHR ''/'' \<notin> set x \<Longrightarrow> rev (dropWhile (\<lambda>c. c \<noteq> CHR ''/'') (rev (p @ ''/'' @ x))) = p @ ''/''"
proof -
  assume x: "CHR ''/'' \<notin> set x"
  have "dropWhile (\<lambda>c. c \<noteq> CHR ''/'') (rev x @ CHR ''/'' # rev p) = CHR ''/'' # rev p"
    using x by (subst dropWhile_append2) auto
  then show ?thesis by simp
qed

lemma clean_loop_append_empty: "clean_loop rooted st (es @ [[]]) = clean_loop rooted st es"
  by (induction rooted st es rule: clean_loop.induct) (auto split: list.splits)

lemma Dir_path_of:
  assumes "list_all plain_elem (xs @ [x])"
  shows "filepath_Dir (path_of True (xs @ [x])) = path_of True xs"
proof -
  have x: "CHR ''/'' \<notin> set x" and xs: "list_all plain_elem xs" using assms by (simp_all add: plain_elem_def)
  have slash: "path_rooted (CHR ''/'' # s)" for s by (simp add: path_rooted_def strings_HasPrefix_def)
  show ?thesis
  proof (cases "xs = []")
    case True
    have "path_of True (xs @ [x]) = [] @ ''/'' @ x" using True by (simp add: path_of_def)
    then have "filepath_Dir (path_of True (xs @ [x])) = filepath_Clean ''/''"
      using rev_dropWhile_last [OF x, of "[]"] by (simp add: filepath_Dir_def)
    also have "\<dots> = path_of True []" by code_simp
    finally show ?thesis using True by simp
  next
    case False
    let ?p = "''/'' @ strings_Join xs ''/''"
    have "path_of True (xs @ [x]) = ?p @ ''/'' @ x" using False by (simp add: path_of_def Join_append)
    then have "filepath_Dir (path_of True (xs @ [x])) = filepath_Clean (?p @ ''/'')"
      using rev_dropWhile_last [OF x, of ?p] by (simp add: filepath_Dir_def)
    also have "\<dots> = path_of True (path_elems (?p @ ''/''))" using Clean_rooted(1) slash by simp
    also have "path_elems (?p @ ''/'') = xs"
    proof -
      have no: "\<forall>y \<in> set ([] # xs @ [[]]). CHR ''/'' \<notin> set y" using xs by (auto simp: plain_elem_def list_all_iff)
      have "?p @ ''/'' = strings_Join ([] # xs @ [[]]) ''/''" using False by (simp add: Join_Cons Join_append)
      then have "strings_Split (?p @ ''/'') (CHR ''/'') = [] # xs @ [[]]" using Split_Join [OF _ no] by simp
      then show ?thesis using xs slash
        by (simp add: path_elems_def clean_loop_append_empty clean_loop_plain)
    qed
    finally show ?thesis .
  qed
qed

end
