(* ===== verification/Csi_Device.thy ===== *)
theory Csi_Device
  imports Volume_Controller Go_Path
begin

text \<open>
  Finding the block device of a mapped volume (\<^verbatim>\<open>pkg/oim-csi-driver/remote.go\<close>): the device numbers
  for \<^verbatim>\<open>mknod\<close>, the PCI and SCSI addresses in the links below \<^verbatim>\<open>/sys/dev/block\<close>, the search for the
  entry of a device and the loop that waits until it appears. The directory is a pair of
  functions: its sorted entries and the target of each link.
\<close>

unbundle bit_operations_syntax

section \<open>Definitions\<close>

definition makedev :: "64 word \<Rightarrow> 64 word \<Rightarrow> 64 word" where
  "makedev major minor =
     (minor AND 0xff) OR push_bit 8 (major AND 0xfff)
     OR push_bit 12 (minor AND NOT 0xff) OR push_bit 32 (major AND NOT 0xfff)"

definition blockSep :: string where "blockSep = ''/block/''"

definition majorMinor :: rx where
  "majorMinor = rx_cat [Bol, Grp 1 (Cls is_digit 1 None), Lit '':'', Grp 2 (Cls is_digit 1 None), Eol]"

definition pci_pieces :: "rx list" where
  "pci_pieces = [Lit ''/pci'', Cls is_hex_digit 1 (Some 4), Lit '':'', Cls is_hex_digit 1 (Some 2), Lit ''/'',
     Grp 1 (Cls is_hex_digit 1 (Some 4)), Lit '':'', Grp 2 (Cls is_hex_digit 1 (Some 2)), Lit '':'',
     Grp 3 (Cls is_hex_digit 1 (Some 2)), Lit ''.'', Grp 4 (Cls octal 1 (Some 1)), Lit ''/'']"

definition pciRe :: rx where "pciRe = rx_cat pci_pieces"

definition scsi_pieces :: "rx list" where
  "scsi_pieces = [Lit ''/target'', Cls is_digit 1 None, Lit '':'', Cls is_digit 1 None, Lit '':'',
     Cls is_digit 1 None, Lit ''/'', Cls is_digit 1 None, Lit '':'', Cls is_digit 1 None, Lit '':'',
     Grp 1 (Cls is_digit 1 None), Lit '':'', Grp 2 (Cls is_digit 1 None), Lit ''/block/'']"

definition scsiRe :: rx where "scsiRe = rx_cat scsi_pieces"

definition extractPCIAddress :: "string \<Rightarrow> (PCIAddress option \<times> string) outcome" where
  "extractPCIAddress str =
     (case FindStringSubmatch pciRe 4 str of
        None \<Rightarrow> Ret (None, str)
      | Some parts \<Rightarrow>
          let remainder = strings_Remove1 str (parts ! 0) in
          outcome_bind (HexToU32 (parts ! 1)) (\<lambda>domain.
          outcome_bind (HexToU32 (parts ! 2)) (\<lambda>bus.
          outcome_bind (HexToU32 (parts ! 3)) (\<lambda>device.
          outcome_bind (HexToU32 (parts ! 4)) (\<lambda>function.
          Ret (Some \<lparr>Domain = domain, Bus = bus, Device = device, Function = function\<rparr>, remainder))))))"

definition extractSCSI :: "string \<Rightarrow> SCSIDisk option outcome" where
  "extractSCSI str =
     (case FindStringSubmatch scsiRe 2 str of
        None \<Rightarrow> Ret None
      | Some parts \<Rightarrow>
          outcome_bind (HexToU32 (parts ! 1)) (\<lambda>target.
          outcome_bind (HexToU32 (parts ! 2)) (\<lambda>lun.
          Ret (Some \<lparr>Target = target, Lun = lun\<rparr>))))"

text \<open>A directory of links. \<^verbatim>\<open>ioutil.ReadDir\<close> sorts the entries by name.\<close>

record sysfs =
  ReadDir :: "string \<Rightarrow> string list result"
  Readlink :: "string \<Rightarrow> string result"

text \<open>
  \<^verbatim>\<open>strconv.Atoi\<close> with the error ignored, on a string of digits: the largest number if the value is
  out of range.
\<close>

definition Atoi_value :: "string \<Rightarrow> int" where
  "Atoi_value s = (case strconv_Atoi s of Inr n \<Rightarrow> n | Inl _ \<Rightarrow> 2 ^ 63 - 1)"

text \<open>
  Whether a link belongs to the device. A link with the right PCI address that names no SCSI disk
  makes the comparison dereference a nil pointer.
\<close>

definition matches_device ::
  "PCIAddress \<Rightarrow> SCSIDisk option \<Rightarrow> string \<Rightarrow> bool outcome" where
  "matches_device pciAddress scsiDisk target =
     outcome_bind (extractPCIAddress target) (\<lambda>(currentAddr, remainder).
       if currentAddr \<noteq> Some pciAddress then Ret False
       else case scsiDisk of
              None \<Rightarrow> Ret True
            | Some disk \<Rightarrow>
                outcome_bind (extractSCSI remainder) (\<lambda>currentSCSI.
                  case currentSCSI of None \<Rightarrow> Panic | Some c \<Rightarrow> Ret (c = disk)))"

fun find_loop ::
  "sysfs \<Rightarrow> string \<Rightarrow> PCIAddress \<Rightarrow> SCSIDisk option \<Rightarrow> string list \<Rightarrow> (string \<times> int \<times> int) result outcome" where
  "find_loop fs sys pciAddress scsiDisk [] = Ret (Inr ([], 0, 0))"
| "find_loop fs sys pciAddress scsiDisk (entry # files) =
     (let fullpath = filepath_Join [sys, entry] in
      case Readlink fs fullpath of
        Inl err \<Rightarrow> Ret (Inl err)
      | Inr target \<Rightarrow>
          outcome_bind (matches_device pciAddress scsiDisk target) (\<lambda>ok.
            if \<not> ok then find_loop fs sys pciAddress scsiDisk files
            else case strings_LastIndex target blockSep of
                   None \<Rightarrow> find_loop fs sys pciAddress scsiDisk files
                 | Some sep \<Rightarrow>
                     let dev = drop (sep + length blockSep) target in
                     (case FindStringSubmatch majorMinor 2 entry of
                        None \<Rightarrow> Ret (Inl (Errorf ''Unexpected entry in %s, not a major:minor symlink: %s'' [sys, entry]))
                      | Some parts \<Rightarrow> Ret (Inr (dev, Atoi_value (parts ! 1), Atoi_value (parts ! 2))))))"

definition findDev ::
  "sysfs \<Rightarrow> string \<Rightarrow> PCIAddress \<Rightarrow> SCSIDisk option \<Rightarrow> (string \<times> int \<times> int) result outcome" where
  "findDev fs sys pciAddress scsiDisk =
     (case ReadDir fs sys of
        Inl err \<Rightarrow> Ret (Inl err)
      | Inr files \<Rightarrow> find_loop fs sys pciAddress scsiDisk files)"

text \<open>How \<^verbatim>\<open>%+v\<close> prints a SCSI disk: the compact text of the message, without fields that are zero.\<close>

definition scsi_text :: "SCSIDisk option \<Rightarrow> string" where
  "scsi_text d = (case d of None \<Rightarrow> ''<nil>''
     | Some d \<Rightarrow> (if Target d = 0 then [] else ''target:'' @ strconv_Itoa (uint (Target d)) @ '' '')
              @ (if Lun d = 0 then [] else ''lun:'' @ strconv_Itoa (uint (Lun d)) @ '' ''))"

text \<open>
  What ends one round of waiting: the context is done, something changed, the timer fired or the
  watcher failed.
\<close>

datatype wait_event = CtxDone | Changed | Timer | WatchError go_error

text \<open>
  The loop of \<^verbatim>\<open>waitForDevice\<close> over the rounds to come, each with the directory as it is when the
  round starts and with what happens then. \<open>None\<close>: the rounds are used up and the loop still waits.
\<close>

fun wait_loop ::
  "string \<Rightarrow> PCIAddress \<Rightarrow> SCSIDisk option \<Rightarrow> (sysfs \<times> wait_event) list \<Rightarrow> (string \<times> int \<times> int) result outcome option" where
  "wait_loop sys pciAddress scsiDisk [] = None"
| "wait_loop sys pciAddress scsiDisk ((fs, ev) # rounds) =
     (case findDev fs sys pciAddress scsiDisk of
        Panic \<Rightarrow> Some Panic
      | Ret (Inl err) \<Rightarrow> Some (Ret (Inl (StatusOf Internal err)))
      | Ret (Inr (dev, major, minor)) \<Rightarrow>
          if dev \<noteq> [] then Some (Ret (Inr (dev, major, minor)))
          else (case ev of
                  CtxDone \<Rightarrow> Some (Ret (Inl (StatusErr DeadlineExceeded
                    (''timed out waiting for device %s, SCSI disk '%s'' @ [CHR 0x27])
                    [PrettyPCIAddress (Some pciAddress), scsi_text scsiDisk])))
                | WatchError err \<Rightarrow> Some (Ret (Inl (StatusErr Internal ''watching %s: %s'' [sys, error_text err])))
                | _ \<Rightarrow> wait_loop sys pciAddress scsiDisk rounds))"

definition waitForDevice ::
  "unit result \<Rightarrow> string \<Rightarrow> PCIAddress \<Rightarrow> SCSIDisk option \<Rightarrow> (sysfs \<times> wait_event) list
   \<Rightarrow> (string \<times> int \<times> int) result outcome option" where
  "waitForDevice watcher sys pciAddress scsiDisk rounds =
     (case watcher of
        Inl err \<Rightarrow> Some (Ret (Inl (StatusOf Internal err)))
      | Inr _ \<Rightarrow> wait_loop sys pciAddress scsiDisk rounds)"

section \<open>Device numbers\<close>

text \<open>
  How glibc reads a device number back. The kernel's \<^verbatim>\<open>mknod\<close> sees its low 32 bits only: twelve bits
  of major and twenty bits of minor number.
\<close>

definition gnu_dev_major :: "64 word \<Rightarrow> 64 word" where
  "gnu_dev_major dev = (drop_bit 8 dev AND 0xfff) OR (drop_bit 32 dev AND NOT 0xfff)"

definition gnu_dev_minor :: "64 word \<Rightarrow> 64 word" where
  "gnu_dev_minor dev = (dev AND 0xff) OR (drop_bit 12 dev AND take_bit 32 (NOT 0xff))"

lemma bit_mask8: "bit (0xff :: 64 word) n \<longleftrightarrow> n < 8"
  using bit_mask_iff [where 'a = "64 word", of 8 n] by (simp add: mask_eq_exp_minus_1) auto

lemma bit_mask12: "bit (0xfff :: 64 word) n \<longleftrightarrow> n < 12"
  using bit_mask_iff [where 'a = "64 word", of 12 n] by (simp add: mask_eq_exp_minus_1) auto

lemma bit_high: "(m :: nat) < 2 ^ k \<Longrightarrow> \<not> n < k \<Longrightarrow> \<not> bit m n"
proof -
  assume m: "m < 2 ^ k" "\<not> n < k"
  then have "(2::nat) ^ k \<le> 2 ^ n" by simp
  with m(1) have "m < 2 ^ n" by (rule less_le_trans)
  then show ?thesis by (simp add: bit_iff_odd)
qed

lemmas dev_bits = bit_or_iff bit_and_iff bit_not_iff bit_push_bit_iff bit_drop_bit_eq bit_take_bit_iff
  bit_mask8 bit_mask12 bit_of_nat_iff possible_bit_word

lemma bit_makedev:
  "bit (makedev (word_of_nat major) (word_of_nat minor)) n \<longleftrightarrow> n < 64 \<and>
     (n < 8 \<and> bit minor n \<or> 8 \<le> n \<and> n < 20 \<and> bit major (n - 8)
      \<or> 20 \<le> n \<and> bit minor (n - 12) \<or> 44 \<le> n \<and> bit major (n - 32))"
proof -
  consider "n < 8" | "8 \<le> n" "n < 12" | "12 \<le> n" "n < 20" | "20 \<le> n" "n < 32" | "32 \<le> n" "n < 44" | "44 \<le> n"
    by linarith
  then show ?thesis
    unfolding makedev_def dev_bits by cases auto
qed

lemma bit_gnu_dev:
  "bit (gnu_dev_major dev) n \<longleftrightarrow> (if n < 12 then bit dev (n + 8) else n < 64 \<and> bit dev (n + 32))"
  "bit (gnu_dev_minor dev) n \<longleftrightarrow> (if n < 8 then bit dev n else n < 32 \<and> bit dev (n + 12))"
  unfolding gnu_dev_major_def gnu_dev_minor_def dev_bits
  by (auto simp: add.commute)

lemma gnu_dev_makedev:
  assumes "major < 2 ^ 32" and "minor < 2 ^ 32"
  shows "gnu_dev_major (makedev (word_of_nat major) (word_of_nat minor)) = word_of_nat major"
    and "gnu_dev_minor (makedev (word_of_nat major) (word_of_nat minor)) = word_of_nat minor"
proof -
  note b = bit_high [OF assms(1)] bit_high [OF assms(2)]
  show "gnu_dev_major (makedev (word_of_nat major) (word_of_nat minor)) = word_of_nat major"
  proof (rule bit_word_eqI)
    fix n assume "n < LENGTH(64)"
    show "bit (gnu_dev_major (makedev (word_of_nat major) (word_of_nat minor))) n
      = bit (word_of_nat major :: 64 word) n"
      unfolding bit_gnu_dev bit_makedev bit_of_nat_iff possible_bit_word
      using b(1) [of n] b(2) [of "20 + n"] by (cases "n < 12"; cases "n < 32") simp_all
  qed
  show "gnu_dev_minor (makedev (word_of_nat major) (word_of_nat minor)) = word_of_nat minor"
  proof (rule bit_word_eqI)
    fix n assume "n < LENGTH(64)"
    show "bit (gnu_dev_minor (makedev (word_of_nat major) (word_of_nat minor))) n
      = bit (word_of_nat minor :: 64 word) n"
      unfolding bit_gnu_dev bit_makedev bit_of_nat_iff possible_bit_word
      using b(1) [of "n - 20"] b(2) [of n] by (cases "n < 8"; cases "n < 32") simp_all
  qed
qed

lemma makedev_32bit:
  assumes "major < 2 ^ 12" and "minor < 2 ^ 20"
  shows "take_bit 32 (makedev (word_of_nat major) (word_of_nat minor)) =
    makedev (word_of_nat major) (word_of_nat minor)"
proof (rule bit_word_eqI)
  fix n assume "n < LENGTH(64)"
  with bit_high [OF assms(1), of "n - 32"] bit_high [OF assms(2), of "n - 12"]
  show "bit (take_bit 32 (makedev (word_of_nat major) (word_of_nat minor))) n
    = bit (makedev (word_of_nat major) (word_of_nat minor)) n"
    unfolding bit_take_bit_iff bit_makedev by (cases "n < 32") auto
qed

section \<open>Links of the kernel\<close>

text \<open>
  The link of a SCSI disk behind a virtio controller, as the kernel prints it: the root bus, the
  address of the controller, the host, and target and LUN in decimal.
\<close>

definition devices :: string where "devices = ''../../devices''"

definition pci_name :: "PCIAddress \<Rightarrow> string" where
  "pci_name a = fmt_x 4 (unat (Domain a)) @ '':'' @ fmt_x 2 (unat (Bus a)) @ '':''
     @ fmt_x 2 (unat (Device a)) @ ''.'' @ fmt_x 0 (unat (Function a))"

definition pci_root :: "PCIAddress \<Rightarrow> string" where
  "pci_root a = ''/pci'' @ fmt_x 4 (unat (Domain a)) @ '':'' @ fmt_x 2 (unat (Bus a)) @ ''/'' @ pci_name a @ ''/''"

definition scsi_part :: "nat \<Rightarrow> nat \<Rightarrow> nat \<Rightarrow> string" where
  "scsi_part host target lun = ''/target'' @ print_base 10 host @ '':0:'' @ print_base 10 target @ ''/''
     @ print_base 10 host @ '':0:'' @ print_base 10 target @ '':'' @ print_base 10 lun @ ''/block/''"

definition dev_link :: "PCIAddress \<Rightarrow> nat \<Rightarrow> nat \<Rightarrow> nat \<Rightarrow> nat \<Rightarrow> string \<Rightarrow> string" where
  "dev_link a virtio host target lun dev = devices @ pci_root a @ ''virtio'' @ print_base 10 virtio
     @ ''/host'' @ print_base 10 host @ scsi_part host target lun @ dev"

definition full_pci :: "PCIAddress \<Rightarrow> bool" where
  "full_pci a \<longleftrightarrow> unat (Domain a) < 0x10000 \<and> unat (Bus a) < 0x100 \<and> unat (Device a) < 0x100 \<and> unat (Function a) < 8"

lemma not_hex_seps: "\<not> is_hex_digit (CHR ''/'')" "\<not> is_hex_digit (CHR '':'')" "\<not> is_hex_digit (CHR ''.'')"
  by (simp_all add: is_hex_digit_def digit_val_def)

lemma not_digit_seps: "\<not> is_digit (CHR ''/'')" "\<not> is_digit (CHR '':'')" "\<not> octal (CHR ''/'')"
  by (simp_all add: is_digit_def octal_def)

lemma pci_pieces_det: "rx_det pci_pieces" "list_all rx_piece pci_pieces"
  by (simp_all add: pci_pieces_def not_hex_seps not_digit_seps)

lemma scsi_pieces_det: "rx_det scsi_pieces" "list_all rx_piece scsi_pieces"
  by (simp_all add: scsi_pieces_def not_digit_seps)

lemma fmt_x_field:
  assumes "unat x < 16 ^ Suc k" and "Suc k \<le> 4" and "w \<le> Suc k"
  shows "list_all is_hex_digit (fmt_x w (unat x)) \<and> Suc 0 \<le> length (fmt_x w (unat x))
    \<and> length (fmt_x w (unat x)) \<le> Suc k \<and> HexToU32 (fmt_x w (unat x)) = Ret x"
proof -
  have hex: "list_all is_hex_digit (fmt_x w (unat x))" using fmt_x_hex_digits by (auto simp: list_all_iff)
  have len: "length (fmt_x w (unat x)) \<le> Suc k" "fmt_x w (unat x) \<noteq> []"
    using length_fmt_x [OF assms(1), of w] assms(3) by simp_all
  then have "Suc 0 \<le> length (fmt_x w (unat x))" by (cases "fmt_x w (unat x)") auto
  with hex len assms show ?thesis
    by (simp add: HexToU32_hex hex_field_fmt_x)
qed

lemma fmt_x_function:
  assumes "unat (x :: uint32) < 8"
  shows "list_all octal (fmt_x 0 (unat x)) \<and> length (fmt_x 0 (unat x)) = Suc 0"
proof -
  have "x \<noteq> 0xFFFF" using assms by auto
  with function_text [of x] assms length_fmt_x(2) [of "unat x" 0 0] show ?thesis
    by (cases "fmt_x 0 (unat x)") (auto simp: field_text_def pci_field_def)
qed

lemma pciRe_root:
  assumes "full_pci a"
  shows "FindStringSubmatch pciRe 4 (devices @ pci_root a @ s) =
    Some [pci_root a, fmt_x 4 (unat (Domain a)), fmt_x 2 (unat (Bus a)), fmt_x 2 (unat (Device a)), fmt_x 0 (unat (Function a))]"
proof -
  let ?ts = "[''/pci'', fmt_x 4 (unat (Domain a)), '':'', fmt_x 2 (unat (Bus a)), ''/'', fmt_x 4 (unat (Domain a)), '':'',
    fmt_x 2 (unat (Bus a)), '':'', fmt_x 2 (unat (Device a)), ''.'', fmt_x 0 (unat (Function a)), ''/'']"
  have root: "pci_root a = concat ?ts" by (simp add: pci_root_def pci_name_def)
  have ok: "list_all2 piece_ok pci_pieces ?ts"
    using assms fmt_x_field [of "Domain a" 3 4] fmt_x_field [of "Bus a" 1 2] fmt_x_field [of "Device a" 1 2]
      fmt_x_function [of "Function a"]
    by (simp add: pci_pieces_def full_pci_def)
  have caps: "map (rx_group (pieces_caps pci_pieces ?ts [])) [1 ..< Suc 4] =
      [fmt_x 4 (unat (Domain a)), fmt_x 2 (unat (Bus a)), fmt_x 2 (unat (Device a)), fmt_x 0 (unat (Function a))]"
    by (simp add: pci_pieces_def rx_group_def upt_rec)
  have "FindStringSubmatch pciRe 4 (devices @ pci_root a @ s) = rx_search pciRe 4 13 (pci_root a @ s)"
    unfolding FindStringSubmatch_def pciRe_def pci_pieces_def rx_cat.simps
    by (simp add: devices_def rx_search_skip strings_HasPrefix_def eval_nat_numeral)
  also have "\<dots> = Some (pci_root a # map (rx_group (pieces_caps pci_pieces ?ts [])) [1 ..< Suc 4])"
    unfolding root pciRe_def using rx_search_det [OF pci_pieces_det ok] .
  finally show ?thesis unfolding caps .
qed

lemma Remove1_root: "strings_Remove1 (devices @ pci_root a @ s) (pci_root a) = devices @ s"
proof -
  have "strings_HasPrefix (pci_root a @ s) (pci_root a)" by simp
  then have "strings_Index (pci_root a @ s) (pci_root a) = Some 0"
    by (cases "pci_root a @ s") (simp_all add: pci_root_def)
  moreover obtain r where "pci_root a = ''/pci'' @ r" by (simp add: pci_root_def)
  ultimately have "strings_Index (devices @ pci_root a @ s) (pci_root a) = Some (length devices)"
    by (simp add: devices_def strings_HasPrefix_def)
  then show ?thesis by (simp add: strings_Remove1_def)
qed

lemma extractPCIAddress_root:
  assumes "full_pci a"
  shows "extractPCIAddress (devices @ pci_root a @ s) = Ret (Some a, devices @ s)"
  using assms fmt_x_field [of "Domain a" 3 4] fmt_x_field [of "Bus a" 1 2] fmt_x_field [of "Device a" 1 2]
    fmt_x_field [of "Function a" 0 0]
  by (simp add: extractPCIAddress_def pciRe_root Remove1_root full_pci_def)

lemma digit_no_slash: "is_digit c \<Longrightarrow> c \<noteq> CHR ''/''"
  using not_digit_seps by auto

lemma dec_no_slash: "list_all (\<lambda>x. x \<noteq> CHR ''/'') (print_base 10 n)"
  using print_dec_digits digit_no_slash by (auto simp: list_all_iff)

lemma scsi_search_skip:
  "list_all (\<lambda>x. x \<noteq> CHR ''/'') w \<Longrightarrow> rx_search scsiRe n p (w @ s) = rx_search scsiRe n (p + length w) s"
  unfolding scsiRe_def scsi_pieces_def rx_cat.simps by (rule rx_search_skip_word)

lemma scsi_search_slash:
  "c \<noteq> CHR ''t'' \<Longrightarrow> rx_search scsiRe n p (CHR ''/'' # c # s) = rx_search scsiRe n (Suc p) (c # s)"
  unfolding scsiRe_def scsi_pieces_def rx_cat.simps by (rule rx_search_skip) (simp add: strings_HasPrefix_def)

lemma print_base_length: "Suc 0 \<le> length (print_base b n)"
  using print_base_nonempty [of b n] by (cases "print_base b n") auto

lemma scsiRe_part:
  "rx_search scsiRe 2 p (scsi_part host target lun @ dev) =
     Some [scsi_part host target lun, print_base 10 target, print_base 10 lun]"
proof -
  let ?ts = "[''/target'', print_base 10 host, '':'', ''0'', '':'', print_base 10 target, ''/'', print_base 10 host, '':'',
    ''0'', '':'', print_base 10 target, '':'', print_base 10 lun, ''/block/'']"
  have part: "scsi_part host target lun = concat ?ts" by (simp add: scsi_part_def)
  have ok: "list_all2 piece_ok scsi_pieces ?ts"
    by (simp add: scsi_pieces_def list_all_is_digit_print print_base_length is_digit_def)
  have caps: "map (rx_group (pieces_caps scsi_pieces ?ts [])) [1 ..< Suc 2] = [print_base 10 target, print_base 10 lun]"
    by (simp add: scsi_pieces_def rx_group_def upt_rec)
  show ?thesis unfolding part scsiRe_def
    using rx_search_det [OF scsi_pieces_det ok, of 2 p dev] unfolding caps .
qed

lemma scsiRe_link:
  "FindStringSubmatch scsiRe 2 (devices @ ''virtio'' @ print_base 10 virtio @ ''/host'' @ print_base 10 host
     @ scsi_part host target lun @ dev) = Some [scsi_part host target lun, print_base 10 target, print_base 10 lun]"
proof -
  let ?s = "scsi_part host target lun @ dev"
  have "FindStringSubmatch scsiRe 2 (devices @ ''virtio'' @ print_base 10 virtio @ ''/host'' @ print_base 10 host @ ?s)
    = rx_search scsiRe 2 0 (''..'' @ CHR ''/'' # CHR ''.'' # ''.'' @ CHR ''/'' # CHR ''d'' #
        (''evicesvirtio'' @ print_base 10 virtio) @ CHR ''/'' # CHR ''h'' # (''ost'' @ print_base 10 host) @ ?s)"
    by (simp add: FindStringSubmatch_def devices_def)
  also have "\<exists>p. \<dots> = rx_search scsiRe 2 p ?s"
  proof -
    have w: "list_all (\<lambda>x. x \<noteq> CHR ''/'') (CHR ''.'' # ''.'')" "list_all (\<lambda>x. x \<noteq> CHR ''/'') (''..'')"
      "list_all (\<lambda>x. x \<noteq> CHR ''/'') (CHR ''d'' # (''evicesvirtio'' @ print_base 10 virtio))"
      "list_all (\<lambda>x. x \<noteq> CHR ''/'') (CHR ''h'' # (''ost'' @ print_base 10 host))"
      by (simp_all add: dec_no_slash)
    show ?thesis
      using scsi_search_skip [OF w(1)] scsi_search_skip [OF w(2)] scsi_search_skip [OF w(3)] scsi_search_skip [OF w(4)]
      by (simp add: scsi_search_slash) blast
  qed
  finally show ?thesis using scsiRe_part by auto
qed

lemma HexToU32_dec: "n < 10 \<Longrightarrow> HexToU32 (print_base 10 n) = Ret (word_of_nat n)"
proof -
  assume n: "n < 10"
  then have "print_base 10 n = fmt_x 0 (unat (word_of_nat n :: uint32))"
    by (simp add: fmt_x_def unsigned_of_nat take_bit_nat_eq_self print_base.simps [of 10] print_base.simps [of 16])
  with n fmt_x_field [of "word_of_nat n" 0 0] show ?thesis
    by (simp add: unsigned_of_nat take_bit_nat_eq_self)
qed

lemma extractSCSI_link:
  assumes "target < 10" and "lun < 10"
  shows "extractSCSI (devices @ ''virtio'' @ print_base 10 virtio @ ''/host'' @ print_base 10 host
     @ scsi_part host target lun @ dev) = Ret (Some \<lparr>Target = word_of_nat target, Lun = word_of_nat lun\<rparr>)"
  unfolding extractSCSI_def scsiRe_link using assms by (simp add: HexToU32_dec)

lemma matches_device_link:
  assumes "full_pci a" and "target < 10" and "lun < 10"
  shows "matches_device a (Some \<lparr>Target = word_of_nat target, Lun = word_of_nat lun\<rparr>)
    (dev_link a virtio host target lun dev) = Ret True"
  using assms extractSCSI_link [OF assms(2,3), simplified]
  by (simp add: matches_device_def dev_link_def extractPCIAddress_root)

lemma LastIndex_block:
  assumes "CHR ''/'' \<notin> set v"
  shows "strings_LastIndex (u @ blockSep @ v) blockSep = Some (length u)"
proof (induction u)
  case Nil
  have "strings_LastIndex (''block/'' @ v) blockSep = None"
  proof (rule ccontr)
    assume "strings_LastIndex (''block/'' @ v) blockSep \<noteq> None"
    then obtain x y where "''block/'' @ v = x @ blockSep @ y" using strings_LastIndex_Some by blast
    then have "count_list (''block/'' @ v) (CHR ''/'') = count_list (x @ blockSep @ y) (CHR ''/'')" by simp
    moreover have "count_list v (CHR ''/'') = 0" using assms by (simp add: count_list_0_iff)
    ultimately show False by (simp add: blockSep_def)
  qed
  then show ?case by (simp add: blockSep_def strings_HasPrefix_def)
qed simp

lemma dev_link_block:
  "dev_link a virtio host target lun dev = (devices @ pci_root a @ ''virtio'' @ print_base 10 virtio @ ''/host''
     @ print_base 10 host @ ''/target'' @ print_base 10 host @ '':0:'' @ print_base 10 target @ ''/''
     @ print_base 10 host @ '':0:'' @ print_base 10 target @ '':'' @ print_base 10 lun) @ blockSep @ dev"
  by (simp add: dev_link_def scsi_part_def blockSep_def)

lemma majorMinor_entry:
  "FindStringSubmatch majorMinor 2 (print_base 10 major @ '':'' @ print_base 10 minor) =
     Some [print_base 10 major @ '':'' @ print_base 10 minor, print_base 10 major, print_base 10 minor]"
proof -
  let ?rs = "[Grp 1 (Cls is_digit 1 None), Lit '':'', Grp 2 (Cls is_digit 1 None)]"
  let ?s = "print_base 10 major @ '':'' @ print_base 10 minor"
  have re: "majorMinor = Cat Bol (rx_cat (?rs @ [Eol]))" by (simp add: majorMinor_def)
  have "list_all rx_piece ?rs" by simp
  note match = rx_match_pieces_Eol [OF this, of _ 0 ?s "[]"]
  have mm: "list_all is_digit (print_base 10 major)" "list_all is_digit (print_base 10 minor)"
    by (simp_all add: list_all_is_digit_print)
  show ?thesis unfolding re
  proof (rule FindStringSubmatch_anchored_eq)
    have "list_all2 piece_ok ?rs [print_base 10 major, '':'', print_base 10 minor]"
      using mm by (simp add: print_base_length)
    then show "(length ?s, [], pieces_caps ?rs [print_base 10 major, '':'', print_base 10 minor] [])
      \<in> set (rx_match (rx_cat (?rs @ [Eol])) (0, ?s, []))"
      unfolding match by (intro exI [of _ "[print_base 10 major, '':'', print_base 10 minor]"]) simp
  next
    fix p' s' cs assume "(p', s', cs) \<in> set (rx_match (rx_cat (?rs @ [Eol])) (0, ?s, []))"
    then obtain ts where ts: "list_all2 piece_ok ?rs ts" "?s = concat ts" "(p', s', cs) = (0 + length ?s, [], pieces_caps ?rs ts [])"
      unfolding match by blast
    then obtain u w where u: "ts = [u, '':'', w]" "list_all is_digit u"
      by (auto simp: list_all2_Cons1)
    with ts(2) have "print_base 10 major @ CHR '':'' # print_base 10 minor = u @ CHR '':'' # w" by simp
    from class_run_unique [OF this mm(1) u(2) not_digit_seps(2)] u ts
    show "take p' ?s # map (rx_group cs) [1 ..< Suc 2] = [?s, print_base 10 major, print_base 10 minor]"
      by (simp add: rx_group_def upt_rec)
  qed
qed

lemma Atoi_value_dec: "n < 2 ^ 63 \<Longrightarrow> Atoi_value (print_base 10 n) = int n"
  using Atoi_Itoa [of "int n"] by (simp add: Atoi_value_def strconv_Itoa_def is_int64_def)

section \<open>The search\<close>

text \<open>An entry that the search passes over: it belongs to something else, or it names no block device.\<close>

definition passed_over :: "sysfs \<Rightarrow> string \<Rightarrow> PCIAddress \<Rightarrow> SCSIDisk option \<Rightarrow> string \<Rightarrow> bool" where
  "passed_over fs sys a d entry =
     (case Readlink fs (filepath_Join [sys, entry]) of
        Inl _ \<Rightarrow> False
      | Inr target \<Rightarrow> matches_device a d target = Ret False
          \<or> matches_device a d target = Ret True \<and> strings_LastIndex target blockSep = None)"

lemma find_loop_skip:
  "list_all (passed_over fs sys a d) pre \<Longrightarrow> find_loop fs sys a d (pre @ files) = find_loop fs sys a d files"
  by (induction pre) (auto simp: passed_over_def Let_def split: sum.splits)

text \<open>What the search returns: nothing, or the device of the first entry that it does not pass over.\<close>

lemma find_loop_cases:
  "find_loop fs sys a d files = Ret (Inr ([], 0, 0)) \<and> list_all (passed_over fs sys a d) files
   \<or> (\<exists>pre entry post. files = pre @ entry # post \<and> list_all (passed_over fs sys a d) pre
        \<and> \<not> passed_over fs sys a d entry \<and> find_loop fs sys a d files = find_loop fs sys a d (entry # post))"
proof (induction files)
  case (Cons e files)
  show ?case
  proof (cases "passed_over fs sys a d e")
    case True
    then have eq: "find_loop fs sys a d (e # files) = find_loop fs sys a d files"
      using find_loop_skip [of fs sys a d "[e]"] by simp
    from Cons.IH show ?thesis
    proof
      assume "\<exists>pre entry post. files = pre @ entry # post \<and> list_all (passed_over fs sys a d) pre
        \<and> \<not> passed_over fs sys a d entry \<and> find_loop fs sys a d files = find_loop fs sys a d (entry # post)"
      then obtain pre entry post where "files = pre @ entry # post" "list_all (passed_over fs sys a d) pre"
        "\<not> passed_over fs sys a d entry" "find_loop fs sys a d files = find_loop fs sys a d (entry # post)" by blast
      with eq True show ?thesis by (intro disjI2 exI [of _ "e # pre"] exI [of _ entry] exI [of _ post]) simp
    qed (use eq True in simp)
  next
    case False
    then show ?thesis by (intro disjI2 exI [of _ "[]"] exI [of _ e] exI [of _ files]) simp
  qed
qed simp

lemma find_loop_hit:
  assumes "full_pci a" and "target < 10" and "lun < 10" and "CHR ''/'' \<notin> set dev"
    and "major < 2 ^ 63" and "minor < 2 ^ 63"
    and "Readlink fs (filepath_Join [sys, print_base 10 major @ '':'' @ print_base 10 minor]) =
      Inr (dev_link a virtio host target lun dev)"
  shows "find_loop fs sys a (Some \<lparr>Target = word_of_nat target, Lun = word_of_nat lun\<rparr>)
    ((print_base 10 major @ '':'' @ print_base 10 minor) # files) = Ret (Inr (dev, int major, int minor))"
proof -
  let ?t = "dev_link a virtio host target lun dev"
  obtain u where t: "?t = u @ blockSep @ dev" using dev_link_block by blast
  then have "strings_LastIndex ?t blockSep = Some (length u)" using LastIndex_block [OF assms(4)] by simp
  moreover have "drop (length u + length blockSep) ?t = dev" unfolding t by simp
  ultimately show ?thesis
    using assms(7) matches_device_link [OF assms(1-3), of virtio host dev]
      majorMinor_entry [of major minor] Atoi_value_dec [OF assms(5)] Atoi_value_dec [OF assms(6)]
    by (simp add: Let_def)
qed

lemma find_loop_found:
  assumes "find_loop fs sys a d (entry # files) = Ret (Inr (dev, major, minor))"
    and "\<not> passed_over fs sys a d entry"
  shows "\<exists>target u parts. Readlink fs (filepath_Join [sys, entry]) = Inr target
    \<and> matches_device a d target = Ret True \<and> target = u @ blockSep @ dev
    \<and> FindStringSubmatch majorMinor 2 entry = Some parts \<and> major = Atoi_value (parts ! 1)
    \<and> minor = Atoi_value (parts ! 2)"
proof -
  obtain target where link: "Readlink fs (filepath_Join [sys, entry]) = Inr target"
    using assms(1) by (auto simp: Let_def split: sum.splits)
  obtain b where m: "matches_device a d target = Ret b"
    using assms(1) link by (cases "matches_device a d target") (auto simp: Let_def)
  then have b: "b" and "strings_LastIndex target blockSep \<noteq> None"
    using assms(2) link by (auto simp: passed_over_def)
  then obtain sep where sep: "strings_LastIndex target blockSep = Some sep" by blast
  then obtain u v where t: "target = u @ blockSep @ v" "length u = sep" using strings_LastIndex_Some by blast
  then have v: "drop (sep + length blockSep) target = v" by simp
  obtain parts where parts: "FindStringSubmatch majorMinor 2 entry = Some parts"
    using assms(1) link m b sep by (auto simp: Let_def split: option.splits)
  have "dev = v" "major = Atoi_value (parts ! 1)" "minor = Atoi_value (parts ! 2)"
    using assms(1) link m b sep parts v by (simp_all add: Let_def)
  with link m b t parts show ?thesis by auto
qed

text \<open>A directory in which the search finds nothing.\<close>

definition quiet :: "sysfs \<Rightarrow> string \<Rightarrow> PCIAddress \<Rightarrow> SCSIDisk option \<Rightarrow> bool" where
  "quiet fs sys a d = (case ReadDir fs sys of Inl _ \<Rightarrow> False | Inr files \<Rightarrow> list_all (passed_over fs sys a d) files)"

text \<open>A directory in which the kernel shows the disk, with nothing else in its place.\<close>

definition shows_disk :: "sysfs \<Rightarrow> string \<Rightarrow> PCIAddress \<Rightarrow> nat \<Rightarrow> nat \<Rightarrow> string \<Rightarrow> nat \<Rightarrow> nat \<Rightarrow> bool" where
  "shows_disk fs sys a target lun dev major minor \<longleftrightarrow>
     (\<exists>pre post virtio host.
        ReadDir fs sys = Inr (pre @ (print_base 10 major @ '':'' @ print_base 10 minor) # post)
        \<and> list_all (passed_over fs sys a (Some \<lparr>Target = word_of_nat target, Lun = word_of_nat lun\<rparr>)) pre
        \<and> Readlink fs (filepath_Join [sys, print_base 10 major @ '':'' @ print_base 10 minor]) =
            Inr (dev_link a virtio host target lun dev))"

lemma quiet_findDev: "quiet fs sys a d \<Longrightarrow> findDev fs sys a d = Ret (Inr ([], 0, 0))"
  using find_loop_skip [of fs sys a d _ "[]"] by (auto simp: quiet_def findDev_def split: sum.splits)

lemma shows_disk_findDev:
  assumes "full_pci a" and "target < 10" and "lun < 10" and "CHR ''/'' \<notin> set dev"
    and "major < 2 ^ 63" and "minor < 2 ^ 63" and "shows_disk fs sys a target lun dev major minor"
  shows "findDev fs sys a (Some \<lparr>Target = word_of_nat target, Lun = word_of_nat lun\<rparr>)
    = Ret (Inr (dev, int major, int minor))"
proof -
  obtain pre post virtio host where
    d: "ReadDir fs sys = Inr (pre @ (print_base 10 major @ '':'' @ print_base 10 minor) # post)"
      "list_all (passed_over fs sys a (Some \<lparr>Target = word_of_nat target, Lun = word_of_nat lun\<rparr>)) pre"
      "Readlink fs (filepath_Join [sys, print_base 10 major @ '':'' @ print_base 10 minor]) =
            Inr (dev_link a virtio host target lun dev)"
    using assms(7) unfolding shows_disk_def by blast
  then show ?thesis
    using find_loop_skip [OF d(2)] find_loop_hit [OF assms(1-6) d(3)] by (simp add: findDev_def)
qed

lemma wait_loop_quiet:
  "list_all (\<lambda>(fs, ev). quiet fs sys a d \<and> (ev = Changed \<or> ev = Timer)) pre \<Longrightarrow>
   wait_loop sys a d (pre @ rounds) = wait_loop sys a d rounds"
  by (induction pre) (auto simp: quiet_findDev)

section \<open>Properties\<close>

text \<open>
  C32. A device number made by \<^verbatim>\<open>makedev\<close> is read back by the C library, and for the major and minor
  numbers that the kernel has, no bit is lost when \<^verbatim>\<open>mknod\<close> keeps the low 32 bits only.
\<close>

theorem makedev_roundtrip:
  assumes "major < 2 ^ 12" and "minor < 2 ^ 20"
  shows "gnu_dev_major (makedev (word_of_nat major) (word_of_nat minor)) = word_of_nat major
    \<and> gnu_dev_minor (makedev (word_of_nat major) (word_of_nat minor)) = word_of_nat minor
    \<and> take_bit 32 (makedev (word_of_nat major) (word_of_nat minor)) =
        makedev (word_of_nat major) (word_of_nat minor)"
proof -
  have "major < 2 ^ 32" "minor < 2 ^ 32" using assms by simp_all
  with gnu_dev_makedev makedev_32bit [OF assms] show ?thesis by simp
qed

theorem makedev_roundtrip_witness:
  "gnu_dev_major (makedev 259 0x12345) = 259 \<and> gnu_dev_minor (makedev 259 0x12345) = 0x12345"
  using makedev_roundtrip [of 259 "0x12345"] by simp


text \<open>
  The directory of the witnesses: a virtual disk that is not on the PCI bus, then the SCSI disk
  \<^verbatim>\<open>sda\<close> of target 7 behind the controller at 0000:00:15.0.
\<close>

definition sample_pci :: PCIAddress where
  "sample_pci = \<lparr>Domain = 0, Bus = 0, Device = 0x15, Function = 0\<rparr>"

definition sample_sysfs :: sysfs where
  "sample_sysfs = \<lparr>ReadDir = (\<lambda>_. Inr [''7:0'', ''8:0'']),
     Readlink = (\<lambda>p. if p = ''/sys/dev/block/8:0'' then Inr (dev_link sample_pci 3 0 7 0 ''sda'')
                    else Inr ''../../devices/virtual/block/loop0'')\<rparr>"

definition empty_sysfs :: sysfs where
  "empty_sysfs = \<lparr>ReadDir = (\<lambda>_. Inr []), Readlink = (\<lambda>_. Inl (OsError ENOENT))\<rparr>"

lemma full_sample_pci: "full_pci sample_pci"
  by (simp add: full_pci_def sample_pci_def)

lemma print_small: "print_base 10 0 = ''0''" "print_base 10 7 = ''7''" "print_base 10 8 = ''8''"
  by code_simp+

lemma sample_entries:
  "filepath_Join [''/sys/dev/block'', ''7:0''] = ''/sys/dev/block/7:0''"
  "filepath_Join [''/sys/dev/block'', ''8:0''] = ''/sys/dev/block/8:0''"
  by code_simp+

lemma sample_loop: "extractPCIAddress ''../../devices/virtual/block/loop0'' = Ret (None, ''../../devices/virtual/block/loop0'')"
  by code_simp

lemma sample_shows: "shows_disk sample_sysfs ''/sys/dev/block'' sample_pci 7 0 ''sda'' 8 0"
  unfolding shows_disk_def
  by (intro exI [of _ "[''7:0'']"] exI [of _ "[]"] exI [of _ 3] exI [of _ 0])
    (simp add: sample_sysfs_def sample_entries passed_over_def matches_device_def sample_loop print_small)


text \<open>
  C30. \<^verbatim>\<open>waitForDevice\<close> finds the disk: once the kernel shows a disk with the wanted PCI address, target
  and LUN, the next round returns its name and numbers, provided that nothing ended the rounds before
  (they found the directory without the disk, then a change or the timer). Target and LUN are below
  ten, as every target that the controller hands out is.
\<close>

theorem waitForDevice_finds:
  assumes "full_pci a" and "target < 10" and "lun < 10" and "CHR ''/'' \<notin> set dev" and "dev \<noteq> []"
    and "major < 2 ^ 63" and "minor < 2 ^ 63"
    and "list_all (\<lambda>(fs, ev). quiet fs sys a (Some \<lparr>Target = word_of_nat target, Lun = word_of_nat lun\<rparr>)
           \<and> (ev = Changed \<or> ev = Timer)) before"
    and "shows_disk fs sys a target lun dev major minor"
  shows "waitForDevice (Inr ()) sys a (Some \<lparr>Target = word_of_nat target, Lun = word_of_nat lun\<rparr>)
    (before @ (fs, ev) # later) = Some (Ret (Inr (dev, int major, int minor)))"
  using shows_disk_findDev [OF assms(1-4,6,7,9)] wait_loop_quiet [OF assms(8)] assms(5)
  by (simp add: waitForDevice_def)

theorem waitForDevice_finds_witness:
  "waitForDevice (Inr ()) ''/sys/dev/block'' sample_pci (Some \<lparr>Target = word_of_nat 7, Lun = word_of_nat 0\<rparr>)
    ([(empty_sysfs, Changed), (empty_sysfs, Timer)] @ (sample_sysfs, CtxDone) # []) = Some (Ret (Inr (''sda'', int 8, int 0)))"
  by (rule waitForDevice_finds [OF full_sample_pci])
    (simp_all add: sample_shows quiet_def empty_sysfs_def)

section \<open>Links that the search does not expect\<close>

lemma scsi_search_end: "list_all (\<lambda>x. x \<noteq> CHR ''/'') w \<Longrightarrow> rx_search scsiRe n p w = None"
  using scsi_search_skip [of w n p "[]"]
  by (simp add: rx_search.simps [of scsiRe _ _ "[]"])
    (simp add: scsiRe_def scsi_pieces_def strings_HasPrefix_def)

text \<open>
  A block device that is not a SCSI disk and sits at the wanted PCI address ends the process: no SCSI
  address is found, and the code compares through the nil pointer.
\<close>

theorem nonSCSI_link_panics:
  assumes "full_pci a" and "CHR ''/'' \<notin> set dev"
  shows "matches_device a (Some d) (devices @ pci_root a @ ''virtio'' @ print_base 10 virtio @ ''/block/'' @ dev) = Panic"
proof -
  have w: "list_all (\<lambda>x. x \<noteq> CHR ''/'') (CHR ''.'' # ''.'')" "list_all (\<lambda>x. x \<noteq> CHR ''/'') (''..'')"
    "list_all (\<lambda>x. x \<noteq> CHR ''/'') (CHR ''d'' # (''evicesvirtio'' @ print_base 10 virtio))"
    "list_all (\<lambda>x. x \<noteq> CHR ''/'') (CHR ''b'' # ''lock'')"
    "list_all (\<lambda>x. x \<noteq> CHR ''/'') dev"
    using assms(2) dec_no_slash [of virtio] by (auto simp: list_all_iff)
  have last: "rx_search scsiRe 2 p (CHR ''/'' # dev) = None" for p
  proof -
    have "x \<notin> set (rx_match scsiRe (p, CHR ''/'' # dev, []))" for x
    proof
      assume "x \<in> set (rx_match scsiRe (p, CHR ''/'' # dev, []))"
      then obtain ts s' where ts: "CHR ''/'' # dev = concat ts @ s'" "list_all2 piece_ok scsi_pieces ts"
        unfolding scsiRe_def using rx_match_pieces [OF scsi_pieces_det(2)] by blast
      then have "2 \<le> count_list (concat ts @ s') (CHR ''/'')"
        by (auto simp: scsi_pieces_def list_all2_Cons1)
      moreover have "count_list dev (CHR ''/'') = 0" using assms(2) by (simp add: count_list_0_iff)
      ultimately show False unfolding ts(1) [symmetric] by simp
    qed
    then have "rx_match scsiRe (p, CHR ''/'' # dev, []) = []" by (metis list.set_intros(1) neq_Nil_conv)
    then show ?thesis using rx_search_next scsi_search_end [OF w(5)] by metis
  qed
  have "FindStringSubmatch scsiRe 2 (devices @ ''virtio'' @ print_base 10 virtio @ ''/block/'' @ dev) =
    rx_search scsiRe 2 0 (''..'' @ CHR ''/'' # CHR ''.'' # ''.'' @ CHR ''/'' # CHR ''d'' #
        (''evicesvirtio'' @ print_base 10 virtio) @ CHR ''/'' # CHR ''b'' # ''lock'' @ CHR ''/'' # dev)"
    by (simp add: FindStringSubmatch_def devices_def)
  also have "\<dots> = None"
    using scsi_search_skip [OF w(1)] scsi_search_skip [OF w(2)] scsi_search_skip [OF w(3)] scsi_search_skip [OF w(4)]
    by (simp add: scsi_search_slash last)
  finally have "FindStringSubmatch scsiRe 2 (devices @ ''virtio'' @ print_base 10 virtio @ ''/block/'' @ dev) = None" .
  then show ?thesis using assms(1) by (simp add: matches_device_def extractPCIAddress_root extractSCSI_def)
qed

text \<open>Decimal numbers are read as hexadecimal ones: the disk of target 10 is not found.\<close>

theorem SCSI_target_decimal:
  assumes "full_pci a" and "lun < 10"
  shows "matches_device a (Some \<lparr>Target = 10, Lun = word_of_nat lun\<rparr>) (dev_link a virtio host 10 lun dev) = Ret False"
proof -
  have "print_base 10 10 = ''10''" by code_simp
  then have "HexToU32 (print_base 10 10) = Ret 16"
    by (simp add: HexToU32_def parse_uint16_hex_def digit_val_def)
  then have "extractSCSI (devices @ ''virtio'' @ print_base 10 virtio @ ''/host'' @ print_base 10 host
     @ scsi_part host 10 lun @ dev) = Ret (Some \<lparr>Target = 16, Lun = word_of_nat lun\<rparr>)"
    unfolding extractSCSI_def scsiRe_link using assms(2) by (simp add: HexToU32_dec)
  then show ?thesis using assms(1) by (simp add: matches_device_def dev_link_def extractPCIAddress_root)
qed

end
