(* ===== verification/Registry_Path.thy ===== *)
theory Registry_Path
  imports Go_Strings
begin

text \<open>
  Registry keys (\<^verbatim>\<open>pkg/oim-common/path.go\<close>): a path is split at slashes into elements, with
  \<open>.\<close> and \<open>..\<close> refused, and joined again into its canonical form. The registry stores its
  entries under canonical paths only, and its permission check reads the elements.
\<close>

section \<open>Definitions\<close>

definition RegistryAddress :: string where
  "RegistryAddress = ''address''"

definition RegistryPCI :: string where
  "RegistryPCI = ''pci''"

definition SplitRegistryPath :: "string \<Rightarrow> string list result" where
  "SplitRegistryPath path =
     (let elements = strings_FieldsFunc path (\<lambda>r. r = CHR ''/'')
      in case find (\<lambda>element. element = ''.'' \<or> element = ''..'') elements of
           Some element \<Rightarrow> Inl (Errorf ''%s: %q not allowed as path element'' [path, element])
         | None \<Rightarrow> Inr elements)"

definition JoinRegistryPath :: "string list \<Rightarrow> string" where
  "JoinRegistryPath elements = strings_Join elements ''/''"

text \<open>The elements a path can have, and the canonical form of a path.\<close>

definition path_element :: "string \<Rightarrow> bool" where
  "path_element e \<longleftrightarrow> e \<noteq> [] \<and> CHR ''/'' \<notin> set e \<and> e \<noteq> ''.'' \<and> e \<noteq> ''..''"

definition canonical_path :: "string \<Rightarrow> bool" where
  "canonical_path p \<longleftrightarrow> (case SplitRegistryPath p of Inl _ \<Rightarrow> False | Inr es \<Rightarrow> JoinRegistryPath es = p)"

section \<open>Lemmas\<close>

lemma Split_Inr_iff:
  "SplitRegistryPath p = Inr es \<longleftrightarrow>
     es = strings_FieldsFunc p (\<lambda>r. r = CHR ''/'') \<and> list_all path_element es"
proof -
  let ?f = "strings_FieldsFunc p (\<lambda>r. r = CHR ''/'')"
  have "find (\<lambda>e. e = ''.'' \<or> e = ''..'') ?f = None \<longleftrightarrow> list_all path_element ?f"
    using FieldsFunc_elems [of _ p "\<lambda>r. r = CHR ''/''"]
    by (fastforce simp: find_None_iff list_all_iff path_element_def)
  then have "SplitRegistryPath p = Inr es \<longleftrightarrow> es = ?f \<and> list_all path_element ?f"
    by (cases "find (\<lambda>e. e = ''.'' \<or> e = ''..'') ?f") (auto simp: SplitRegistryPath_def Let_def)
  then show ?thesis by metis
qed

lemma Split_elements: "SplitRegistryPath p = Inr es \<Longrightarrow> list_all path_element es"
  using Split_Inr_iff by blast

lemma Split_of_Join: "list_all path_element es \<Longrightarrow> SplitRegistryPath (JoinRegistryPath es) = Inr es"
proof -
  assume es: "list_all path_element es"
  then have "\<forall>x \<in> set es. x \<noteq> [] \<and> (\<forall>y \<in> set x. \<not> y = CHR ''/'')"
    by (auto simp: list_all_iff path_element_def)
  then have "strings_FieldsFunc (strings_Join es ''/'') (\<lambda>r. r = CHR ''/'') = es"
    by (intro FieldsFunc_Join) simp_all
  with es show ?thesis by (simp add: Split_Inr_iff JoinRegistryPath_def)
qed

lemma canonical_path_Join: "list_all path_element es \<Longrightarrow> canonical_path (JoinRegistryPath es)"
  by (simp add: canonical_path_def Split_of_Join)

lemma canonical_pathE:
  assumes "canonical_path p"
  obtains es where "SplitRegistryPath p = Inr es" and "p = JoinRegistryPath es"
    and "list_all path_element es"
  using assms Split_elements by (auto simp: canonical_path_def split: sum.splits)

lemma JoinRegistryPath_eq_Nil: "list_all path_element es \<Longrightarrow> JoinRegistryPath es = [] \<longleftrightarrow> es = []"
proof (cases es)
  case (Cons e es')
  assume "list_all path_element es"
  with Cons have "e \<noteq> []" by (simp add: path_element_def)
  with Cons show ?thesis by (cases es') (auto simp: JoinRegistryPath_def)
qed (simp add: JoinRegistryPath_def)

lemma JoinRegistryPath_inj:
  "list_all path_element es \<Longrightarrow> list_all path_element fs \<Longrightarrow>
   JoinRegistryPath es = JoinRegistryPath fs \<longleftrightarrow> es = fs"
  using Split_of_Join [of es] Split_of_Join [of fs] sum.inject(2) by metis

lemma Join_pair: "JoinRegistryPath [a, b] = a @ ''/'' @ b"
  by (simp add: JoinRegistryPath_def)

lemma FieldsFunc_append_slash:
  "strings_FieldsFunc (a @ ''/'' @ b) (\<lambda>r. r = CHR ''/'') =
     strings_FieldsFunc a (\<lambda>r. r = CHR ''/'') @ strings_FieldsFunc b (\<lambda>r. r = CHR ''/'')"
  by (simp add: strings_FieldsFunc_def fields_loop_append_sep)

text \<open>
  The test of \<^verbatim>\<open>GetValues\<close> on strings (a prefix that ends at the end of the key or at a
  slash) is the prefix relation on elements.
\<close>

lemma Join_prefix_iff:
  assumes "list_all path_element es" and "list_all path_element ks" and "es \<noteq> []"
  shows "(\<exists>t. JoinRegistryPath ks = JoinRegistryPath es @ t \<and> (t = [] \<or> hd t = CHR ''/''))
         \<longleftrightarrow> prefix es ks"
proof
  assume "\<exists>t. JoinRegistryPath ks = JoinRegistryPath es @ t \<and> (t = [] \<or> hd t = CHR ''/'')"
  then obtain t where t: "JoinRegistryPath ks = JoinRegistryPath es @ t" "t = [] \<or> hd t = CHR ''/''"
    by blast
  show "prefix es ks"
  proof (cases t)
    case Nil
    with t(1) have "JoinRegistryPath ks = JoinRegistryPath es" by simp
    then have "ks = es" using JoinRegistryPath_inj [OF assms(2,1)] by blast
    then show ?thesis by simp
  next
    case (Cons c t')
    with t have 2: "JoinRegistryPath ks = JoinRegistryPath es @ ''/'' @ t'" by simp
    have split: "strings_FieldsFunc (JoinRegistryPath fs) (\<lambda>r. r = CHR ''/'') = fs"
      if "list_all path_element fs" for fs
      by (rule conjunct1 [OF iffD1 [OF Split_Inr_iff Split_of_Join [OF that]], symmetric])
    have "ks = strings_FieldsFunc (JoinRegistryPath es @ ''/'' @ t') (\<lambda>r. r = CHR ''/'')"
      unfolding 2 [symmetric] by (rule split [OF assms(2), symmetric])
    then have "ks = es @ strings_FieldsFunc t' (\<lambda>r. r = CHR ''/'')"
      unfolding FieldsFunc_append_slash split [OF assms(1)] .
    then show ?thesis by (rule prefixI)
  qed
next
  assume "prefix es ks"
  then obtain fs where ks: "ks = es @ fs" by (auto simp: prefix_def)
  show "\<exists>t. JoinRegistryPath ks = JoinRegistryPath es @ t \<and> (t = [] \<or> hd t = CHR ''/'')"
  proof (cases fs)
    case Nil
    with ks show ?thesis by simp
  next
    case (Cons f fs')
    with ks assms(3) have "JoinRegistryPath ks = JoinRegistryPath es @ ''/'' @ JoinRegistryPath fs"
      by (simp add: JoinRegistryPath_def Join_append)
    then show ?thesis by auto
  qed
qed

section \<open>Properties\<close>

text \<open>
  C12. Splitting any path that \<^verbatim>\<open>SplitRegistryPath\<close> accepts yields non-empty, slash-free elements
  other than \<open>.\<close> and \<open>..\<close>. Joining them gives a canonical path that splits into the same
  elements, so normalising twice is normalising once.
\<close>

theorem SplitRegistryPath_canonical:
  "SplitRegistryPath p = Inr es \<Longrightarrow>
     list_all path_element es \<and> SplitRegistryPath (JoinRegistryPath es) = Inr es
     \<and> canonical_path (JoinRegistryPath es)"
  by (simp add: Split_elements Split_of_Join canonical_path_Join)

theorem SplitRegistryPath_canonical_witness:
  "list_all path_element [''host-0'', ''pci''] \<and>
   SplitRegistryPath (JoinRegistryPath [''host-0'', ''pci'']) = Inr [''host-0'', ''pci''] \<and>
   canonical_path (JoinRegistryPath [''host-0'', ''pci''])"
  by (rule SplitRegistryPath_canonical [of "''//host-0//pci/''"])
    (simp add: SplitRegistryPath_def strings_FieldsFunc_def)

text \<open>
  A slash only separates: a path made of two parts with a slash between them is accepted
  exactly when both parts are, and its elements are those of the first part followed by those
  of the second. Leading, trailing and repeated slashes therefore have no effect.
\<close>

theorem SplitRegistryPath_slash:
  "SplitRegistryPath (a @ ''/'' @ b) = Inr es \<longleftrightarrow>
     (\<exists>xs ys. SplitRegistryPath a = Inr xs \<and> SplitRegistryPath b = Inr ys \<and> es = xs @ ys)"
proof -
  let ?F = "\<lambda>p. strings_FieldsFunc p (\<lambda>r. r = CHR ''/'')"
  have "SplitRegistryPath (a @ ''/'' @ b) = Inr es \<longleftrightarrow>
      es = ?F a @ ?F b \<and> list_all path_element (?F a @ ?F b)"
    unfolding Split_Inr_iff FieldsFunc_append_slash by metis
  then show ?thesis unfolding Split_Inr_iff list_all_append by metis
qed

text \<open>
  \<^verbatim>\<open>SplitRegistryPath\<close> refuses a path exactly when one of its slash-separated fields is \<open>.\<close> or
  \<open>..\<close>, and the error names the path and the first such field.
\<close>

theorem SplitRegistryPath_error:
  "SplitRegistryPath p = Inl e \<longleftrightarrow>
     (\<exists>us x vs. strings_FieldsFunc p (\<lambda>r. r = CHR ''/'') = us @ x # vs
        \<and> (x = ''.'' \<or> x = ''..'') \<and> ''.'' \<notin> set us \<and> ''..'' \<notin> set us
        \<and> e = Errorf ''%s: %q not allowed as path element'' [p, x])"
proof -
  let ?P = "\<lambda>x. x = ''.'' \<or> x = ''..''"
  have "SplitRegistryPath p = Inl e \<longleftrightarrow>
      (\<exists>x. find ?P (strings_FieldsFunc p (\<lambda>r. r = CHR ''/'')) = Some x
         \<and> e = Errorf ''%s: %q not allowed as path element'' [p, x])"
    by (auto simp: SplitRegistryPath_def Let_def split: option.splits)
  then show ?thesis unfolding find_Some_split by auto
qed

end
