(* ===== verification/Registry_DB.thy ===== *)
theory Registry_DB
  imports Registry_Path
begin

text \<open>
  The database behind the registry (\<^verbatim>\<open>pkg/oim-registry/memdb.go\<close> and the interface \<^verbatim>\<open>RegistryDB\<close>
  of \<^verbatim>\<open>pkg/oim-registry/registry.go\<close>). A value of the Go interface is a record of operations on
  a state \<open>'d\<close>. Each operation of the in-memory database runs under its mutex from start to
  end, so it is one step on the state. Go iterates over a map in an order the runtime picks:
  \<open>Foreach\<close> takes that order as an argument, and what is proved holds for every order.
\<close>

section \<open>The interface\<close>

record ('d, 'a) RegistryDB =
  Store :: "'d \<Rightarrow> string \<Rightarrow> string \<Rightarrow> 'd"
  Lookup :: "'d \<Rightarrow> string \<Rightarrow> string"
  Foreach :: "'d \<Rightarrow> string list \<Rightarrow> (string \<Rightarrow> string \<Rightarrow> 'a \<Rightarrow> bool \<times> 'a) \<Rightarrow> 'a \<Rightarrow> 'a"

text \<open>The iteration: the callback is called until it returns false; \<open>a\<close> is what it updates.\<close>

fun range_loop ::
  "(string \<rightharpoonup> string) \<Rightarrow> string list \<Rightarrow> (string \<Rightarrow> string \<Rightarrow> 'a \<Rightarrow> bool \<times> 'a) \<Rightarrow> 'a \<Rightarrow> 'a" where
  "range_loop m [] callback a = a"
| "range_loop m (k # ks) callback a =
     (case m k of
        None \<Rightarrow> range_loop m ks callback a
      | Some v \<Rightarrow> (case callback k v a of
                    (continue, a') \<Rightarrow> if continue then range_loop m ks callback a' else a'))"

definition range_order :: "(string \<rightharpoonup> string) \<Rightarrow> string list \<Rightarrow> bool" where
  "range_order m ks \<longleftrightarrow> distinct ks \<and> set ks = dom m"

section \<open>The in-memory database\<close>

record memRegistryDB =
  db :: "string \<rightharpoonup> string"

definition mem_Store :: "memRegistryDB \<Rightarrow> string \<Rightarrow> string \<Rightarrow> memRegistryDB" where
  "mem_Store m controllerID address =
     (if address = [] then m\<lparr>db := (db m)(controllerID := None)\<rparr>
      else m\<lparr>db := (db m)(controllerID \<mapsto> address)\<rparr>)"

definition mem_Lookup :: "memRegistryDB \<Rightarrow> string \<Rightarrow> string" where
  "mem_Lookup m controllerID = (case db m controllerID of None \<Rightarrow> [] | Some address \<Rightarrow> address)"

definition mem_Foreach ::
  "memRegistryDB \<Rightarrow> string list \<Rightarrow> (string \<Rightarrow> string \<Rightarrow> 'a \<Rightarrow> bool \<times> 'a) \<Rightarrow> 'a \<Rightarrow> 'a" where
  "mem_Foreach m order callback a = range_loop (db m) order callback a"

definition NewMemRegistryDB :: memRegistryDB where
  "NewMemRegistryDB = \<lparr>db = Map.empty\<rparr>"

definition mem_db :: "(memRegistryDB, 'a) RegistryDB" where
  "mem_db = \<lparr>Store = mem_Store, Lookup = mem_Lookup, Foreach = mem_Foreach\<rparr>"

text \<open>\<^verbatim>\<open>GetRegistryEntries\<close>: all entries as a map.\<close>

definition GetRegistryEntries ::
  "('d, string \<rightharpoonup> string) RegistryDB \<Rightarrow> 'd \<Rightarrow> string list \<Rightarrow> (string \<rightharpoonup> string)" where
  "GetRegistryEntries ops d order =
     Foreach ops d order (\<lambda>key value entries. (True, entries(key \<mapsto> value))) Map.empty"

section \<open>The contract of the interface\<close>

text \<open>
  \<open>entries\<close> is what a client can observe of a state: a finite map from keys to non-empty
  values. Storing the empty value removes an entry; looking up a missing key gives the empty
  value; \<open>Foreach\<close> visits every entry once, in the order of the runtime.
\<close>

locale registry_db =
  fixes ops :: "('d, 'a) RegistryDB"
    and entries :: "'d \<Rightarrow> (string \<rightharpoonup> string)"
    and inv :: "'d \<Rightarrow> bool"
  assumes inv_Store: "inv d \<Longrightarrow> inv (Store ops d k v)"
    and entries_Store:
      "inv d \<Longrightarrow> entries (Store ops d k v) = (entries d)(k := (if v = [] then None else Some v))"
    and Lookup_entries:
      "inv d \<Longrightarrow> Lookup ops d k = (case entries d k of None \<Rightarrow> [] | Some v \<Rightarrow> v)"
    and entries_nonempty: "inv d \<Longrightarrow> entries d k \<noteq> Some []"
    and finite_entries: "inv d \<Longrightarrow> finite (dom (entries d))"
    and Foreach_entries:
      "inv d \<Longrightarrow> range_order (entries d) ks \<Longrightarrow> Foreach ops d ks f a = range_loop (entries d) ks f a"
begin

lemma Lookup_Store:
  "inv d \<Longrightarrow> Lookup ops (Store ops d k v) k' = (if k' = k then v else Lookup ops d k')"
  by (simp add: Lookup_entries inv_Store entries_Store)

lemma Lookup_eq_iff: "inv d \<Longrightarrow> v \<noteq> [] \<Longrightarrow> Lookup ops d k = v \<longleftrightarrow> entries d k = Some v"
  using entries_nonempty by (auto simp: Lookup_entries split: option.splits)

lemma Lookup_empty_iff: "inv d \<Longrightarrow> Lookup ops d k = [] \<longleftrightarrow> entries d k = None"
  using entries_nonempty by (auto simp: Lookup_entries split: option.splits)

end

section \<open>Iterating\<close>

lemma range_loop_collect:
  "set ks \<subseteq> dom m \<Longrightarrow>
   range_loop m ks (\<lambda>k v a. (True, if P k v then a @ [g k v] else a)) a =
     a @ map (\<lambda>k. g k (the (m k))) (filter (\<lambda>k. P k (the (m k))) ks)"
  by (induction ks arbitrary: a) auto

lemma range_loop_map:
  "set ks \<subseteq> dom m \<Longrightarrow>
   range_loop m ks (\<lambda>k v e. (True, e(k \<mapsto> v))) e = (\<lambda>k. if k \<in> set ks then m k else e k)"
  by (induction ks arbitrary: e) (auto intro!: ext)

lemma range_order_exists: "finite (dom m) \<Longrightarrow> \<exists>ks. range_order m ks"
  using finite_distinct_list [of "dom m"] by (auto simp: range_order_def)

section \<open>The in-memory database meets the contract\<close>

definition mem_inv :: "memRegistryDB \<Rightarrow> bool" where
  "mem_inv m \<longleftrightarrow> finite (dom (db m)) \<and> (\<forall>k. db m k \<noteq> Some [])"

lemma mem_inv_New [oim_inv]: "mem_inv NewMemRegistryDB"
  by (simp add: mem_inv_def NewMemRegistryDB_def)

lemma mem_inv_Store [oim_inv]: "mem_inv m \<Longrightarrow> mem_inv (mem_Store m k v)"
  by (auto simp: mem_inv_def mem_Store_def)

interpretation mem: registry_db mem_db db mem_inv
proof unfold_locales
  fix d :: memRegistryDB and k v :: string
  show "mem_inv (Store mem_db d k v)" if "mem_inv d"
    using that by (simp add: mem_db_def mem_inv_Store)
  show "db (Store mem_db d k v) = (db d)(k := (if v = [] then None else Some v))"
    by (simp add: mem_db_def mem_Store_def)
qed (auto simp: mem_db_def mem_Lookup_def mem_Foreach_def mem_inv_def)

section \<open>Properties\<close>

lemma Lookup_after_stores:
  "mem_inv m \<Longrightarrow>
   mem_Lookup (fold (\<lambda>(k, v) m. mem_Store m k v) kvs m) key =
     (case map_of (rev kvs) key of None \<Rightarrow> mem_Lookup m key | Some v \<Rightarrow> v)"
proof (induction kvs rule: rev_induct)
  case (snoc kv kvs)
  obtain k v where kv: "kv = (k, v)" by (cases kv)
  have inv: "mem_inv (fold (\<lambda>(k, v) m. mem_Store m k v) kvs m')" if "mem_inv m'" for m'
    using that by (induction kvs arbitrary: m') (auto intro: mem_inv_Store)
  have "mem_Lookup (mem_Store m' k v) key = (if key = k then v else mem_Lookup m' key)" if "mem_inv m'" for m'
    using mem.Lookup_Store [OF that, of k v key] unfolding mem_db_def by auto
  with inv [OF snoc.prems] snoc show ?case by (simp add: kv)
qed simp

text \<open>
  After any sequence of \<^verbatim>\<open>Store\<close> calls on a new in-memory database, \<^verbatim>\<open>Lookup\<close> returns the value
  stored last under the key, and the empty string when nothing was stored there or the last
  call stored the empty value.
\<close>

theorem mem_Lookup_last_Store:
  "mem_Lookup (fold (\<lambda>(k, v) m. mem_Store m k v) kvs NewMemRegistryDB) key =
     (case map_of (rev kvs) key of None \<Rightarrow> [] | Some v \<Rightarrow> v)"
  using Lookup_after_stores [OF mem_inv_New]
  by (simp add: mem_Lookup_def NewMemRegistryDB_def split: option.splits)

text \<open>
  \<^verbatim>\<open>GetRegistryEntries\<close> on the in-memory database returns exactly its entries, whatever order
  the runtime iterates in.
\<close>

theorem GetRegistryEntries_mem:
  assumes "mem_inv d" and "range_order (db d) order"
  shows "GetRegistryEntries mem_db d order = db d"
proof -
  have "GetRegistryEntries mem_db d order =
      range_loop (db d) order (\<lambda>k v e. (True, e(k \<mapsto> v))) Map.empty"
    unfolding GetRegistryEntries_def using assms by (rule mem.Foreach_entries)
  also have "\<dots> = db d"
    using assms(2) by (subst range_loop_map) (auto simp: range_order_def domIff fun_eq_iff)
  finally show ?thesis .
qed

theorem GetRegistryEntries_mem_witness:
  "GetRegistryEntries mem_db \<lparr>db = [''a/address'' \<mapsto> ''x'', ''b/pci'' \<mapsto> ''y'']\<rparr> [''b/pci'', ''a/address''] =
     [''a/address'' \<mapsto> ''x'', ''b/pci'' \<mapsto> ''y'']"
  using GetRegistryEntries_mem
    [of "\<lparr>db = [''a/address'' \<mapsto> ''x'', ''b/pci'' \<mapsto> ''y'']\<rparr>" "[''b/pci'', ''a/address'']"]
  by (simp add: mem_inv_def range_order_def insert_commute)

end
