(* ===== verification/Grpc_Common.thy ===== *)
theory Grpc_Common
  imports Go_Errors
begin

text \<open>
  Endpoints, dial options, TLS configuration and the server life cycle
  (\<^verbatim>\<open>pkg/oim-common/server.go\<close> and \<^verbatim>\<open>pkg/oim-common/grpc.go\<close>). A TLS configuration keeps what the
  program puts into it: the expected server name, the name that the callback
  \<^verbatim>\<open>VerifyPeerCertificate\<close> has captured, and where the certificates came from. Loading
  certificates, removing a socket file and listening are parameters.
\<close>

section \<open>Endpoints\<close>

definition to_lower :: "char \<Rightarrow> char" where
  "to_lower c = (let n = of_char c :: nat in if 65 \<le> n \<and> n \<le> 90 then char_of (n + 32) else c)"

text \<open>\<^verbatim>\<open>strings.ToLower\<close> on ASCII text.\<close>

definition strings_ToLower :: "string \<Rightarrow> string" where
  "strings_ToLower s = map to_lower s"

text \<open>\<^verbatim>\<open>strings.SplitN(s, sep, 2)\<close>.\<close>

definition strings_SplitN2 :: "string \<Rightarrow> string \<Rightarrow> string list" where
  "strings_SplitN2 s sep = (case strings_Index s sep of None \<Rightarrow> [s]
     | Some i \<Rightarrow> [take i s, drop (i + length sep) s])"

definition known_scheme :: "string \<Rightarrow> bool" where
  "known_scheme lower \<longleftrightarrow> strings_HasPrefix lower ''unix://'' \<or> strings_HasPrefix lower ''tcp://''
     \<or> strings_HasPrefix lower ''tcp4://'' \<or> strings_HasPrefix lower ''tcp6://''"

definition ParseEndpoint :: "string \<Rightarrow> (string \<times> string) result" where
  "ParseEndpoint ep =
     (let lower = strings_ToLower ep in
      if known_scheme lower
      then let s = strings_SplitN2 ep ''://'' in
           if s ! 1 \<noteq> [] then Inr (s ! 0, s ! 1)
           else Inl (Errorf ''Invalid endpoint: %v'' [ep])
      else Inl (Errorf ''Invalid endpoint: %v'' [ep]))"

section \<open>TLS and dial options\<close>

type_synonym chains = "string list list"

text \<open>The certificates of a verified chain, by their common names.\<close>

record tls_config =
  ServerName :: string
  PeerName :: string
  Certificates :: "string list"
  RootCAs :: string
  ClientCAs :: string
  RequireAndVerifyClientCert :: bool

datatype dial_option =
    WithDialer
  | WithCodec
  | WithTransportCredentials tls_config
  | WithUnaryInterceptor
  | WithInsecure
  | WithBlock

definition ChooseDialOpts :: "string \<Rightarrow> dial_option list \<Rightarrow> dial_option list" where
  "ChooseDialOpts endpoint opts =
     (let result = [];
          result = (if strings_HasPrefix endpoint ''unix://'' then result @ [WithDialer] else result);
          opts = opts @ [WithUnaryInterceptor]
      in result @ opts)"

definition GRPCDialer :: "(string \<Rightarrow> string \<Rightarrow> 'conn result) \<Rightarrow> string \<Rightarrow> 'conn result" where
  "GRPCDialer DialContext endpoint =
     (case ParseEndpoint endpoint of
        Inl err \<Rightarrow> Inl err
      | Inr (network, address) \<Rightarrow> DialContext network address)"

text \<open>The callback that the TLS stack calls with the chains it has verified.\<close>

definition VerifyPeerCertificate :: "string \<Rightarrow> chains \<Rightarrow> unit result" where
  "VerifyPeerCertificate peerName verifiedChains =
     (if peerName = [] then Inr ()
      else if verifiedChains = [] \<or> verifiedChains ! 0 = [] then Inl (ErrText ''no valid certificate'')
      else let commonName = verifiedChains ! 0 ! 0 in
           if commonName \<noteq> peerName
           then Inl (Errorf ''expected CN %q, got %q'' [peerName, commonName])
           else Inr ())"

definition key_base :: "string \<Rightarrow> string" where
  "key_base key =
     (if strings_HasSuffix key ''.key'' \<or> strings_HasSuffix key ''.crt''
      then take (length key - 4) key else key)"

definition LoadTLSConfig ::
  "(string \<Rightarrow> string \<Rightarrow> string result) \<Rightarrow> (string \<Rightarrow> string result) \<Rightarrow> (string \<Rightarrow> bool)
   \<Rightarrow> string \<Rightarrow> string \<Rightarrow> string \<Rightarrow> tls_config result" where
  "LoadTLSConfig LoadX509KeyPair ReadFile AppendCertsFromPEM caFile key peerName =
     (let base = key_base key;
          crtFile = base @ ''.crt'';
          keyFile = base @ ''.key''
      in case LoadX509KeyPair crtFile keyFile of
           Inl err \<Rightarrow> Inl (Wrap err (sprintf ''load X509 key pair for key=%q'' [key]))
         | Inr certificate \<Rightarrow>
             (case ReadFile caFile of
                Inl err \<Rightarrow> Inl (Wrap err ''read CA cert'')
              | Inr bs \<Rightarrow>
                  if \<not> AppendCertsFromPEM bs
                  then Inl (Errorf ''failed to append certs from %q'' [caFile])
                  else Inr \<lparr>ServerName = peerName, PeerName = peerName, Certificates = [certificate],
                            RootCAs = bs, ClientCAs = bs, RequireAndVerifyClientCert = True\<rparr>))"

definition LoadTLS ::
  "(string \<Rightarrow> string \<Rightarrow> string result) \<Rightarrow> (string \<Rightarrow> string result) \<Rightarrow> (string \<Rightarrow> bool)
   \<Rightarrow> string \<Rightarrow> string \<Rightarrow> string \<Rightarrow> dial_option result" where
  "LoadTLS LoadX509KeyPair ReadFile AppendCertsFromPEM caFile key peerName =
     (case LoadTLSConfig LoadX509KeyPair ReadFile AppendCertsFromPEM caFile key peerName of
        Inl err \<Rightarrow> Inl err
      | Inr tlsConfig \<Rightarrow> Inr (WithTransportCredentials tlsConfig))"

section \<open>The server\<close>

text \<open>
  \<open>serving\<close> counts what the wait group of the server counts, the goroutines that run
  \<^verbatim>\<open>server.Serve\<close>, and \<open>stopped\<close> tells that \<^verbatim>\<open>Stop\<close> or \<^verbatim>\<open>ForceStop\<close> has been called on the gRPC
  server. The file system and the network are the surroundings \<open>'e\<close>.
\<close>

record NonBlockingGRPCServer =
  Endpoint :: string
  serving :: nat
  server :: "string list option"
  stopped :: bool
  addr :: "string option"

definition Server_Listen ::
  "(string \<Rightarrow> string \<Rightarrow> 'e \<Rightarrow> string result \<times> 'e) \<Rightarrow> string list \<Rightarrow> string \<Rightarrow> string
   \<Rightarrow> NonBlockingGRPCServer \<Rightarrow> 'e \<Rightarrow> unit result \<times> NonBlockingGRPCServer \<times> 'e" where
  "Server_Listen net_Listen services proto address s e =
     (case net_Listen proto address e of
        (Inl err, e) \<Rightarrow> (Inl err, s, e)
      | (Inr listener, e) \<Rightarrow>
          (Inr (), s\<lparr>addr := Some listener, server := Some services, stopped := False,
                     serving := serving s + 1\<rparr>, e))"

definition Server_Start ::
  "(string \<Rightarrow> 'e \<Rightarrow> unit result \<times> 'e) \<Rightarrow> (string \<Rightarrow> string \<Rightarrow> 'e \<Rightarrow> string result \<times> 'e)
   \<Rightarrow> string list \<Rightarrow> NonBlockingGRPCServer \<Rightarrow> 'e \<Rightarrow> unit result \<times> NonBlockingGRPCServer \<times> 'e" where
  "Server_Start os_Remove net_Listen services s e =
     (case ParseEndpoint (Endpoint s) of
        Inl err \<Rightarrow> (Inl (Wrap err ''parse endpoint''), s, e)
      | Inr (proto, address) \<Rightarrow>
          (let address = (if proto = ''unix'' then ''/'' @ address else address);
               (removed, e) = (if proto = ''unix'' then os_Remove address e else (Inr (), e))
           in case removed of
                Inl err \<Rightarrow>
                  if \<not> os_IsNotExist err then (Inl (Wrap err ''remove Unix socket''), s, e)
                  else Server_Listen net_Listen services proto address s e
              | Inr _ \<Rightarrow> Server_Listen net_Listen services proto address s e))"

text \<open>\<^verbatim>\<open>Wait\<close> returns once no goroutine serves any more; the result is \<open>None\<close> while it blocks.\<close>

definition Server_Wait :: "NonBlockingGRPCServer \<Rightarrow> NonBlockingGRPCServer option" where
  "Server_Wait s = (if serving s = 0 then Some (s\<lparr>addr := None\<rparr>) else None)"

definition Server_Stop :: "NonBlockingGRPCServer \<Rightarrow> NonBlockingGRPCServer outcome" where
  "Server_Stop s = (case server s of None \<Rightarrow> Panic | Some _ \<Rightarrow> Ret (s\<lparr>stopped := True\<rparr>))"

definition Server_ForceStop :: "NonBlockingGRPCServer \<Rightarrow> NonBlockingGRPCServer outcome" where
  "Server_ForceStop s = (case server s of None \<Rightarrow> Panic | Some _ \<Rightarrow> Ret (s\<lparr>stopped := True\<rparr>))"

definition Server_Addr :: "NonBlockingGRPCServer \<Rightarrow> string option" where
  "Server_Addr s = addr s"

text \<open>The goroutine of \<^verbatim>\<open>Start\<close>: \<^verbatim>\<open>Serve\<close> returns after the server was stopped.\<close>

definition Serve_returns :: "NonBlockingGRPCServer \<Rightarrow> NonBlockingGRPCServer option" where
  "Serve_returns s = (if stopped s \<and> 0 < serving s then Some (s\<lparr>serving := serving s - 1\<rparr>) else None)"

section \<open>Lemmas\<close>

lemma of_char_to_lower:
  "of_char (to_lower c) = (if 65 \<le> (of_char c :: nat) \<and> of_char c \<le> (90 :: nat) then of_char c + 32 else (of_char c :: nat))"
  by (auto simp: to_lower_def Let_def)

lemma to_lower_sep: "to_lower c = CHR '':'' \<longleftrightarrow> c = CHR '':''" "to_lower c = CHR ''/'' \<longleftrightarrow> c = CHR ''/''"
proof -
  have "to_lower c = d \<longleftrightarrow> c = d" if d: "of_char d < (65 :: nat)" for d
  proof -
    have "of_char (to_lower c) = (of_char d :: nat) \<longleftrightarrow> of_char c = (of_char d :: nat)"
      using d unfolding of_char_to_lower by (auto simp del: of_char_eq_iff)
    then show ?thesis unfolding of_char_eq_iff .
  qed
  then show "to_lower c = CHR '':'' \<longleftrightarrow> c = CHR '':''" "to_lower c = CHR ''/'' \<longleftrightarrow> c = CHR ''/''"
    by simp_all
qed

lemma ToLower_no_colon: "CHR '':'' \<in> set (strings_ToLower n) \<longleftrightarrow> CHR '':'' \<in> set n"
proof -
  have "CHR '':'' \<in> set (strings_ToLower n) \<longleftrightarrow> (\<exists>c \<in> set n. to_lower c = CHR '':'')"
    unfolding strings_ToLower_def set_map image_iff by metis
  then show ?thesis unfolding to_lower_sep by simp
qed

lemma ToLower_prefix:
  "strings_HasPrefix (strings_ToLower ep) (w @ ''://'') \<longleftrightarrow>
     (\<exists>n a. ep = n @ ''://'' @ a \<and> strings_ToLower n = w)"
proof
  assume "strings_HasPrefix (strings_ToLower ep) (w @ ''://'')"
  then obtain t where "map to_lower ep = (w @ ''://'') @ t"
    by (auto simp: strings_HasPrefix_iff strings_ToLower_def)
  then obtain n m where "ep = n @ m" "map to_lower n = w" "map to_lower m = ''://'' @ t"
    by (auto simp: map_eq_append_conv)
  moreover from this(3) obtain a where "m = ''://'' @ a"
    by (auto simp: map_eq_Cons_conv to_lower_sep)
  ultimately show "\<exists>n a. ep = n @ ''://'' @ a \<and> strings_ToLower n = w"
    by (auto simp: strings_ToLower_def)
next
  assume "\<exists>n a. ep = n @ ''://'' @ a \<and> strings_ToLower n = w"
  then obtain n a where "ep = n @ ''://'' @ a" "strings_ToLower n = w" by blast
  moreover have "map to_lower ''://'' = ''://''" using to_lower_sep by simp
  ultimately have "strings_ToLower ep = (w @ ''://'') @ map to_lower a"
    by (simp add: strings_ToLower_def)
  then show "strings_HasPrefix (strings_ToLower ep) (w @ ''://'')"
    unfolding strings_HasPrefix_iff by blast
qed

lemma Index_scheme: "CHR '':'' \<notin> set n \<Longrightarrow> strings_Index (n @ ''://'' @ a) ''://'' = Some (length n)"
proof (induction n)
  case Nil
  show ?case by (simp add: strings_HasPrefix_def)
next
  case (Cons c n)
  then have "\<not> strings_HasPrefix ((c # n) @ ''://'' @ a) ''://''" by (auto simp: strings_HasPrefix_def)
  with Cons show ?case by simp
qed

lemma SplitN_scheme: "CHR '':'' \<notin> set n \<Longrightarrow> strings_SplitN2 (n @ ''://'' @ a) ''://'' = [n, a]"
  unfolding strings_SplitN2_def Index_scheme by simp

definition schemes :: "string set" where
  "schemes = {''unix'', ''tcp'', ''tcp4'', ''tcp6''}"

lemma schemes_no_colon: "strings_ToLower n \<in> schemes \<Longrightarrow> CHR '':'' \<notin> set n"
  using ToLower_no_colon [of n] by (auto simp: schemes_def)

lemma known_scheme_iff:
  "known_scheme (strings_ToLower ep) \<longleftrightarrow>
     (\<exists>n a. ep = n @ ''://'' @ a \<and> strings_ToLower n \<in> schemes)"
proof -
  have app: "''unix://'' = ''unix'' @ ''://''" "''tcp://'' = ''tcp'' @ ''://''"
    "''tcp4://'' = ''tcp4'' @ ''://''" "''tcp6://'' = ''tcp6'' @ ''://''" by simp_all
  show ?thesis unfolding known_scheme_def schemes_def app ToLower_prefix by blast
qed

lemma ParseEndpoint_scheme:
  assumes "strings_ToLower n \<in> schemes"
  shows "ParseEndpoint (n @ ''://'' @ a) =
    (if a \<noteq> [] then Inr (n, a) else Inl (Errorf ''Invalid endpoint: %v'' [n @ ''://'' @ a]))"
proof -
  have "known_scheme (strings_ToLower (n @ ''://'' @ a))" unfolding known_scheme_iff using assms by blast
  then show ?thesis
    by (simp only: ParseEndpoint_def Let_def SplitN_scheme [OF schemes_no_colon [OF assms]]) simp
qed

lemma ParseEndpoint_no_scheme:
  "\<not> (\<exists>n a. ep = n @ ''://'' @ a \<and> strings_ToLower n \<in> schemes) \<Longrightarrow>
   ParseEndpoint ep = Inl (Errorf ''Invalid endpoint: %v'' [ep])"
  unfolding known_scheme_iff [symmetric] by (simp add: ParseEndpoint_def)

section \<open>Properties\<close>

text \<open>
  C13. \<^verbatim>\<open>ParseEndpoint\<close> splits an endpoint into network and address exactly when it is one of the
  four known schemes in any case, followed by \<open>://\<close> and a non-empty address: network and address are
  then the two sides of the first \<open>://\<close>, with the case of the scheme kept as written.
\<close>

theorem ParseEndpoint_iff:
  "ParseEndpoint ep = Inr (network, address) \<longleftrightarrow>
     ep = network @ ''://'' @ address \<and> address \<noteq> [] \<and> strings_ToLower network \<in> schemes"
proof
  assume *: "ParseEndpoint ep = Inr (network, address)"
  then obtain n a where "ep = n @ ''://'' @ a" "strings_ToLower n \<in> schemes"
    using ParseEndpoint_no_scheme [of ep] by force
  with * ParseEndpoint_scheme [of n a]
  show "ep = network @ ''://'' @ address \<and> address \<noteq> [] \<and> strings_ToLower network \<in> schemes"
    by (cases "a = []") simp_all
next
  assume "ep = network @ ''://'' @ address \<and> address \<noteq> [] \<and> strings_ToLower network \<in> schemes"
  with ParseEndpoint_scheme [of network address] show "ParseEndpoint ep = Inr (network, address)"
    by simp
qed

text \<open>
  The callback that \<^verbatim>\<open>LoadTLSConfig\<close> installs accepts a peer exactly when no name was required
  or the leaf certificate of the first verified chain carries the required common name: with a
  required name, a connection without any verified certificate is always refused.
\<close>

theorem VerifyPeerCertificate_iff:
  "VerifyPeerCertificate peerName vchains = Inr () \<longleftrightarrow>
     peerName = [] \<or> (\<exists>rest more. vchains = (peerName # rest) # more)"
  by (cases vchains; cases "hd vchains") (auto simp: VerifyPeerCertificate_def Let_def)

end
