(* ===== verification/Registry.thy ===== *)
theory Registry
  imports Registry_DB Grpc_Common
begin

text \<open>
  The registry service (\<^verbatim>\<open>pkg/oim-registry/registry.go\<close>, \<^verbatim>\<open>pkg/oim-registry/tls.go\<close>): writing and
  reading entries with the permission checks on the caller's certificate, and the proxy that
  decides to which controller a call is forwarded. The database is a value of the interface
  \<open>RegistryDB\<close>; the laws of the handlers are proved once from its contract and hold for the
  in-memory database by interpretation.
\<close>

section \<open>The caller\<close>

text \<open>What the handlers read from a Go context: the authentication of the peer and the metadata.\<close>

datatype auth_info = TLSInfo chains | OtherAuthInfo

record request_context =
  ctx_peer :: "auth_info option"
  ctx_metadata :: "(string \<rightharpoonup> string list) option"

definition RegistryClientContext :: "request_context \<Rightarrow> string \<Rightarrow> request_context" where
  "RegistryClientContext ctx client = ctx\<lparr>ctx_peer := Some (TLSInfo [[client]])\<rparr>"

definition getPeer :: "request_context \<Rightarrow> string result" where
  "getPeer ctx =
     (case ctx_peer ctx of
        None \<Rightarrow> Inl (StatusErr FailedPrecondition ''cannot determine caller identity'' [])
      | Some OtherAuthInfo \<Rightarrow> Inl (StatusErr FailedPrecondition ''no TLS info'' [])
      | Some (TLSInfo verifiedChains) \<Rightarrow>
          if length verifiedChains = 0 \<or> length (verifiedChains ! 0) = 0
          then Inl (StatusErr FailedPrecondition
                     ''cannot determine peer, empty TLS verification chain'' [])
          else let commonName = verifiedChains ! 0 ! 0 in Inr commonName)"

section \<open>Reading and writing entries\<close>

record Value =
  Path :: string
  ValueOf :: string

record registry =
  tlsConfig :: tls_config

definition SetValue_allowed :: "string \<Rightarrow> string list \<Rightarrow> bool" where
  "SetValue_allowed peer elements \<longleftrightarrow>
     peer = ''user.admin'' \<or>
     peer = ''controller.'' @ elements ! 0 \<and> length elements = 2 \<and> elements ! 1 = RegistryAddress"

definition SetValue ::
  "('d, Value list) RegistryDB \<Rightarrow> request_context \<Rightarrow> Value option \<Rightarrow> 'd \<Rightarrow> unit result \<times> 'd" where
  "SetValue ops ctx val d =
     (case val of
        None \<Rightarrow> (Inl (ErrText ''missing value''), d)
      | Some val \<Rightarrow>
          (case SplitRegistryPath (Path val) of
             Inl err \<Rightarrow> (Inl err, d)
           | Inr elements \<Rightarrow>
               if length elements = 0 then (Inl (ErrText ''empty path''), d)
               else let key = JoinRegistryPath elements in
                 (case getPeer ctx of
                    Inl err \<Rightarrow> (Inl err, d)
                  | Inr peer \<Rightarrow>
                      if \<not> SetValue_allowed peer elements
                      then (Inl (StatusErr PermissionDenied ''caller %q not allowed to set %q'' [peer, key]), d)
                      else (Inr (), Store ops d key (ValueOf val)))))"

definition GetValues_match :: "string \<Rightarrow> string \<Rightarrow> bool" where
  "GetValues_match pre key \<longleftrightarrow>
     pre = [] \<or> strings_HasPrefix key pre \<and> (length key = length pre \<or> key ! length pre = CHR ''/'')"

definition GetValues ::
  "('d, Value list) RegistryDB \<Rightarrow> request_context \<Rightarrow> string \<Rightarrow> 'd \<Rightarrow> string list \<Rightarrow> Value list result" where
  "GetValues ops ctx path d order =
     (case SplitRegistryPath path of
        Inl err \<Rightarrow> Inl err
      | Inr elements \<Rightarrow>
          let pre = JoinRegistryPath elements in
          (case getPeer ctx of
             Inl err \<Rightarrow> Inl err
           | Inr _ \<Rightarrow>
               Inr (Foreach ops d order (\<lambda>key val out.
                 (True, if GetValues_match pre key then out @ [\<lparr>Path = key, ValueOf = val\<rparr>] else out)) [])))"

section \<open>The proxy\<close>

record dial_request =
  dialAddress :: string
  dialOpts :: "dial_option list"
  dialMetadata :: "string \<rightharpoonup> string list"

text \<open>
  \<^verbatim>\<open>Connect\<close> up to the call of \<^verbatim>\<open>grpc.DialContext\<close>: either an error or what is dialled, with the
  metadata of the outgoing context.
\<close>

definition Connect ::
  "('d, Value list) RegistryDB \<Rightarrow> registry \<Rightarrow> request_context \<Rightarrow> string \<Rightarrow> 'd \<Rightarrow> dial_request result" where
  "Connect ops r ctx method d =
     (if strings_HasPrefix method ''/oim.v0.Registry/''
      then Inl (StatusErr Unimplemented ''unknown method'' [])
      else case ctx_metadata ctx of
        None \<Rightarrow> Inl (StatusErr FailedPrecondition ''missing metadata'' [])
      | Some md \<Rightarrow>
          (case md ''controllerid'' of
             None \<Rightarrow> Inl (StatusErr FailedPrecondition ''missing or invalid controllerid meta data'' [])
           | Some controllerIDs \<Rightarrow>
               if length controllerIDs \<noteq> 1
               then Inl (StatusErr FailedPrecondition ''missing or invalid controllerid meta data'' [])
               else let controllerID = controllerIDs ! 0 in
                 (case getPeer ctx of
                    Inl err \<Rightarrow> Inl err
                  | Inr peer \<Rightarrow>
                      let pre = ''host.'' in
                      if \<not> strings_HasPrefix peer pre \<or> drop (length pre) peer \<noteq> controllerID
                      then Inl (StatusErr PermissionDenied
                             ''caller %q not allowed to contact controller %q'' [peer, controllerID])
                      else let address = Lookup ops d (controllerID @ ''/'' @ RegistryAddress) in
                        if address = []
                        then Inl (StatusErr Unavailable ''%s: no address registered'' [controllerID])
                        else let outgoingTLS = (tlsConfig r)\<lparr>ServerName := ''controller.'' @ controllerID\<rparr> in
                          Inr \<lparr>dialAddress = address,
                               dialOpts = ChooseDialOpts address [WithCodec, WithTransportCredentials outgoingTLS],
                               dialMetadata = md\<rparr>)))"

section \<open>Construction\<close>

datatype 'd reg_option = DB 'd | TLS tls_config

fun apply_option :: "'d reg_option \<Rightarrow> 'd \<times> tls_config option \<Rightarrow> 'd \<times> tls_config option" where
  "apply_option (DB d') (d, t) = (d', t)"
| "apply_option (TLS t') (d, t) = (d, Some t')"

definition New_registry :: "'d \<Rightarrow> 'd reg_option list \<Rightarrow> ('d \<times> registry) result" where
  "New_registry newMem options =
     (case fold apply_option options (newMem, None) of
        (d, None) \<Rightarrow> Inl (ErrText ''transport credentials missing'')
      | (d, Some t) \<Rightarrow> Inr (d, \<lparr>tlsConfig = t\<rparr>))"

datatype server_option = CustomCodec | UnknownServiceHandler | Creds tls_config

definition Server :: "registry \<Rightarrow> string \<Rightarrow> NonBlockingGRPCServer \<times> server_option list" where
  "Server r endpoint =
     (\<lparr>Endpoint = endpoint, serving = 0, server = None, stopped = False, addr = None\<rparr>,
      [CustomCodec, UnknownServiceHandler, Creds (tlsConfig r)])"

section \<open>The handlers on any database\<close>

lemma SetValue_cases:
  assumes "SetValue ops ctx val d = (r, d')"
  obtains (refused) e where "r = Inl e" and "d' = d"
  | (stored) v es peer where "r = Inr ()" and "val = Some v" and "SplitRegistryPath (Path v) = Inr es"
      and "es \<noteq> []" and "getPeer ctx = Inr peer" and "SetValue_allowed peer es"
      and "d' = Store ops d (JoinRegistryPath es) (ValueOf v)"
proof (cases r)
  case (Inl e)
  with assms have "d' = d"
    by (auto simp: SetValue_def Let_def split: option.splits sum.splits if_splits)
  with Inl refused show ?thesis by blast
next
  case (Inr u)
  with assms stored show ?thesis
    by (auto simp: SetValue_def Let_def split: option.splits sum.splits if_splits)
qed

text \<open>The invariant of the registry: keys are canonical paths with at least one element.\<close>

definition canonical_keys :: "(string \<rightharpoonup> string) \<Rightarrow> bool" where
  "canonical_keys m \<longleftrightarrow> (\<forall>k \<in> dom m. canonical_path k \<and> k \<noteq> [])"

lemma key_canonical:
  assumes "SplitRegistryPath p = Inr es" and "es \<noteq> []"
  shows "canonical_path (JoinRegistryPath es) \<and> JoinRegistryPath es \<noteq> []"
  using assms canonical_path_Join Split_elements JoinRegistryPath_eq_Nil by blast

lemma allowed_keys:
  assumes "SplitRegistryPath p = Inr es" and "SetValue_allowed peer es"
  shows "peer = ''user.admin'' \<or>
    (\<exists>id. path_element id \<and> peer = ''controller.'' @ id \<and> JoinRegistryPath es = id @ ''/'' @ RegistryAddress)"
proof -
  consider "peer = ''user.admin''" | "peer = ''controller.'' @ es ! 0" "length es = 2" "es ! 1 = RegistryAddress"
    using assms(2) by (auto simp: SetValue_allowed_def)
  then show ?thesis
  proof cases
    case 2
    then obtain id where es: "es = [id, RegistryAddress]" by (cases es; cases "tl es") auto
    moreover have "path_element id" using Split_elements [OF assms(1)] es by simp
    moreover have "JoinRegistryPath es = id @ ''/'' @ RegistryAddress" unfolding es by (rule Join_pair)
    ultimately show ?thesis using 2(1) by auto
  qed simp
qed

locale registry_handlers = registry_db ops entries inv
  for ops :: "('d, Value list) RegistryDB" and entries inv
begin

lemma SetValue_inv:
  assumes "inv d" and "canonical_keys (entries d)" and "SetValue ops ctx val d = (r, d')"
  shows "inv d' \<and> canonical_keys (entries d')"
  using assms(3)
proof (cases rule: SetValue_cases)
  case refused
  with assms show ?thesis by simp
next
  case (stored v es peer)
  with assms(1,2) key_canonical [OF stored(3,4)] show ?thesis
    by (auto simp: inv_Store entries_Store canonical_keys_def split: if_splits)
qed

lemma SetValue_changes:
  assumes "inv d" and "SetValue ops ctx val d = (r, d')" and "entries d' k \<noteq> entries d k"
  shows "\<exists>peer. getPeer ctx = Inr peer \<and> (peer = ''user.admin'' \<or>
    (\<exists>id. path_element id \<and> peer = ''controller.'' @ id \<and> k = id @ ''/'' @ RegistryAddress))"
  using assms(2)
proof (cases rule: SetValue_cases)
  case refused
  with assms(3) show ?thesis by simp
next
  case (stored v es peer)
  with assms(1,3) have "k = JoinRegistryPath es" by (auto simp: entries_Store split: if_splits)
  with allowed_keys [OF stored(3,6)] stored(5) show ?thesis by blast
qed

end

abbreviation reg_db :: "(memRegistryDB, Value list) RegistryDB" where
  "reg_db \<equiv> mem_db"

interpretation reg: registry_handlers reg_db db mem_inv
  by (rule registry_handlers.intro) (rule mem.registry_db_axioms)

lemma GetValues_match_elements:
  assumes "SplitRegistryPath path = Inr es" and "SplitRegistryPath key = Inr ks" and "canonical_path key"
  shows "GetValues_match (JoinRegistryPath es) key \<longleftrightarrow> prefix es ks"
proof -
  have el: "list_all path_element es" "list_all path_element ks"
    using assms Split_elements by blast+
  have key: "key = JoinRegistryPath ks" using assms by (simp add: canonical_path_def)
  show ?thesis
  proof (cases "es = []")
    case True
    then show ?thesis by (simp add: GetValues_match_def JoinRegistryPath_def)
  next
    case False
    then have "JoinRegistryPath es \<noteq> []" using JoinRegistryPath_eq_Nil [OF el(1)] by blast
    moreover have "strings_HasPrefix key p \<and> (length key = length p \<or> key ! length p = CHR ''/'') \<longleftrightarrow>
        (\<exists>t. key = p @ t \<and> (t = [] \<or> hd t = CHR ''/''))" for p
      by (auto simp: strings_HasPrefix_iff nth_append) (metis hd_conv_nth)+
    ultimately show ?thesis
      using Join_prefix_iff [OF el False] unfolding GetValues_match_def key by simp
  qed
qed

lemma GetValues_mem:
  assumes "mem_inv d" and "range_order (db d) order"
    and "SplitRegistryPath path = Inr es" and "getPeer ctx = Inr peer"
  shows "GetValues reg_db ctx path d order =
    Inr (map (\<lambda>k. \<lparr>Path = k, ValueOf = the (db d k)\<rparr>) (filter (GetValues_match (JoinRegistryPath es)) order))"
proof -
  let ?f = "\<lambda>key val out. (True,
    if GetValues_match (JoinRegistryPath es) key then out @ [\<lparr>Path = key, ValueOf = val\<rparr>] else out)"
  have "Foreach mem_db d order ?f [] = range_loop (db d) order ?f []"
    using assms(1,2) by (rule mem.Foreach_entries)
  also have "\<dots> = map (\<lambda>k. \<lparr>Path = k, ValueOf = the (db d k)\<rparr>)
      (filter (GetValues_match (JoinRegistryPath es)) order)"
    using assms(2) by (subst range_loop_collect) (auto simp: range_order_def)
  finally show ?thesis by (simp add: GetValues_def assms(3,4) Let_def)
qed

text \<open>The entries that \<^verbatim>\<open>GetValues\<close> returns, in terms of the elements of paths.\<close>

lemma GetValues_entries:
  assumes "mem_inv d" and "canonical_keys (db d)" and "range_order (db d) order"
    and "SplitRegistryPath path = Inr es" and "getPeer ctx = Inr peer"
  shows "\<exists>out. GetValues reg_db ctx path d order = Inr out \<and> distinct (map Path out)
    \<and> set out = {x. db d (Path x) = Some (ValueOf x)
                     \<and> (\<exists>ks. SplitRegistryPath (Path x) = Inr ks \<and> prefix es ks)}"
proof -
  let ?P = "GetValues_match (JoinRegistryPath es)"
  let ?out = "map (\<lambda>k. \<lparr>Path = k, ValueOf = the (db d k)\<rparr>) (filter ?P order)"
  have eq: "GetValues reg_db ctx path d order = Inr ?out"
    using assms(1,3,4,5) by (rule GetValues_mem)
  have match: "\<exists>ks. SplitRegistryPath k = Inr ks \<and> (?P k \<longleftrightarrow> prefix es ks)" if "k \<in> dom (db d)" for k
  proof -
    have can: "canonical_path k" using assms(2) that by (simp add: canonical_keys_def)
    then obtain ks where "SplitRegistryPath k = Inr ks" by (rule canonical_pathE)
    with GetValues_match_elements [OF assms(4) this can] show ?thesis by blast
  qed
  have out: "x \<in> set ?out \<longleftrightarrow> db d (Path x) = Some (ValueOf x) \<and> ?P (Path x)" for x
  proof -
    obtain k v where x: "x = \<lparr>Path = k, ValueOf = v\<rparr>" by (cases x)
    show ?thesis using assms(3) unfolding x range_order_def by auto
  qed
  have "x \<in> set ?out \<longleftrightarrow> db d (Path x) = Some (ValueOf x)
      \<and> (\<exists>ks. SplitRegistryPath (Path x) = Inr ks \<and> prefix es ks)" for x
  proof (cases "Path x \<in> dom (db d)")
    case True
    from match [OF this] obtain ks where ks: "SplitRegistryPath (Path x) = Inr ks" "?P (Path x) \<longleftrightarrow> prefix es ks"
      by blast
    show ?thesis unfolding out ks by simp
  next
    case False
    then show ?thesis unfolding out by (simp add: domIff)
  qed
  then have "set ?out = {x. db d (Path x) = Some (ValueOf x)
      \<and> (\<exists>ks. SplitRegistryPath (Path x) = Inr ks \<and> prefix es ks)}" by blast
  moreover have "distinct (map Path ?out)"
    using assms(3) by (simp add: range_order_def comp_def)
  ultimately show ?thesis using eq by blast
qed

section \<open>Traces of requests\<close>

text \<open>
  Requests arrive one after the other in any order, from any number of peers. A trace is the
  list of \<^verbatim>\<open>SetValue\<close> requests with their contexts.
\<close>

type_synonym set_request = "request_context \<times> Value option"

definition run_SetValues :: "set_request list \<Rightarrow> memRegistryDB \<Rightarrow> memRegistryDB" where
  "run_SetValues reqs d = fold (\<lambda>(ctx, val) d. snd (SetValue reg_db ctx val d)) reqs d"

lemma run_SetValues_simps [simp]:
  "run_SetValues [] d = d"
  "run_SetValues ((ctx, val) # reqs) d = run_SetValues reqs (snd (SetValue reg_db ctx val d))"
  by (simp_all add: run_SetValues_def)

lemma run_SetValues_inv:
  "mem_inv d \<Longrightarrow> canonical_keys (db d) \<Longrightarrow>
   mem_inv (run_SetValues reqs d) \<and> canonical_keys (db (run_SetValues reqs d))"
proof (induction reqs arbitrary: d)
  case (Cons req reqs)
  obtain ctx val where req: "req = (ctx, val)" by (cases req)
  obtain r d' where "SetValue reg_db ctx val d = (r, d')" by fastforce
  then show ?case
    using Cons.IH [of d'] reg.SetValue_inv [OF Cons.prems] req by fastforce
qed simp

lemma run_SetValues_snoc:
  "run_SetValues (reqs @ [(ctx, val)]) d = snd (SetValue reg_db ctx val (run_SetValues reqs d))"
  by (simp add: run_SetValues_def)

lemma canonical_keys_empty [simp]: "canonical_keys Map.empty"
  by (simp add: canonical_keys_def)

lemma run_SetValues_New:
  "mem_inv (run_SetValues reqs NewMemRegistryDB)"
  "canonical_keys (db (run_SetValues reqs NewMemRegistryDB))"
  using run_SetValues_inv [OF mem_inv_New] by (simp_all add: NewMemRegistryDB_def)

text \<open>Where an entry comes from: the last accepted request for its key.\<close>

definition wrote :: "string \<Rightarrow> string \<Rightarrow> set_request \<Rightarrow> bool" where
  "wrote k a = (\<lambda>(ctx, val). \<exists>v es peer. val = Some v \<and> SplitRegistryPath (Path v) = Inr es
     \<and> JoinRegistryPath es = k \<and> getPeer ctx = Inr peer \<and> SetValue_allowed peer es \<and> ValueOf v = a)"

lemma entry_provenance:
  "db (run_SetValues reqs NewMemRegistryDB) k = Some a \<Longrightarrow> \<exists>req \<in> set reqs. wrote k a req"
proof (induction reqs rule: rev_induct)
  case Nil
  then show ?case by (simp add: NewMemRegistryDB_def)
next
  case (snoc req reqs)
  obtain ctx val where req: "req = (ctx, val)" by (cases req)
  let ?d = "run_SetValues reqs NewMemRegistryDB"
  obtain r d' where sv: "SetValue reg_db ctx val ?d = (r, d')" by fastforce
  with snoc.prems have k: "db d' k = Some a" by (simp add: req run_SetValues_snoc)
  from sv show ?case
  proof (cases rule: SetValue_cases)
    case refused
    with k snoc.IH show ?thesis by auto
  next
    case (stored v es peer)
    have d': "db d' = (db ?d)(JoinRegistryPath es := (if ValueOf v = [] then None else Some (ValueOf v)))"
      unfolding stored(7) by (rule mem.entries_Store [OF run_SetValues_New(1)])
    show ?thesis
    proof (cases "JoinRegistryPath es = k")
      case True
      with k d' have "ValueOf v = a" by (simp split: if_splits)
      with True stored have "wrote k a req" by (auto simp: wrote_def req)
      then show ?thesis by simp
    next
      case False
      with k d' have "db ?d k = Some a" by simp
      with snoc.IH show ?thesis by auto
    qed
  qed
qed

lemma run_SetValues_unchanged:
  assumes "mem_inv d"
    and "\<forall>(ctx, val) \<in> set reqs. \<forall>peer. getPeer ctx = Inr peer \<longrightarrow>
      peer \<noteq> ''user.admin'' \<and> (\<forall>id. k = id @ ''/'' @ RegistryAddress \<longrightarrow> peer \<noteq> ''controller.'' @ id)"
  shows "db (run_SetValues reqs d) k = db d k"
  using assms
proof (induction reqs arbitrary: d)
  case (Cons req reqs)
  obtain ctx val where req: "req = (ctx, val)" by (cases req)
  obtain r d' where sv: "SetValue reg_db ctx val d = (r, d')" by fastforce
  have "db d' k = db d k"
    using reg.SetValue_changes [OF Cons.prems(1) sv] Cons.prems(2) req by auto
  moreover have "mem_inv d'"
    using sv Cons.prems(1) by (cases rule: SetValue_cases) (auto simp: mem.inv_Store)
  ultimately show ?case using Cons.IH [of d'] Cons.prems(2) req sv by simp
qed simp

lemma Connect_mem_iff:
  assumes "mem_inv d"
  shows "Connect reg_db r ctx method d = Inr req \<longleftrightarrow>
    \<not> strings_HasPrefix method ''/oim.v0.Registry/'' \<and>
    (\<exists>md id. ctx_metadata ctx = Some md \<and> md ''controllerid'' = Some [id]
       \<and> getPeer ctx = Inr (''host.'' @ id)
       \<and> db d (id @ ''/'' @ RegistryAddress) = Some (dialAddress req)
       \<and> dialOpts req = ChooseDialOpts (dialAddress req)
            [WithCodec, WithTransportCredentials ((tlsConfig r)\<lparr>ServerName := ''controller.'' @ id\<rparr>)]
       \<and> dialMetadata req = md)"
  (is "?L \<longleftrightarrow> ?R")
proof
  assume L: ?L
  then obtain md ids peer where md: "ctx_metadata ctx = Some md" "md ''controllerid'' = Some ids" "length ids = 1"
    and peer: "getPeer ctx = Inr peer" and m: "\<not> strings_HasPrefix method ''/oim.v0.Registry/''"
    by (auto simp: Connect_def Let_def split: if_splits option.splits sum.splits)
  then obtain id where ids: "ids = [id]" by (cases ids) auto
  let ?k = "id @ ''/'' @ RegistryAddress"
  have host: "strings_HasPrefix peer ''host.'' \<and> drop (length ''host.'') peer = id"
    and look: "Lookup reg_db d ?k \<noteq> []"
    and req: "req = \<lparr>dialAddress = Lookup reg_db d ?k,
        dialOpts = ChooseDialOpts (Lookup reg_db d ?k)
          [WithCodec, WithTransportCredentials ((tlsConfig r)\<lparr>ServerName := ''controller.'' @ id\<rparr>)],
        dialMetadata = md\<rparr>"
    using L md peer m ids by (simp_all add: Connect_def Let_def split: if_splits)
  from host have "peer = ''host.'' @ id" by (auto simp: strings_HasPrefix_iff)
  moreover from mem.Lookup_eq_iff [OF assms look] have "db d ?k = Some (Lookup reg_db d ?k)"
    by blast
  ultimately show ?R using md ids peer m req by simp
next
  assume ?R
  then obtain md id where R: "\<not> strings_HasPrefix method ''/oim.v0.Registry/''"
    "ctx_metadata ctx = Some md" "md ''controllerid'' = Some [id]" "getPeer ctx = Inr (''host.'' @ id)"
    "db d (id @ ''/'' @ RegistryAddress) = Some (dialAddress req)"
    "dialOpts req = ChooseDialOpts (dialAddress req)
       [WithCodec, WithTransportCredentials ((tlsConfig r)\<lparr>ServerName := ''controller.'' @ id\<rparr>)]"
    "dialMetadata req = md" by blast
  have ne: "dialAddress req \<noteq> []" using mem.entries_nonempty [OF assms] R(5) by metis
  then have look: "Lookup reg_db d (id @ ''/'' @ RegistryAddress) = dialAddress req"
    using mem.Lookup_eq_iff [OF assms] R(5) by blast
  have pre: "strings_HasPrefix (''host.'' @ id) ''host.''" by (rule strings_HasPrefix_append)
  have "req = \<lparr>dialAddress = dialAddress req, dialOpts = dialOpts req, dialMetadata = dialMetadata req\<rparr>"
    by simp
  then show ?L
    using R(1-4) R(6,7) ne look pre by (simp add: Connect_def Let_def)
qed

lemma address_key_writer:
  assumes "SplitRegistryPath p = Inr es" and "JoinRegistryPath es = cid @ ''/'' @ RegistryAddress"
    and "SetValue_allowed peer es"
  shows "peer = ''user.admin'' \<or> peer = ''controller.'' @ cid"
  using allowed_keys [OF assms(1,3)] assms(2) by auto

text \<open>A concrete registry with one entry and a caller, for the witnesses.\<close>

definition sample_registry :: registry where
  "sample_registry = \<lparr>tlsConfig = \<lparr>ServerName = [], PeerName = [], Certificates = [''reg''],
     RootCAs = ''ca'', ClientCAs = ''ca'', RequireAndVerifyClientCert = True\<rparr>\<rparr>"

definition sample_requests :: "set_request list" where
  "sample_requests = [(\<lparr>ctx_peer = Some (TLSInfo [[''controller.h'']]), ctx_metadata = None\<rparr>,
     Some \<lparr>Path = ''/h/address'', ValueOf = ''tcp://x''\<rparr>)]"

definition sample_caller :: request_context where
  "sample_caller = \<lparr>ctx_peer = Some (TLSInfo [[''host.h'']]), ctx_metadata = Some [''controllerid'' \<mapsto> [''h'']]\<rparr>"

definition sample_dial :: dial_request where
  "sample_dial = \<lparr>dialAddress = ''tcp://x'',
     dialOpts = [WithCodec, WithTransportCredentials ((tlsConfig sample_registry)\<lparr>ServerName := ''controller.h''\<rparr>),
                 WithUnaryInterceptor],
     dialMetadata = [''controllerid'' \<mapsto> [''h'']]\<rparr>"

lemma sample_db: "run_SetValues sample_requests NewMemRegistryDB = \<lparr>db = [''h/address'' \<mapsto> ''tcp://x'']\<rparr>"
  by (simp add: sample_requests_def SetValue_def getPeer_def SplitRegistryPath_def strings_FieldsFunc_def
      JoinRegistryPath_def SetValue_allowed_def RegistryAddress_def mem_db_def mem_Store_def
      NewMemRegistryDB_def)

lemma sample_Connect:
  "Connect reg_db sample_registry sample_caller ''/oim.v0.Controller/MapVolume''
     (run_SetValues sample_requests NewMemRegistryDB) = Inr sample_dial"
  unfolding sample_db
  by (simp add: Connect_def sample_caller_def sample_dial_def getPeer_def strings_HasPrefix_def
      mem_db_def mem_Lookup_def RegistryAddress_def ChooseDialOpts_def Let_def)

section \<open>Properties\<close>

text \<open>
  C5. Whoever sends a \<^verbatim>\<open>SetValue\<close> request, and whatever it contains, an entry of the database can
  only change when the verified common name of the caller is \<open>user.admin\<close>, or is
  \<open>controller.<id>\<close> and the entry is \<open><id>/address\<close>. In particular no path trick (repeated
  slashes, dots, extra elements) lets a controller write another controller's entry.
\<close>

theorem SetValue_permission:
  assumes "mem_inv d" and "SetValue reg_db ctx val d = (r, d')" and "db d' k \<noteq> db d k"
  shows "\<exists>peer. getPeer ctx = Inr peer \<and> (peer = ''user.admin'' \<or>
    (\<exists>id. path_element id \<and> peer = ''controller.'' @ id \<and> k = id @ ''/'' @ RegistryAddress))"
  using assms by (rule reg.SetValue_changes)

theorem SetValue_permission_witness:
  "\<exists>peer. getPeer \<lparr>ctx_peer = Some (TLSInfo [[''controller.h0'']]), ctx_metadata = None\<rparr> = Inr peer
     \<and> (peer = ''user.admin'' \<or>
        (\<exists>id. path_element id \<and> peer = ''controller.'' @ id \<and> ''h0/address'' = id @ ''/'' @ RegistryAddress))"
proof (rule SetValue_permission)
  let ?ctx = "\<lparr>ctx_peer = Some (TLSInfo [[''controller.h0'']]), ctx_metadata = None\<rparr>"
  show "mem_inv NewMemRegistryDB" by (rule mem_inv_New)
  show "SetValue reg_db ?ctx (Some \<lparr>Path = ''/h0/address'', ValueOf = ''tcp://x''\<rparr>) NewMemRegistryDB =
      (Inr (), mem_Store NewMemRegistryDB ''h0/address'' ''tcp://x'')"
    by (simp add: SetValue_def getPeer_def SplitRegistryPath_def strings_FieldsFunc_def
        JoinRegistryPath_def SetValue_allowed_def RegistryAddress_def mem_db_def)
  show "db (mem_Store NewMemRegistryDB ''h0/address'' ''tcp://x'') ''h0/address'' \<noteq>
      db NewMemRegistryDB ''h0/address''"
    by (simp add: mem_Store_def NewMemRegistryDB_def)
qed





text \<open>
  C9. The registry's database invariant: starting from the empty database, after any sequence of
  \<^verbatim>\<open>SetValue\<close> requests from any callers every key is a canonical, non-empty path and every value
  is non-empty, and the database is finite.
\<close>

theorem registry_invariant:
  "finite (dom (db (run_SetValues reqs NewMemRegistryDB)))
   \<and> dom (db (run_SetValues reqs NewMemRegistryDB)) \<subseteq> {k. canonical_path k \<and> k \<noteq> []}
   \<and> ran (db (run_SetValues reqs NewMemRegistryDB)) \<subseteq> {v. v \<noteq> []}"
  using run_SetValues_New [of reqs] by (auto simp: mem_inv_def canonical_keys_def ran_def)

text \<open>
  C7. \<^verbatim>\<open>GetValues\<close> answers an identified caller with exactly the entries whose path has the elements
  of the requested path as its first elements, each once, whatever order the map is iterated
  in: the byte-wise prefix test of the code never matches a part of an element.
\<close>

theorem GetValues_spec:
  assumes "mem_inv d" and "canonical_keys (db d)" and "range_order (db d) order"
    and "SplitRegistryPath path = Inr es" and "getPeer ctx = Inr peer"
  shows "\<exists>out. GetValues reg_db ctx path d order = Inr out \<and> distinct (map Path out)
    \<and> set out = {x. db d (Path x) = Some (ValueOf x)
                     \<and> (\<exists>ks. SplitRegistryPath (Path x) = Inr ks \<and> prefix es ks)}"
  using assms by (rule GetValues_entries)

theorem GetValues_spec_witness:
  "\<exists>out. GetValues reg_db sample_caller ''h'' \<lparr>db = [''h/address'' \<mapsto> ''tcp://x'']\<rparr> [''h/address''] = Inr out
    \<and> distinct (map Path out)
    \<and> set out = {x. db \<lparr>db = [''h/address'' \<mapsto> ''tcp://x'']\<rparr> (Path x) = Some (ValueOf x)
                     \<and> (\<exists>ks. SplitRegistryPath (Path x) = Inr ks \<and> prefix [''h''] ks)}"
proof (rule GetValues_spec)
  show "mem_inv \<lparr>db = [''h/address'' \<mapsto> ''tcp://x'']\<rparr>" "canonical_keys (db \<lparr>db = [''h/address'' \<mapsto> ''tcp://x'']\<rparr>)"
    using run_SetValues_New [of sample_requests] unfolding sample_db by simp_all
  show "range_order (db \<lparr>db = [''h/address'' \<mapsto> ''tcp://x'']\<rparr>) [''h/address'']"
    by (simp add: range_order_def)
  show "SplitRegistryPath ''h'' = Inr [''h'']" by (simp add: SplitRegistryPath_def strings_FieldsFunc_def)
  show "getPeer sample_caller = Inr ''host.h''" by (simp add: sample_caller_def getPeer_def)
qed

text \<open>
  C8. \<^verbatim>\<open>SetValue\<close> succeeds exactly for a request with a value, a valid non-empty path and an
  identified caller that is allowed to set it. The entry under the canonical path then has
  the new value, or is gone when the value is empty, and every other entry is as before; in
  all other cases the database is unchanged.
\<close>

theorem SetValue_outcome:
  assumes "mem_inv d" and "SetValue reg_db ctx val d = (r, d')"
  shows "(r = Inr () \<longleftrightarrow> (\<exists>v es peer. val = Some v \<and> SplitRegistryPath (Path v) = Inr es \<and> es \<noteq> []
            \<and> getPeer ctx = Inr peer \<and> SetValue_allowed peer es))
    \<and> (\<forall>v es. r = Inr () \<and> val = Some v \<and> SplitRegistryPath (Path v) = Inr es \<longrightarrow>
         db d' = (db d)(JoinRegistryPath es := (if ValueOf v = [] then None else Some (ValueOf v))))
    \<and> (r \<noteq> Inr () \<longrightarrow> d' = d)"
proof -
  have iff: "r = Inr () \<longleftrightarrow> (\<exists>v es peer. val = Some v \<and> SplitRegistryPath (Path v) = Inr es \<and> es \<noteq> []
      \<and> getPeer ctx = Inr peer \<and> SetValue_allowed peer es)"
    using assms(2) unfolding SetValue_def Let_def by (auto split: option.splits sum.splits if_splits)
  from assms(2) show ?thesis
  proof (cases rule: SetValue_cases)
    case refused
    with iff show ?thesis by auto
  next
    case (stored v es peer)
    have "db d' = (db d)(JoinRegistryPath es := (if ValueOf v = [] then None else Some (ValueOf v)))"
      unfolding stored(7) by (rule mem.entries_Store [OF assms(1)])
    with iff stored show ?thesis by auto
  qed
qed

theorem SetValue_outcome_witness:
  "SetValue reg_db sample_caller (Some \<lparr>Path = ''h/address'', ValueOf = ''y''\<rparr>) NewMemRegistryDB =
     (Inl (StatusErr PermissionDenied ''caller %q not allowed to set %q'' [''host.h'', ''h/address'']), NewMemRegistryDB)
   \<and> \<not> SetValue_allowed ''host.h'' [''h'', ''address'']"
proof -
  let ?v = "\<lparr>Path = ''h/address'', ValueOf = ''y''\<rparr>"
  have "SetValue reg_db sample_caller (Some ?v) NewMemRegistryDB =
     (Inl (StatusErr PermissionDenied ''caller %q not allowed to set %q'' [''host.h'', ''h/address'']), NewMemRegistryDB)"
    by (simp add: SetValue_def sample_caller_def getPeer_def SplitRegistryPath_def strings_FieldsFunc_def
        JoinRegistryPath_def SetValue_allowed_def RegistryAddress_def)
  moreover have "SplitRegistryPath (Path ?v) = Inr [''h'', ''address'']" "getPeer sample_caller = Inr ''host.h''"
    by (simp_all add: SplitRegistryPath_def strings_FieldsFunc_def sample_caller_def getPeer_def)
  ultimately show ?thesis using SetValue_outcome [OF mem_inv_New] by fastforce
qed

end
