(* ===== verification/Csi_Remote.thy ===== *)
theory Csi_Remote
  imports Csi_Controller Csi_Device Registry
begin

text \<open>
  The backend of the CSI driver that reaches SPDK through the OIM registry and the controller
  responsible for the host (\<^verbatim>\<open>pkg/oim-csi-driver/remote.go\<close>; the search for the block device is in
  \<open>Csi_Device\<close>). The generated client stubs, the gRPC connections, the certificate files, the events
  of the kernel and the device nodes are parameters over a world \<open>'w\<close>; theory \<open>Oim_System\<close>
  instantiates them with the modelled registry, controller and SPDK daemon.
\<close>

section \<open>Definitions\<close>

type_synonym metadata = "string \<rightharpoonup> string list"

text \<open>
  A connection is known by a number. A reply of \<^verbatim>\<open>MapVolume\<close> may lack its messages.
  \<open>sysfs_watch\<close> and \<open>sysfs_rounds\<close> are what \<open>waitForDevice\<close> needs of the kernel.
\<close>

record 'w oim_net =
  LoadX509KeyPair :: "'w \<Rightarrow> string \<Rightarrow> string \<Rightarrow> string result"
  ReadFile :: "'w \<Rightarrow> string \<Rightarrow> string result"
  AppendCertsFromPEM :: "string \<Rightarrow> bool"
  grpc_Dial :: "string \<Rightarrow> dial_option list \<Rightarrow> 'w \<Rightarrow> nat result \<times> 'w"
  conn_Close :: "nat \<Rightarrow> 'w \<Rightarrow> 'w"
  rpc_GetValues :: "nat \<Rightarrow> metadata \<Rightarrow> string \<Rightarrow> 'w \<Rightarrow> Value list result \<times> 'w"
  rpc_ProvisionMallocBDev :: "nat \<Rightarrow> metadata \<Rightarrow> string \<Rightarrow> int \<Rightarrow> 'w \<Rightarrow> unit result \<times> 'w"
  rpc_CheckMallocBDev :: "nat \<Rightarrow> metadata \<Rightarrow> string \<Rightarrow> 'w \<Rightarrow> unit result \<times> 'w"
  rpc_MapVolume :: "nat \<Rightarrow> metadata \<Rightarrow> MapVolumeRequest \<Rightarrow> 'w \<Rightarrow> (PCIAddress option \<times> SCSIDisk option) result \<times> 'w"
  rpc_UnmapVolume :: "nat \<Rightarrow> metadata \<Rightarrow> string \<Rightarrow> 'w \<Rightarrow> unit result \<times> 'w"
  proto_text :: "Value list \<Rightarrow> string"
  sysfs_watch :: "'w \<Rightarrow> unit result"
  sysfs_rounds :: "'w \<Rightarrow> (sysfs \<times> wait_event) list"
  ioutil_TempDir :: "string \<Rightarrow> string \<Rightarrow> 'w \<Rightarrow> string result \<times> 'w"
  syscall_Mknod :: "string \<Rightarrow> nat \<Rightarrow> 64 word \<Rightarrow> 'w \<Rightarrow> unit result \<times> 'w"
  os_RemoveAll :: "string \<Rightarrow> 'w \<Rightarrow> unit result \<times> 'w"

text \<open>\<^verbatim>\<open>metadata.AppendToOutgoingContext\<close>; the context of a CSI call has no outgoing metadata yet.\<close>

definition AppendToOutgoingContext :: "metadata \<Rightarrow> string \<Rightarrow> string \<Rightarrow> metadata" where
  "AppendToOutgoingContext md k v = md(k \<mapsto> (case md k of None \<Rightarrow> [] | Some vs \<Rightarrow> vs) @ [v])"

definition dialRegistry :: "'w oim_net \<Rightarrow> remoteSPDK \<Rightarrow> 'w \<Rightarrow> nat result \<times> 'w" where
  "dialRegistry net r w =
     (case LoadTLS (LoadX509KeyPair net w) (ReadFile net w) (AppendCertsFromPEM net)
             (registryCA r) (registryKey r) ''component.registry'' of
        Inl err \<Rightarrow> (Inl (Wrap err ''load TLS certs''), w)
      | Inr transportCreds \<Rightarrow>
          let opts = ChooseDialOpts (oimRegistryAddress r) [transportCreds] in
          (case grpc_Dial net (oimRegistryAddress r) opts w of
             (Inl err, w) \<Rightarrow> (Inl (Wrap err (sprintf ''connect to OIM registry at %s'' [oimRegistryAddress r])), w)
           | (Inr conn, w) \<Rightarrow> (Inr conn, w)))"

definition remote_provision :: "'w oim_net \<Rightarrow> remoteSPDK \<Rightarrow> string \<Rightarrow> int \<Rightarrow> 'w \<Rightarrow> unit result \<times> 'w" where
  "remote_provision net r bdevName sz w =
     (case dialRegistry net r w of
        (Inl err, w) \<Rightarrow> (Inl (StatusOf FailedPrecondition err), w)
      | (Inr conn, w) \<Rightarrow>
          let ctx = AppendToOutgoingContext Map.empty ''controllerid'' (oimControllerID r) in
          (case rpc_ProvisionMallocBDev net conn ctx bdevName sz w of
             (res, w) \<Rightarrow> (res, conn_Close net conn w)))"

definition remote_createVolume :: "'w oim_net \<Rightarrow> remoteSPDK \<Rightarrow> string \<Rightarrow> int \<Rightarrow> 'w \<Rightarrow> int result \<times> 'w" where
  "remote_createVolume net r volumeID requiredBytes w =
     (let capacity = requiredBytes in
      if capacity \<ge> maxStorageCapacity
      then (Inl (StatusErr OutOfRange ''Requested capacity %d exceeds maximum allowed %d''
             [strconv_Itoa capacity, strconv_Itoa maxStorageCapacity]), w)
      else
        let capacity = (if capacity = 0 then mib
              else wrap64 (go_div (wrap64 (capacity + 511)) 512 * 512))
        in (case remote_provision net r volumeID capacity w of
              (Inl err, w) \<Rightarrow> (Inl err, w)
            | (Inr _, w) \<Rightarrow> (Inr capacity, w)))"

definition remote_deleteVolume :: "'w oim_net \<Rightarrow> remoteSPDK \<Rightarrow> string \<Rightarrow> 'w \<Rightarrow> unit result \<times> 'w" where
  "remote_deleteVolume net r volumeID w = remote_provision net r volumeID 0 w"

definition remote_checkVolumeExists :: "'w oim_net \<Rightarrow> remoteSPDK \<Rightarrow> string \<Rightarrow> 'w \<Rightarrow> unit result \<times> 'w" where
  "remote_checkVolumeExists net r volumeID w =
     (case dialRegistry net r w of
        (Inl err, w) \<Rightarrow> (Inl (StatusOf FailedPrecondition err), w)
      | (Inr conn, w) \<Rightarrow>
          let ctx = AppendToOutgoingContext Map.empty ''controllerid'' (oimControllerID r) in
          (case rpc_CheckMallocBDev net conn ctx volumeID w of
             (res, w) \<Rightarrow> (res, conn_Close net conn w)))"

text \<open>The zero value of \<^verbatim>\<open>oim.PCIAddress\<close>.\<close>

definition zero_pci :: PCIAddress where
  "zero_pci = \<lparr>Domain = 0, Bus = 0, Device = 0, Function = 0\<rparr>"

text \<open>\<^verbatim>\<open>createDevice\<close>, first part: the PCI address that the registry has for the controller.\<close>

definition default_pci :: "'w oim_net \<Rightarrow> remoteSPDK \<Rightarrow> nat \<Rightarrow> 'w \<Rightarrow> (PCIAddress result \<times> 'w) outcome" where
  "default_pci net r conn w =
     (let path = oimControllerID r @ ''/'' @ RegistryPCI in
      case rpc_GetValues net conn Map.empty path w of
        (Inl err, w) \<Rightarrow> Ret (Inl (Wrap err ''get PCI address from registry''), w)
      | (Inr values, w) \<Rightarrow>
          if length values > 1
          then Ret (Inl (Errorf ''expected at most one PCI address in registry at path %s: %s'' [path, proto_text net values]), w)
          else if length values = 1
          then (case ParseBDFString (ValueOf (values ! 0)) of
                  Panic \<Rightarrow> Panic
                | Ret (Inl err) \<Rightarrow> Ret (Inl (Wrap err (sprintf ''get PCI address from registry at path %s'' [path])), w)
                | Ret (Inr p) \<Rightarrow> Ret (Inr p, w))
          else Ret (Inr zero_pci, w))"

text \<open>Second part: the volume is mapped, with the parameters of the emulated driver if there is one.\<close>

definition map_volume ::
  "'w oim_net \<Rightarrow> remoteSPDK \<Rightarrow> nat \<Rightarrow> string \<Rightarrow> csi_request \<Rightarrow> 'w
   \<Rightarrow> ((PCIAddress option \<times> SCSIDisk option) result \<times> 'w) outcome" where
  "map_volume net r conn volumeID csiRequest w =
     (let ctx = AppendToOutgoingContext Map.empty ''controllerid'' (oimControllerID r);
          request = \<lparr>VolumeId = volumeID, VolumeParams = Some MallocParams\<rparr>
      in case (case mapVolumeParams r of None \<Rightarrow> Ret (Inr request) | Some f \<Rightarrow> f csiRequest request) of
           Panic \<Rightarrow> Panic
         | Ret (Inl err) \<Rightarrow> Ret (Inl (Wrap err ''create MapVolumeRequest parameters''), w)
         | Ret (Inr request) \<Rightarrow>
             (case rpc_MapVolume net conn ctx request w of
                (Inl err, w) \<Rightarrow> Ret (Inl (Wrap err (sprintf ''MapVolume for %s'' [volumeID])), w)
              | (Inr reply, w) \<Rightarrow> Ret (Inr reply, w)))"

text \<open>Third part: the PCI address at which the device will show up.\<close>

definition complete_pci :: "remoteSPDK \<Rightarrow> PCIAddress option \<Rightarrow> PCIAddress \<Rightarrow> PCIAddress result" where
  "complete_pci r replyAddress defPCIAddress =
     (let path = oimControllerID r @ ''/'' @ RegistryPCI;
          pciAddress = (case replyAddress of None \<Rightarrow> zero_pci | Some a \<Rightarrow> a);
          complete = CompletePCIAddress pciAddress defPCIAddress;
          complete = (if Domain complete = 0xFFFF then complete\<lparr>Domain := 0\<rparr> else complete)
      in if Bus complete = 0xFFFF \<or> Device complete = 0xFFFF \<or> Function complete = 0xFFFF
         then Inl (Errorf ''need complete PCI address with bus:device.function: %s from controller, %s from registry at path %s => combined %s''
                [PrettyPCIAddress (Some pciAddress), PrettyPCIAddress (Some defPCIAddress),
                 PrettyPCIAddress (Some complete), path])
         else Inr complete)"

definition S_IFBLK :: nat where "S_IFBLK = 0x6000"

text \<open>Last part: the device node in a directory of its own under \<^verbatim>\<open>/dev\<close>. The mode \<^verbatim>\<open>0666\<close> is octal.\<close>

definition make_node ::
  "'w oim_net \<Rightarrow> string \<Rightarrow> int \<Rightarrow> int \<Rightarrow> 'w \<Rightarrow> string result \<times> 'w cleanup option \<times> 'w" where
  "make_node net dev major minor w =
     (case ioutil_TempDir net ''/dev'' dev w of
        (Inl err, w) \<Rightarrow> (Inl (Wrap err ''temp dir''), None, w)
      | (Inr tmpDir, w) \<Rightarrow>
          let devNode = filepath_Join [tmpDir, dev];
              cleanup = os_RemoveAll net tmpDir
          in (case syscall_Mknod net devNode (S_IFBLK + 438) (makedev (word_of_int major) (word_of_int minor)) w of
                (Inl err, w) \<Rightarrow>
                  if \<not> os_IsExist err then (Inl (Wrap err ''mknod''), Some cleanup, w)
                  else (Inr devNode, Some cleanup, w)
              | (Inr _, w) \<Rightarrow> (Inr devNode, Some cleanup, w)))"

definition create_on_conn ::
  "'w oim_net \<Rightarrow> remoteSPDK \<Rightarrow> nat \<Rightarrow> string \<Rightarrow> csi_request \<Rightarrow> 'w
   \<Rightarrow> (string result \<times> 'w cleanup option \<times> 'w) outcome option" where
  "create_on_conn net r conn volumeID csiRequest w =
     (case default_pci net r conn w of
        Panic \<Rightarrow> Some Panic
      | Ret (Inl err, w) \<Rightarrow> Some (Ret (Inl err, None, w))
      | Ret (Inr defPCIAddress, w) \<Rightarrow>
          (case map_volume net r conn volumeID csiRequest w of
             Panic \<Rightarrow> Some Panic
           | Ret (Inl err, w) \<Rightarrow> Some (Ret (Inl err, None, w))
           | Ret (Inr (replyAddress, scsiDisk), w) \<Rightarrow>
               (case complete_pci r replyAddress defPCIAddress of
                  Inl err \<Rightarrow> Some (Ret (Inl err, None, w))
                | Inr complete \<Rightarrow>
                    (case waitForDevice (sysfs_watch net w) ''/sys/dev/block'' complete scsiDisk (sysfs_rounds net w) of
                       None \<Rightarrow> None
                     | Some Panic \<Rightarrow> Some Panic
                     | Some (Ret (Inl err)) \<Rightarrow> Some (Ret (Inl (Wrap err ''wait for device''), None, w))
                     | Some (Ret (Inr (dev, major, minor))) \<Rightarrow> Some (Ret (make_node net dev major minor w))))))"

definition remote_createDevice ::
  "'w oim_net \<Rightarrow> remoteSPDK \<Rightarrow> string \<Rightarrow> csi_request \<Rightarrow> 'w
   \<Rightarrow> (string result \<times> 'w cleanup option \<times> 'w) outcome option" where
  "remote_createDevice net r volumeID csiRequest w =
     (case dialRegistry net r w of
        (Inl err, w) \<Rightarrow> Some (Ret (Inl (Wrap err ''connect to OIM registry''), None, w))
      | (Inr conn, w) \<Rightarrow>
          (case create_on_conn net r conn volumeID csiRequest w of
             None \<Rightarrow> None
           | Some Panic \<Rightarrow> Some Panic
           | Some (Ret (res, cleanup, w)) \<Rightarrow> Some (Ret (res, cleanup, conn_Close net conn w))))"

text \<open>Unlike the other calls, this one does not close its connection.\<close>

definition remote_deleteDevice :: "'w oim_net \<Rightarrow> remoteSPDK \<Rightarrow> string \<Rightarrow> 'w \<Rightarrow> unit result \<times> 'w" where
  "remote_deleteDevice net r volumeID w =
     (case dialRegistry net r w of
        (Inl err, w) \<Rightarrow> (Inl (Wrap err ''connect to registry''), w)
      | (Inr conn, w) \<Rightarrow>
          let ctx = AppendToOutgoingContext Map.empty ''controllerid'' (oimControllerID r) in
          (case rpc_UnmapVolume net conn ctx volumeID w of
             (Inl err, w) \<Rightarrow> (Inl (Wrap err (sprintf ''UnmapVolume for %s'' [volumeID])), w)
           | (Inr _, w) \<Rightarrow> (Inr (), w)))"

definition remote_backend :: "'w oim_net \<Rightarrow> remoteSPDK \<Rightarrow> 'w OIMBackend" where
  "remote_backend net r =
     \<lparr>backend_createVolume = remote_createVolume net r,
      backend_deleteVolume = remote_deleteVolume net r,
      backend_checkVolumeExists = remote_checkVolumeExists net r,
      backend_createDevice = remote_createDevice net r,
      backend_deleteDevice = remote_deleteDevice net r\<rparr>"

section \<open>Lemmas\<close>

text \<open>
  A negative size that is not too large is rounded to zero, and provisioning zero bytes is how a
  volume is deleted: the request to create a volume then deletes it and reports success.
\<close>

theorem remote_createVolume_negative:
  assumes "- 1022 \<le> n" and "n < 0"
  shows "remote_createVolume net r v n w =
    (case remote_deleteVolume net r v w of (q, w') \<Rightarrow> (map_sum id (\<lambda>_. 0) q, w'))"
proof -
  have "wrap64 (n + 511) = n + 511" using assms by (simp add: wrap64_id is_int64_def)
  moreover have "(n + 511) sdiv 512 = 0"
    using assms sdiv_pos [of "n + 511" 512] sdiv_neg_small [of 512 "n + 511"] by (cases "0 \<le> n + 511") simp_all
  ultimately have "wrap64 (go_div (wrap64 (n + 511)) 512 * 512) = 0" by (simp add: go_div_def wrap64_def)
  moreover have "\<not> maxStorageCapacity \<le> n"
    using assms by (simp add: maxStorageCapacity_def tib_def gib_def mib_def kib_def)
  ultimately show ?thesis
    using assms by (simp add: remote_createVolume_def remote_deleteVolume_def Let_def split: prod.split sum.split)
qed

end
