(* ===== verification/Csi_Local.thy ===== *)
theory Csi_Local
  imports Csi_Controller
begin

text \<open>
  The backend of the CSI driver that controls an SPDK daemon on the same host
  (\<^verbatim>\<open>pkg/oim-csi-driver/local.go\<close>), with \<^verbatim>\<open>spdk.New\<close> (\<^verbatim>\<open>pkg/spdk/client.go\<close>) and
  \<^verbatim>\<open>GetBlkSize64\<close> (\<^verbatim>\<open>pkg/oim-common/util.go\<close>). The world is the state of the daemon. Connecting to
  its socket and the NBD device nodes are parameters that may depend on that state. Every
  call makes a client of its own and closes it at the end, so no client is part of the state.
\<close>

section \<open>Definitions\<close>

text \<open>An open device node is a file \<open>'f\<close> with its offset.\<close>

record ('s, 'f) local_env =
  net_Dial :: "string \<Rightarrow> string \<Rightarrow> 's \<Rightarrow> unit result"
  dev_Open :: "string \<Rightarrow> 's \<Rightarrow> 'f result"
  dev_Seek :: "int \<Rightarrow> nat \<Rightarrow> 'f \<Rightarrow> int result \<times> 'f"
  dev_Close :: "'f \<Rightarrow> unit result"

definition spdk_New :: "('s, 'f) local_env \<Rightarrow> string \<Rightarrow> 's \<Rightarrow> Client result" where
  "spdk_New env path s =
     (case net_Dial env ''unix'' path s of
        Inl err \<Rightarrow> Inl err
      | Inr conn \<Rightarrow> Inr New_client)"

definition GetBlkSize64 :: "(int \<Rightarrow> nat \<Rightarrow> 'f \<Rightarrow> int result \<times> 'f) \<Rightarrow> 'f \<Rightarrow> int result \<times> 'f" where
  "GetBlkSize64 Seek file =
     (case Seek 0 1 file of
        (Inl err, file) \<Rightarrow> (Inl err, file)
      | (Inr offset, file) \<Rightarrow>
          (case Seek 0 2 file of
             (r, file) \<Rightarrow> (case Seek offset 0 file of (_, file) \<Rightarrow> (r, file))))"

definition local_createVolume ::
  "'s daemon \<Rightarrow> ('s, 'f) local_env \<Rightarrow> localSPDK \<Rightarrow> string \<Rightarrow> int \<Rightarrow> 's \<Rightarrow> int result \<times> 's" where
  "local_createVolume daemon env l volumeID requiredBytes s =
     (case spdk_New env (vhostEndpoint l) s of
        Inl err \<Rightarrow> (Inl (StatusErr FailedPrecondition ''Failed to connect to SPDK: %s'' [error_text err]), s)
      | Inr client \<Rightarrow>
          (let create = (\<lambda>(client, s).
                 let capacity = requiredBytes in
                 if capacity \<ge> maxStorageCapacity
                 then (Inl (StatusErr OutOfRange ''Requested capacity %d exceeds maximum allowed %d''
                        [strconv_Itoa capacity, strconv_Itoa maxStorageCapacity]), s)
                 else
                   let capacity = (if capacity = 0 then mib
                         else wrap64 (go_div (wrap64 (capacity + 511)) 512 * 512))
                   in (case ConstructMallocBDev daemon
                             \<lparr>cm_NumBlocks = go_div capacity 512, cm_BlockSize = 512, cm_Name = volumeID, cm_UUID = []\<rparr>
                             (client, s) of
                         (Inl err, client, s) \<Rightarrow>
                           (Inl (StatusErr FailedPrecondition ''Failed to create SPDK Malloc BDev: %s'' [error_text err]), s)
                       | (Inr _, client, s) \<Rightarrow> (Inr capacity, s)))
           in (case GetBDevs daemon volumeID (client, s) of
                 (Inr bs, client, s) \<Rightarrow>
                   if length bs = 1
                   then let volSize = wrap64 (BlockSize (bs ! 0) * NumBlocks (bs ! 0)) in
                     if volSize \<ge> requiredBytes then (Inr volSize, s)
                     else (Inl (StatusErr AlreadyExists
                            ''Volume with the same name: %s but with different size already exist'' [volumeID]), s)
                   else create (client, s)
               | (Inl err, client, s) \<Rightarrow>
                   if \<not> IsJSONError err ERROR_INVALID_PARAMS
                   then (Inl (StatusErr FailedPrecondition ''Failed to get BDevs from SPDK: %s'' [error_text err]), s)
                   else create (client, s))))"

definition local_deleteVolume ::
  "'s daemon \<Rightarrow> ('s, 'f) local_env \<Rightarrow> localSPDK \<Rightarrow> string \<Rightarrow> 's \<Rightarrow> unit result \<times> 's" where
  "local_deleteVolume daemon env l volumeID s =
     (case spdk_New env (vhostEndpoint l) s of
        Inl err \<Rightarrow> (Inl (StatusErr FailedPrecondition ''Failed to connect to SPDK: %s'' [error_text err]), s)
      | Inr client \<Rightarrow>
          (case DeleteBDev daemon volumeID (client, s) of
             (Inl err, client, s) \<Rightarrow>
               if \<not> IsJSONError err ERROR_INVALID_PARAMS
               then (Inl (StatusErr FailedPrecondition ''Failed to delete SPDK Malloc BDev %s: %s''
                      [volumeID, error_text err]), s)
               else (Inr (), s)
           | (Inr _, client, s) \<Rightarrow> (Inr (), s)))"

definition local_checkVolumeExists ::
  "'s daemon \<Rightarrow> ('s, 'f) local_env \<Rightarrow> localSPDK \<Rightarrow> string \<Rightarrow> 's \<Rightarrow> unit result \<times> 's" where
  "local_checkVolumeExists daemon env l volumeID s =
     (case spdk_New env (vhostEndpoint l) s of
        Inl err \<Rightarrow> (Inl (StatusErr FailedPrecondition ''Failed to connect to SPDK: %s'' [error_text err]), s)
      | Inr client \<Rightarrow>
          (case GetBDevs daemon volumeID (client, s) of
             (Inr bs, client, s) \<Rightarrow> if length bs = 1 then (Inr (), s) else (Inl (StatusErr NotFound [] []), s)
           | (Inl _, client, s) \<Rightarrow> (Inl (StatusErr NotFound [] []), s)))"

definition findNBDDevice :: "'s daemon \<Rightarrow> string \<Rightarrow> Client \<times> 's \<Rightarrow> string result \<times> Client \<times> 's" where
  "findNBDDevice daemon volumeID w =
     (case GetNBDDisks daemon w of
        (Inl err, w) \<Rightarrow> (Inl (Wrap err ''get NDB disks from SPDK''), w)
      | (Inr nbdDisks, w) \<Rightarrow>
          (case find (\<lambda>nbd. nbd_BDevName nbd = volumeID) nbdDisks of
             Some nbd \<Rightarrow> (Inr (NBDDevice nbd), w)
           | None \<Rightarrow> (Inr [], w)))"

definition nbd_name :: "nat \<Rightarrow> string" where
  "nbd_name i = ''/dev/nbd'' @ strconv_Itoa (int i)"

text \<open>
  The search for a free device node: the node, or the empty string, and the error seen
  last. It ends at the first device name that does not exist, and not at all if there is none.
\<close>

partial_function (option) nbd_loop ::
  "('s, 'f) local_env \<Rightarrow> 's \<Rightarrow> nat \<Rightarrow> go_error option \<Rightarrow> (string \<times> go_error option) option" where
  "nbd_loop env s i nbdError =
     (case dev_Open env (nbd_name i) s of
        Inl err \<Rightarrow>
          if os_IsNotExist err then Some ([], if nbdError = None then Some err else nbdError)
          else nbd_loop env s (i + 1) (Some err)
      | Inr nbdFile \<Rightarrow>
          (case GetBlkSize64 (dev_Seek env) nbdFile of
             (Inl err, nbdFile) \<Rightarrow> nbd_loop env s (i + 1) (Some err)
           | (Inr size64, nbdFile) \<Rightarrow>
               (case dev_Close env nbdFile of
                  Inl err \<Rightarrow> nbd_loop env s (i + 1) (Some err)
                | Inr _ \<Rightarrow>
                    if size64 = 0 then Some (nbd_name i, nbdError)
                    else nbd_loop env s (i + 1) nbdError)))"

text \<open>\<^verbatim>\<open>errors.Wrap\<close> of \<^verbatim>\<open>nil\<close> is \<^verbatim>\<open>nil\<close>; the device name is then empty and there is no error.\<close>

definition no_unused :: "go_error option \<Rightarrow> string result" where
  "no_unused nbdError =
     (case nbdError of None \<Rightarrow> Inr [] | Some e \<Rightarrow> Inl (Wrap e ''no unused /dev/nbd*''))"

definition start_nbd ::
  "'s daemon \<Rightarrow> string \<Rightarrow> string \<Rightarrow> Client \<times> 's \<Rightarrow> string result \<times> 's" where
  "start_nbd daemon volumeID nbdDevice w =
     (case StartNBDDisk daemon \<lparr>nbd_BDevName = volumeID, NBDDevice = nbdDevice\<rparr> w of
        (Inl err, client, s) \<Rightarrow>
          (Inl (Wrap err (sprintf ''start SPDK NBD disk {BDevName:%s NBDDevice:%s}'' [volumeID, nbdDevice])), s)
      | (Inr _, client, s) \<Rightarrow> (Inr nbdDevice, s))"

definition local_createDevice ::
  "'s daemon \<Rightarrow> ('s, 'f) local_env \<Rightarrow> localSPDK \<Rightarrow> string \<Rightarrow> csi_request \<Rightarrow> 's
   \<Rightarrow> (string result \<times> 's cleanup option \<times> 's) outcome option" where
  "local_createDevice daemon env l volumeID request s =
     (case spdk_New env (vhostEndpoint l) s of
        Inl err \<Rightarrow> Some (Ret (Inl (Wrap err ''connect to SPDK''), None, s))
      | Inr client \<Rightarrow>
          (case findNBDDevice daemon volumeID (client, s) of
             (Inl err, client, s) \<Rightarrow> Some (Ret (Inl (Wrap err ''find NBD device''), None, s))
           | (Inr nbdDevice, client, s) \<Rightarrow>
               (case (if nbdDevice \<noteq> [] then Some (nbdDevice, None) else nbd_loop env s 0 None) of
                  None \<Rightarrow> None
                | Some (nbdDevice, nbdError) \<Rightarrow>
                    if nbdDevice = [] then Some (Ret (no_unused nbdError, None, s))
                    else (case start_nbd daemon volumeID nbdDevice (client, s) of
                            (r, s) \<Rightarrow> Some (Ret (r, None, s))))))"

definition local_deleteDevice ::
  "'s daemon \<Rightarrow> ('s, 'f) local_env \<Rightarrow> localSPDK \<Rightarrow> string \<Rightarrow> 's \<Rightarrow> unit result \<times> 's" where
  "local_deleteDevice daemon env l volumeID s =
     (case spdk_New env (vhostEndpoint l) s of
        Inl err \<Rightarrow> (Inl (Wrap err ''connect to SPDK''), s)
      | Inr client \<Rightarrow>
          (case findNBDDevice daemon volumeID (client, s) of
             (Inl err, client, s) \<Rightarrow> (Inl (Wrap err ''get NDB disks from SPDK''), s)
           | (Inr nbdDevice, client, s) \<Rightarrow>
               (case StopNBDDisk daemon nbdDevice (client, s) of
                  (Inl err, client, s) \<Rightarrow>
                    (Inl (Wrap err (sprintf ''stop SPDK NDB disk {NBDDevice:%s}'' [nbdDevice])), s)
                | (Inr _, client, s) \<Rightarrow> (Inr (), s))))"

definition local_backend :: "'s daemon \<Rightarrow> ('s, 'f) local_env \<Rightarrow> localSPDK \<Rightarrow> 's OIMBackend" where
  "local_backend daemon env l =
     \<lparr>backend_createVolume = local_createVolume daemon env l,
      backend_deleteVolume = local_deleteVolume daemon env l,
      backend_checkVolumeExists = local_checkVolumeExists daemon env l,
      backend_createDevice = local_createDevice daemon env l,
      backend_deleteDevice = local_deleteDevice daemon env l\<rparr>"

section \<open>Lemmas\<close>

text \<open>The world as a store of volumes.\<close>

context spdk_service
begin

lemma local_create_law:
  assumes "ok s" and "v \<noteq> []" and "0 \<le> n" and "local_createVolume daemon env l v n s = (r, s')"
  shows "ok s' \<and> (case r of Inl _ \<Rightarrow> bdev_store (bd s') = bdev_store (bd s)
    | Inr c \<Rightarrow> store_step (bdev_store (bd s)) (Created v n c) (bdev_store (bd s')))"
proof (cases "net_Dial env ''unix'' (vhostEndpoint l) s")
  case (Inl err)
  then show ?thesis using assms(1,4) by (auto simp: local_createVolume_def spdk_New_def)
next
  case (Inr u)
  then have cl: "spdk_New env (vhostEndpoint l) s = Inr New_client" by (simp add: spdk_New_def)
  from GetBDevs_law [OF assms(1) client_ok_New assms(2)] obtain cl1 where g: "client_ok cl1"
    "GetBDevs daemon v (New_client, s) = ((case bd s v of None \<Rightarrow> Inl not_found | Some b \<Rightarrow> Inr [b]), cl1, s)" by blast
  show ?thesis
  proof (cases "bd s v")
    case (Some b)
    then show ?thesis using assms(1,4) g(2) cl
      by (auto simp: local_createVolume_def Let_def store_step_simps bdev_store_def volume_size_def fun_eq_iff
          split: if_splits)
  next
    case None
    show ?thesis
    proof (cases "n < maxStorageCapacity")
      case False
      then show ?thesis using assms(1,4) g(2) cl None
        by (auto simp: local_createVolume_def Let_def invalid_not_found)
    next
      case True
      note c = rounded_facts [OF assms(3) True]
      define a where "a = (\<lparr>cm_NumBlocks = rounded n div 512, cm_BlockSize = 512, cm_Name = v, cm_UUID = []\<rparr> :: ConstructMallocBDevArgs)"
      have sel: "cm_Name a = v" "cm_UUID a = []" "cm_NumBlocks a = rounded n div 512" "cm_BlockSize a = 512"
        by (simp_all add: a_def)
      from Malloc_law [OF assms(1) g(1), of a, unfolded sel, OF assms(2) refl c(7) refl] obtain cl2 s2 r2 where m: "ok s2"
        "ConstructMallocBDev daemon a (cl1, s) = (r2, cl2, s2)" and
        q: "if 0 < rounded n div 512 \<and> bd s v = None \<and> can_alloc (rounded n div 512)
           then r2 = Inr v \<and> bd s v = None
             \<and> (\<exists>b. (ProductName b = ''Malloc disk'' \<and> BlockSize b = 512 \<and> NumBlocks b = rounded n div 512) \<and> bd s2 = (bd s)(v \<mapsto> b))
           else r2 = Inl not_found \<and> s2 = s" by blast
      have res: "local_createVolume daemon env l v n s = (case r2 of
          Inl err \<Rightarrow> Inl (StatusErr FailedPrecondition ''Failed to create SPDK Malloc BDev: %s'' [error_text err])
        | Inr _ \<Rightarrow> Inr (rounded n), s2)"
        using True m(2) g(2) cl None c(1,4) unfolding a_def
        by (simp add: local_createVolume_def Let_def invalid_not_found split: sum.split)
      have "bdev_store (bd s) v = None" by (simp add: None bdev_store_def)
      then show ?thesis
        using q m(1) res assms(4) c(2,3,6)
        by (auto simp: store_step_simps bdev_store_upd volume_size_def split: if_splits)
    qed
  qed
qed

lemma local_create_existing:
  assumes "ok s" and "v \<noteq> []" and "net_Dial env ''unix'' (vhostEndpoint l) s = Inr ()"
    and "bdev_store (bd s) v = Some c" and "n \<le> c"
  shows "local_createVolume daemon env l v n s = (Inr c, s)"
proof -
  obtain b where b: "bd s v = Some b" "c = volume_size b" using assms(4) by (auto simp: bdev_store_def)
  from GetBDevs_law [OF assms(1) client_ok_New assms(2)] obtain cl1 where
    "GetBDevs daemon v (New_client, s) = ((case bd s v of None \<Rightarrow> Inl not_found | Some b \<Rightarrow> Inr [b]), cl1, s)" by blast
  with b assms(3,5) show ?thesis by (simp add: local_createVolume_def spdk_New_def Let_def volume_size_def)
qed

lemma local_delete_law:
  assumes "ok s" and "local_deleteVolume daemon env l v s = (r, s')"
  shows "ok s' \<and> (net_Dial env ''unix'' (vhostEndpoint l) s = Inr () \<longrightarrow> r = Inr ()) \<and>
    (case r of Inl _ \<Rightarrow> bdev_store (bd s') = bdev_store (bd s)
     | Inr _ \<Rightarrow> store_step (bdev_store (bd s)) (Deleted v) (bdev_store (bd s')))"
proof -
  from DeleteBDev_law [OF assms(1) client_ok_New, of v] obtain cl1 s1 where d: "ok s1"
    "DeleteBDev daemon v (New_client, s) = ((if bd s v = None then Inl not_found else Inr ()), cl1, s1)"
    "bd s1 = (bd s)(v := None)" by blast
  have "local_deleteVolume daemon env l v s = (case net_Dial env ''unix'' (vhostEndpoint l) s of
      Inl err \<Rightarrow> (Inl (StatusErr FailedPrecondition ''Failed to connect to SPDK: %s'' [error_text err]), s)
    | Inr _ \<Rightarrow> (Inr (), s1))"
    using d(2) by (simp add: local_deleteVolume_def spdk_New_def invalid_not_found split: sum.split)
  then show ?thesis
    using assms d(1,3) by (auto simp: store_step_simps bdev_store_upd split: sum.splits)
qed

lemma local_check_law:
  assumes "ok s" and "v \<noteq> []" and "local_checkVolumeExists daemon env l v s = (r, s')"
  shows "s' = s \<and> (r = Inr () \<longrightarrow> bdev_store (bd s) v \<noteq> None) \<and>
    (net_Dial env ''unix'' (vhostEndpoint l) s = Inr () \<and> bdev_store (bd s) v \<noteq> None \<longrightarrow> r = Inr ())"
proof -
  from GetBDevs_law [OF assms(1) client_ok_New assms(2)] obtain cl1 where
    "GetBDevs daemon v (New_client, s) = ((case bd s v of None \<Rightarrow> Inl not_found | Some b \<Rightarrow> Inr [b]), cl1, s)" by blast
  then show ?thesis
    using assms(3) by (cases "net_Dial env ''unix'' (vhostEndpoint l) s"; cases "bd s v")
      (auto simp: local_checkVolumeExists_def spdk_New_def bdev_store_def)
qed

end

text \<open>The daemon's socket can be reached, whatever the state of the daemon.\<close>

definition socket_up :: "('s, 'f) local_env \<Rightarrow> localSPDK \<Rightarrow> bool" where
  "socket_up lenv l \<longleftrightarrow> (\<forall>s. net_Dial lenv ''unix'' (vhostEndpoint l) s = Inr ())"

interpretation local_be: volume_backend "local_backend (spdk_daemon env) lenv l" "daemon_ok env"
  "\<lambda>_. socket_up lenv l" "\<lambda>s. bdev_store (bdevs s)" for env lenv l
proof unfold_locales
  fix s s' :: spdk and v :: string and n c :: int and r :: "int result" and q :: "unit result"
  assume ok: "daemon_ok env s" and v: "v \<noteq> []"
  show "daemon_ok env s' \<and> (socket_up lenv l \<longrightarrow> socket_up lenv l) \<and>
      (case r of Inl _ \<Rightarrow> bdev_store (bdevs s') = bdev_store (bdevs s)
       | Inr c \<Rightarrow> store_step (bdev_store (bdevs s)) (Created v n c) (bdev_store (bdevs s')))"
    if "0 \<le> n" "backend_createVolume (local_backend (spdk_daemon env) lenv l) v n s = (r, s')"
    using svc.local_create_law [OF ok v that(1), of lenv l r s'] that(2) by (simp add: local_backend_def)
  show "\<exists>s''. backend_createVolume (local_backend (spdk_daemon env) lenv l) v n s' = (Inr c, s'')"
    if u: "socket_up lenv l" and n: "0 \<le> n"
      and cr: "backend_createVolume (local_backend (spdk_daemon env) lenv l) v n s = (Inr c, s')"
    using svc.local_create_law [OF ok v n, of lenv l "Inr c" s'] cr u svc.local_create_existing [of env s' v lenv l c n] v
    by (auto simp: local_backend_def store_step_simps socket_up_def)
  show "daemon_ok env s' \<and> (socket_up lenv l \<longrightarrow> socket_up lenv l \<and> q = Inr ()) \<and>
      (case q of Inl _ \<Rightarrow> bdev_store (bdevs s') = bdev_store (bdevs s)
       | Inr _ \<Rightarrow> store_step (bdev_store (bdevs s)) (Deleted v) (bdev_store (bdevs s')))"
    if "backend_deleteVolume (local_backend (spdk_daemon env) lenv l) v s = (q, s')"
    using svc.local_delete_law [OF ok, of lenv l v q s'] that by (auto simp: local_backend_def socket_up_def)
  show "daemon_ok env s' \<and> (socket_up lenv l \<longrightarrow> socket_up lenv l) \<and> bdev_store (bdevs s') = bdev_store (bdevs s) \<and>
      (q = Inr () \<longrightarrow> bdev_store (bdevs s) v \<noteq> None) \<and> (socket_up lenv l \<and> bdev_store (bdevs s) v \<noteq> None \<longrightarrow> q = Inr ())"
    if "backend_checkVolumeExists (local_backend (spdk_daemon env) lenv l) v s = (q, s')"
    using svc.local_check_law [OF ok v, of lenv l q s'] that ok by (auto simp: local_backend_def socket_up_def)
qed

subsection \<open>NBD disks\<close>

text \<open>What the daemon does for the NBD calls.\<close>

lemma nbd_find_None: "spdk_nbd_disk_find_by_nbd_path s d = None \<longleftrightarrow> d \<notin> nbd_path ` set (nbds s)"
  by (auto simp: spdk_nbd_disk_find_by_nbd_path_def find_None_iff)

lemma GetNBDDisks_daemon:
  assumes "client_ok cl"
  shows "\<exists>cl'. client_ok cl' \<and> GetNBDDisks (spdk_daemon env) (cl, s) =
    (Inr (map (\<lambda>n. \<lparr>nbd_BDevName = nbd_bdev n, NBDDevice = nbd_path n\<rparr>) (nbds s)), cl', s)"
proof -
  have d: "spdk_daemon env ''get_nbd_disks'' None s = (Inr (JArr (map dump_nbd_info (nbds s))), s)"
    by (simp add: spdk_daemon_def rpc_get_nbd_disks_def)
  have "decode_array decode_NBDDisk (JArr (map dump_nbd_info (nbds s))) =
      Inr (map (\<lambda>n. \<lparr>nbd_BDevName = nbd_bdev n, NBDDevice = nbd_path n\<rparr>) (nbds s))"
    by (rule decode_array_map) (rule decode_dump_nbd)
  from call_value_ok [where decode = "decode_array decode_NBDDisk", OF assms d _ this] show ?thesis
    by (auto simp: GetNBDDisks_def)
qed

lemma StartNBDDisk_daemon:
  assumes "client_ok cl"
  shows "\<exists>cl'. client_ok cl' \<and> StartNBDDisk (spdk_daemon env) \<lparr>nbd_BDevName = v, NBDDevice = d\<rparr> (cl, s) =
    (if d \<notin> nbd_path ` set (nbds s) \<and> bdevs s v \<noteq> None \<and> env_nbd env d
     then (Inr (), cl', s\<lparr>nbds := nbds s @ [\<lparr>nbd_path = d, nbd_bdev = v\<rparr>]\<rparr>) else (Inl not_found, cl', s))"
proof -
  let ?ps = "Some (JObj [(''bdev_name'', JStr v), (''nbd_device'', JStr d)])"
  let ?good = "d \<notin> nbd_path ` set (nbds s) \<and> bdevs s v \<noteq> None \<and> env_nbd env d"
  have d: "spdk_daemon env ''start_nbd_disk'' ?ps s =
      (if ?good then (Inr (JStr d), s\<lparr>nbds := nbds s @ [\<lparr>nbd_path = d, nbd_bdev = v\<rparr>]\<rparr>)
       else (Inl (- 32602, ''Invalid parameters''), s))"
    by (simp add: spdk_daemon_def rpc_start_nbd_disk_def json_decode_object_def is_str_def invalid_params_def
        nbd_find_None bdevs_def)
  show ?thesis
  proof (cases ?good)
    case True
    with d have "spdk_daemon env ''start_nbd_disk'' ?ps s =
      (Inr (JStr d), s\<lparr>nbds := nbds s @ [\<lparr>nbd_path = d, nbd_bdev = v\<rparr>]\<rparr>)" by simp
    from call_unit_ok [OF assms this] True show ?thesis by (simp add: StartNBDDisk_def)
  next
    case False
    with d have "spdk_daemon env ''start_nbd_disk'' ?ps s = (Inl (- 32602, ''Invalid parameters''), s)" by simp
    from call_unit_error [OF assms this] False show ?thesis by (auto simp: StartNBDDisk_def not_found_def)
  qed
qed

lemma StopNBDDisk_daemon:
  assumes "client_ok cl"
  shows "\<exists>cl'. client_ok cl' \<and> StopNBDDisk (spdk_daemon env) d (cl, s) =
    (if d \<in> nbd_path ` set (nbds s)
     then (Inr (), cl', s\<lparr>nbds := filter (\<lambda>n. nbd_path n \<noteq> d) (nbds s)\<rparr>) else (Inl not_found, cl', s))"
proof -
  let ?ps = "Some (JObj [(''nbd_device'', JStr d)])"
  have d: "spdk_daemon env ''stop_nbd_disk'' ?ps s =
      (if d \<in> nbd_path ` set (nbds s) then (Inr (JBool True), s\<lparr>nbds := filter (\<lambda>n. nbd_path n \<noteq> d) (nbds s)\<rparr>)
       else (Inl (- 32602, ''Invalid parameters''), s))"
    by (simp add: spdk_daemon_def rpc_stop_nbd_disk_def json_decode_object_def is_str_def invalid_params_def
        nbd_find_None)
  show ?thesis
  proof (cases "d \<in> nbd_path ` set (nbds s)")
    case True
    with d have "spdk_daemon env ''stop_nbd_disk'' ?ps s =
      (Inr (JBool True), s\<lparr>nbds := filter (\<lambda>n. nbd_path n \<noteq> d) (nbds s)\<rparr>)" by simp
    from call_unit_ok [OF assms this] True show ?thesis by (simp add: StopNBDDisk_def)
  next
    case False
    with d have "spdk_daemon env ''stop_nbd_disk'' ?ps s = (Inl (- 32602, ''Invalid parameters''), s)" by simp
    from call_unit_error [OF assms this] False show ?thesis by (auto simp: StopNBDDisk_def not_found_def)
  qed
qed

text \<open>The NBD device of a volume, the empty string if there is none.\<close>

definition nbd_of :: "spdk \<Rightarrow> string \<Rightarrow> string" where
  "nbd_of s v = (case find (\<lambda>n. nbd_bdev n = v) (nbds s) of Some n \<Rightarrow> nbd_path n | None \<Rightarrow> [])"

lemma find_nbd: "find (\<lambda>nbd. nbd_BDevName nbd = v) (map (\<lambda>n. \<lparr>nbd_BDevName = nbd_bdev n, NBDDevice = nbd_path n\<rparr>) ns) =
    map_option (\<lambda>n. \<lparr>nbd_BDevName = nbd_bdev n, NBDDevice = nbd_path n\<rparr>) (find (\<lambda>n. nbd_bdev n = v) ns)"
  by (induction ns) auto

lemma findNBDDevice_daemon:
  assumes "client_ok cl"
  shows "\<exists>cl'. client_ok cl' \<and> findNBDDevice (spdk_daemon env) v (cl, s) = (Inr (nbd_of s v), cl', s)"
  using GetNBDDisks_daemon [OF assms, of env s]
  by (cases "find (\<lambda>n. nbd_bdev n = v) (nbds s)") (auto simp: findNBDDevice_def nbd_of_def find_nbd)

text \<open>The size that the search reads from a device node; \<open>None\<close> if that fails.\<close>

definition node_size :: "('s, 'f) local_env \<Rightarrow> 's \<Rightarrow> nat \<Rightarrow> int option" where
  "node_size env s i =
     (case dev_Open env (nbd_name i) s of
        Inl _ \<Rightarrow> None
      | Inr f \<Rightarrow>
          (case GetBlkSize64 (dev_Seek env) f of
             (Inl _, f) \<Rightarrow> None
           | (Inr n, f) \<Rightarrow> (case dev_Close env f of Inl _ \<Rightarrow> None | Inr _ \<Rightarrow> Some n)))"

definition node_missing :: "('s, 'f) local_env \<Rightarrow> 's \<Rightarrow> nat \<Rightarrow> bool" where
  "node_missing env s i \<longleftrightarrow> (case dev_Open env (nbd_name i) s of Inl err \<Rightarrow> os_IsNotExist err | Inr _ \<Rightarrow> False)"

text \<open>Every branch of the search either stops or goes on with the next device.\<close>

lemma nbd_loop_cases:
  "(\<exists>e'. nbd_loop env s i e = nbd_loop env s (i + 1) e') \<or> nbd_loop env s i e = Some (nbd_name i, e)
     \<or> (\<exists>e'. nbd_loop env s i e = Some ([], Some e'))"
proof (cases "dev_Open env (nbd_name i) s")
  case (Inl err)
  have "nbd_loop env s i e = (if os_IsNotExist err then Some ([], if e = None then Some err else e)
      else nbd_loop env s (i + 1) (Some err))"
    by (subst nbd_loop.simps) (simp add: Inl)
  then show ?thesis by (cases e) auto
next
  case (Inr f)
  obtain r f' where g: "GetBlkSize64 (dev_Seek env) f = (r, f')" by fastforce
  have "nbd_loop env s i e = (case r of Inl err \<Rightarrow> nbd_loop env s (i + 1) (Some err)
    | Inr n \<Rightarrow> (case dev_Close env f' of Inl err \<Rightarrow> nbd_loop env s (i + 1) (Some err)
        | Inr _ \<Rightarrow> if n = 0 then Some (nbd_name i, e) else nbd_loop env s (i + 1) e))"
    by (subst nbd_loop.simps) (simp add: Inr g)
  then show ?thesis by (cases r; cases "dev_Close env f'") auto
qed

lemma nbd_loop_size:
  assumes "node_size env s i = Some n"
  shows "nbd_loop env s i e = (if n = 0 then Some (nbd_name i, e) else nbd_loop env s (i + 1) e)"
proof (cases "dev_Open env (nbd_name i) s")
  case (Inr f)
  obtain r f' where g: "GetBlkSize64 (dev_Seek env) f = (r, f')" by fastforce
  with assms Inr have "r = Inr n" "\<exists>u. dev_Close env f' = Inr u"
    by (auto simp: node_size_def split: sum.splits)
  then show ?thesis by (subst nbd_loop.simps) (auto simp: Inr g)
qed (use assms in \<open>simp add: node_size_def\<close>)

lemma nbd_loop_finds:
  assumes "\<forall>j < k. \<exists>n. node_size env s j = Some n \<and> n \<noteq> 0" and "node_size env s k = Some 0"
  shows "nbd_loop env s 0 None = Some (nbd_name k, None)"
proof -
  have "nbd_loop env s (k - i) None = Some (nbd_name k, None)" if "i \<le> k" for i
    using that
  proof (induction i)
    case 0
    show ?case using nbd_loop_size [OF assms(2), of None] by (simp only: diff_zero if_True simp_thms)
  next
    case (Suc i)
    have "k - Suc i < k" using Suc.prems by simp
    then obtain n where n: "node_size env s (k - Suc i) = Some n" "n \<noteq> 0" using assms(1) by blast
    have "k - Suc i + 1 = k - i" using Suc.prems by simp
    from nbd_loop_size [OF n(1), of None, unfolded this] n(2) Suc.IH Suc.prems
    show ?case by (simp only: if_False Suc_leD)
  qed
  from this [of k] show ?thesis by (simp only: diff_self_eq_0 order_refl)
qed

lemma nbd_loop_ends:
  assumes "node_missing env s k" and "i \<le> k"
  shows "\<exists>d e'. nbd_loop env s i e = Some (d, e') \<and> (d = [] \<longrightarrow> e' \<noteq> None)"
  using assms(2)
proof (induction "k - i" arbitrary: i e)
  case 0
  then have "i = k" by simp
  then show ?case using assms(1) by (subst nbd_loop.simps) (auto simp: node_missing_def split: sum.splits)
next
  case (Suc j)
  have "j = k - (i + 1)" "i + 1 \<le> k" using Suc.hyps(2) by simp_all
  note IH = Suc.hyps(1) [OF this]
  have "nbd_name i \<noteq> []" by (simp add: nbd_name_def)
  with nbd_loop_cases [of env s i e] IH show ?case by fastforce
qed

lemma spdk_inv_nbd:
  assumes "spdk_inv s" and "d \<notin> nbd_path ` set (nbds s)" and "bdevs s v \<noteq> None"
  shows "spdk_inv (s\<lparr>nbds := nbds s @ [\<lparr>nbd_path = d, nbd_bdev = v\<rparr>]\<rparr>)"
  using assms bdevs_None [of s v] by (auto simp: spdk_inv_def)

lemma nbd_of_append:
  assumes "v \<notin> nbd_bdev ` set (nbds s)"
  shows "nbd_of s v = []" and "nbd_of (s\<lparr>nbds := nbds s @ [\<lparr>nbd_path = d, nbd_bdev = v\<rparr>]\<rparr>) v = d"
proof -
  have none: "find (\<lambda>n. nbd_bdev n = v) (nbds s) = None" using assms by (auto simp: find_None_iff)
  then show "nbd_of s v = []" by (simp add: nbd_of_def)
  have "find P (xs @ [x]) = (if find P xs = None then (if P x then Some x else None) else find P xs)" for P xs and x :: nbd_disk
    by (induction xs) auto
  then show "nbd_of (s\<lparr>nbds := nbds s @ [\<lparr>nbd_path = d, nbd_bdev = v\<rparr>]\<rparr>) v = d" using none by (simp add: nbd_of_def)
qed

lemma nbd_of_started: "nbd_of s v \<noteq> [] \<Longrightarrow> nbd_of s v \<in> nbd_path ` set (nbds s)"
  by (auto simp: nbd_of_def dest: find_Some_conv split: option.splits)

lemma local_createDevice_daemon:
  assumes "socket_up lenv l" and "nbd_of s v \<noteq> [] \<and> d = nbd_of s v \<or> nbd_of s v = [] \<and> nbd_loop lenv s 0 None = Some (d, e) \<and> d \<noteq> []"
  shows "local_createDevice (spdk_daemon env) lenv l v rq s =
    Some (Ret (if d \<notin> nbd_path ` set (nbds s) \<and> bdevs s v \<noteq> None \<and> env_nbd env d
      then (Inr d, None, s\<lparr>nbds := nbds s @ [\<lparr>nbd_path = d, nbd_bdev = v\<rparr>]\<rparr>)
      else (Inl (Wrap not_found (sprintf ''start SPDK NBD disk {BDevName:%s NBDDevice:%s}'' [v, d])), None, s)))"
proof -
  have new: "spdk_New lenv (vhostEndpoint l) s = Inr New_client" using assms(1) by (simp add: spdk_New_def socket_up_def)
  obtain cl1 where f: "client_ok cl1" "findNBDDevice (spdk_daemon env) v (New_client, s) = (Inr (nbd_of s v), cl1, s)"
    using findNBDDevice_daemon [OF client_ok_New, of env v s] by blast
  have "(if nbd_of s v \<noteq> [] then Some (nbd_of s v, None) else nbd_loop lenv s 0 None) = Some (d, if nbd_of s v \<noteq> [] then None else e)"
    and "d \<noteq> []" using assms(2) by (cases "nbd_of s v = []"; simp)+
  then have "local_createDevice (spdk_daemon env) lenv l v rq s =
      (case start_nbd (spdk_daemon env) v d (cl1, s) of (r, s) \<Rightarrow> Some (Ret (r, None, s)))"
    by (simp only: local_createDevice_def new f sum.case prod.case option.case if_False simp_thms)
  then show ?thesis using StartNBDDisk_daemon [OF f(1), of env v d s] by (auto simp: start_nbd_def)
qed

section \<open>Properties\<close>

text \<open>
  C14. The CSI controller service over the local backend implements the store of volumes:
  whatever calls arrive one after the other, each of them returns, leaves no lock behind, and
  the replies together with the sizes of the daemon's BDevs before and after are a run of the
  abstract store. In particular an existing volume is never resized, and a call that
  fails leaves all volumes alone.
\<close>

theorem local_controller_refines:
  assumes "daemon_ok env s" and "locks_free km" and "list_all sized calls"
  shows "\<exists>events s'. csi_run (local_backend (spdk_daemon env) lenv l) calls (km, s) = Some (Ret (events, km, s'))
    \<and> daemon_ok env s' \<and> store_run (bdev_store (bdevs s)) events (bdev_store (bdevs s'))"
  using local_be.csi_run_refines [OF assms] by blast


text \<open>
  The branch of \<^verbatim>\<open>createDevice\<close> that says it reuses an already started NBD disk never
  succeeds: the disk is started a second time at the same node, which the daemon refuses.
\<close>

theorem local_createDevice_never_reuses:
  assumes "socket_up lenv l" and "nbd_of s v \<noteq> []"
  shows "\<exists>e. local_createDevice (spdk_daemon env) lenv l v rq s = Some (Ret (Inl e, None, s))"
  using local_createDevice_daemon [OF assms(1), of s v "nbd_of s v" None env rq] nbd_of_started [OF assms(2)] assms(2)
  by simp

text \<open>A host with two NBD device nodes, whose size is not zero while the daemon uses them.\<close>

definition sample_nodes :: "(spdk, int \<times> int) local_env" where
  "sample_nodes = \<lparr>net_Dial = (\<lambda>_ _ _. Inr ()),
     dev_Open = (\<lambda>p s. if p = ''/dev/nbd0'' \<or> p = ''/dev/nbd1''
       then Inr (if p \<in> set (map nbd_path (nbds s)) then 4096 else 0, 0) else Inl (OsError ENOENT)),
     dev_Seek = (\<lambda>offset whence (sz, pos). let n = (if whence = 0 then offset else if whence = 1 then pos + offset else sz + offset)
       in (Inr n, sz, n)),
     dev_Close = (\<lambda>_. Inr ())\<rparr>"

definition sample_create :: CreateVolumeRequest where
  "sample_create = \<lparr>CreateName = ''v'', RequiredBytes = 1000,
     CreateCapabilities = [\<lparr>AccessType = Some (MountAccess \<lparr>FsType = ''ext4'', MountFlags = []\<rparr>), CapAccessMode = Some SINGLE_NODE_WRITER\<rparr>],
     Parameters = Map.empty, VolumeContentSource = False\<rparr>"

definition sample_validate :: ValidateVolumeCapabilitiesRequest where
  "sample_validate = \<lparr>ValidateVolumeId = ''v'', VolumeContext = Map.empty,
     ValidateCapabilities = CreateCapabilities sample_create, ValidateParameters = Map.empty\<rparr>"

definition sample_calls :: "csi_call list" where
  "sample_calls = [Call_CreateVolume sample_create, Call_ValidateVolume sample_validate, Call_DeleteVolume ''v'']"

lemma sample_calls_sized: "list_all sized sample_calls"
  by (simp add: sample_calls_def sample_create_def)

lemma sample_locks: "locks_free (volumeNameMutex 4)"
  by (rule locks_free_start) simp

theorem local_controller_refines_witness:
  "\<exists>events s'. csi_run (local_backend (spdk_daemon sample_env) sample_nodes \<lparr>vhostEndpoint = ''/s''\<rparr>) sample_calls
      (volumeNameMutex 4, sample_spdk) = Some (Ret (events, volumeNameMutex 4, s'))
    \<and> store_run (bdev_store (bdevs sample_spdk)) events (bdev_store (bdevs s'))"
  using local_controller_refines [OF sample_ok sample_locks sample_calls_sized] by blast


end
