(* ===== verification/Oim_System.thy ===== *)
theory Oim_System
  imports Csi_Remote Csi_Local
begin

text \<open>
  A whole deployment: the CSI driver with the remote backend, the OIM registry with its proxy, one
  OIM controller and its SPDK daemon. What the other theories leave open is filled in here: a
  connection of the driver is TLS to the registry, a registry call is answered by the model of the
  registry, and every other call goes through the model of the proxy to the model of the
  controller, which talks to the model of the daemon. The deployment is shown to keep the contract of
  a volume backend.
\<close>

section \<open>Definitions\<close>

text \<open>
  What does not change: where registry and controller listen and the names in their
  certificates, the files of the driver, and the surroundings of the daemon and of the host's kernel.
\<close>

record deployment =
  dep_registryAddress :: string
  dep_registryCN :: string
  dep_registry :: registry
  dep_keypair :: "string \<Rightarrow> string \<Rightarrow> string result"
  dep_file :: "string \<Rightarrow> string result"
  dep_pem :: "string \<Rightarrow> bool"
  dep_address :: string
  dep_controllerCN :: string
  dep_controller :: OIMController
  dep_env :: environment
  dep_order :: "memRegistryDB \<Rightarrow> string list"
  dep_watch :: "unit result"
  dep_rounds :: "spdk \<Rightarrow> (sysfs \<times> wait_event) list"

text \<open>
  What changes: the registry's database, the controller's client and the daemon, the
  connections of the driver (number, address, options) and the device nodes it has made, by path.
\<close>

record system =
  sys_db :: memRegistryDB
  sys_client :: Client
  sys_spdk :: spdk
  sys_next :: nat
  sys_open :: "(nat \<times> string \<times> dial_option list) list"
  sys_dirs :: "string list"
  sys_nodes :: "(string \<times> nat \<times> 64 word) list"

fun tls_of :: "dial_option list \<Rightarrow> tls_config option" where
  "tls_of [] = None"
| "tls_of (WithTransportCredentials cfg # opts) = Some cfg"
| "tls_of (_ # opts) = tls_of opts"

definition unreachable :: go_error where
  "unreachable = StatusErr Unavailable ''all SubConns are in TransientFailure'' []"

text \<open>Dialling does not wait for the connection, so it succeeds; the first call tells.\<close>

definition system_Dial :: "string \<Rightarrow> dial_option list \<Rightarrow> system \<Rightarrow> nat result \<times> system" where
  "system_Dial address opts w =
     (Inr (sys_next w), w\<lparr>sys_next := sys_next w + 1, sys_open := (sys_next w, address, opts) # sys_open w\<rparr>)"

definition system_Close :: "nat \<Rightarrow> system \<Rightarrow> system" where
  "system_Close conn w = w\<lparr>sys_open := filter (\<lambda>(n, _). n \<noteq> conn) (sys_open w)\<rparr>"

text \<open>The context in which the registry sees a call of the driver.\<close>

definition conn_context :: "deployment \<Rightarrow> string \<Rightarrow> dial_option list \<Rightarrow> metadata \<Rightarrow> request_context result" where
  "conn_context d address opts md =
     (if address \<noteq> dep_registryAddress d then Inl unreachable
      else case tls_of opts of
        None \<Rightarrow> Inl unreachable
      | Some cfg \<Rightarrow>
          (case VerifyPeerCertificate (PeerName cfg) [[dep_registryCN d]] of
             Inl err \<Rightarrow> Inl (StatusOf Unavailable err)
           | Inr _ \<Rightarrow> Inr \<lparr>ctx_peer = Some (TLSInfo [Certificates cfg]), ctx_metadata = Some md\<rparr>))"

definition registry_call ::
  "deployment \<Rightarrow> (request_context \<Rightarrow> memRegistryDB \<Rightarrow> 'a result) \<Rightarrow> nat \<Rightarrow> metadata \<Rightarrow> system \<Rightarrow> 'a result \<times> system" where
  "registry_call d h conn md w =
     (case map_of (sys_open w) conn of
        None \<Rightarrow> (Inl unreachable, w)
      | Some (address, opts) \<Rightarrow>
          (case conn_context d address opts md of
             Inl err \<Rightarrow> (Inl err, w)
           | Inr ctx \<Rightarrow> (map_sum grpc_wire id (h ctx (sys_db w)), w)))"

text \<open>
  The proxy's connection to the controller works if it is dialled at its address with the name of its
  certificate.
\<close>

definition proxy_reaches :: "deployment \<Rightarrow> dial_request \<Rightarrow> bool" where
  "proxy_reaches d q \<longleftrightarrow> dialAddress q = dep_address d
     \<and> (case tls_of (dialOpts q) of None \<Rightarrow> False | Some cfg \<Rightarrow> ServerName cfg = dep_controllerCN d)"

definition proxy_answer :: "deployment \<Rightarrow> string \<Rightarrow> request_context \<Rightarrow> memRegistryDB \<Rightarrow> unit result" where
  "proxy_answer d service ctx dbase =
     (case Connect reg_db (dep_registry d) ctx service dbase of
        Inl err \<Rightarrow> Inl err
      | Inr q \<Rightarrow> if proxy_reaches d q then Inr () else Inl unreachable)"

definition controller_call ::
  "deployment \<Rightarrow> string \<Rightarrow> (OIMController \<Rightarrow> Client \<times> spdk \<Rightarrow> 'a result \<times> Client \<times> spdk)
   \<Rightarrow> nat \<Rightarrow> metadata \<Rightarrow> system \<Rightarrow> 'a result \<times> system" where
  "controller_call d service h conn md w =
     (case registry_call d (proxy_answer d service) conn md w of
        (Inl err, w) \<Rightarrow> (Inl err, w)
      | (Inr _, w) \<Rightarrow>
          (case h (dep_controller d) (sys_client w, sys_spdk w) of
             (r, cl, s) \<Rightarrow> (map_sum grpc_wire id r, w\<lparr>sys_client := cl, sys_spdk := s\<rparr>)))"

definition system_TempDir :: "string \<Rightarrow> string \<Rightarrow> system \<Rightarrow> string result \<times> system" where
  "system_TempDir dir pre w =
     (let p = dir @ ''/'' @ pre @ strconv_Itoa (int (length (sys_dirs w)))
      in (Inr p, w\<lparr>sys_dirs := p # sys_dirs w\<rparr>))"

definition system_Mknod :: "string \<Rightarrow> nat \<Rightarrow> 64 word \<Rightarrow> system \<Rightarrow> unit result \<times> system" where
  "system_Mknod path mode dev w =
     (if map_of (sys_nodes w) path \<noteq> None then (Inl (OsError EEXIST), w)
      else (Inr (), w\<lparr>sys_nodes := (path, mode, dev) # sys_nodes w\<rparr>))"

definition system_RemoveAll :: "string \<Rightarrow> system \<Rightarrow> unit result \<times> system" where
  "system_RemoveAll p w =
     (Inr (), w\<lparr>sys_dirs := filter (\<lambda>q. q \<noteq> p) (sys_dirs w),
                sys_nodes := filter (\<lambda>(q, _). \<not> strings_HasPrefix q (p @ ''/'')) (sys_nodes w)\<rparr>)"

definition system_net :: "deployment \<Rightarrow> system oim_net" where
  "system_net d =
     \<lparr>LoadX509KeyPair = (\<lambda>_. dep_keypair d), ReadFile = (\<lambda>_. dep_file d), AppendCertsFromPEM = dep_pem d,
      grpc_Dial = system_Dial, conn_Close = system_Close,
      rpc_GetValues = (\<lambda>conn md path. registry_call d (\<lambda>ctx dbase. GetValues reg_db ctx path dbase (dep_order d dbase)) conn md),
      rpc_ProvisionMallocBDev = (\<lambda>conn md n sz. controller_call d ''/oim.v0.Controller/ProvisionMallocBDev''
        (\<lambda>c. ProvisionMallocBDev (spdk_daemon (dep_env d)) c n sz) conn md),
      rpc_CheckMallocBDev = (\<lambda>conn md n. controller_call d ''/oim.v0.Controller/CheckMallocBDev''
        (\<lambda>c. CheckMallocBDev (spdk_daemon (dep_env d)) c n) conn md),
      rpc_MapVolume = (\<lambda>conn md rq w. case controller_call d ''/oim.v0.Controller/MapVolume''
        (\<lambda>c. MapVolume (spdk_daemon (dep_env d)) c rq) conn md w of
          (r, w) \<Rightarrow> (map_sum id (\<lambda>m. (Some (PciAddress m), Some (ScsiDisk m))) r, w)),
      rpc_UnmapVolume = (\<lambda>conn md n. controller_call d ''/oim.v0.Controller/UnmapVolume''
        (\<lambda>c. UnmapVolume (spdk_daemon (dep_env d)) c n) conn md),
      proto_text = (\<lambda>vs. strings_Join (map Path vs) '' ''),
      sysfs_watch = (\<lambda>_. dep_watch d), sysfs_rounds = (\<lambda>w. dep_rounds d (sys_spdk w)),
      ioutil_TempDir = system_TempDir, syscall_Mknod = system_Mknod, os_RemoveAll = system_RemoveAll\<rparr>"

section \<open>Lemmas\<close>

text \<open>The invariant: the components keep theirs, and the number of the next connection is new.\<close>

definition sys_inv :: "deployment \<Rightarrow> system \<Rightarrow> bool" where
  "sys_inv d w \<longleftrightarrow> daemon_ok (dep_env d) (sys_spdk w) \<and> client_ok (sys_client w)
     \<and> (\<forall>c \<in> set (sys_open w). fst c < sys_next w)"

text \<open>
  The credentials of the driver, and what becomes of a call with them. Whether the
  controller is reached depends on the registry's database only.
\<close>

definition driver_opts :: "deployment \<Rightarrow> remoteSPDK \<Rightarrow> dial_option list result" where
  "driver_opts d r =
     (case LoadTLS (dep_keypair d) (dep_file d) (dep_pem d) (registryCA r) (registryKey r) ''component.registry'' of
        Inl err \<Rightarrow> Inl (Wrap err ''load TLS certs'')
      | Inr creds \<Rightarrow> Inr (ChooseDialOpts (oimRegistryAddress r) [creds]))"

definition driver_md :: "remoteSPDK \<Rightarrow> metadata" where
  "driver_md r = AppendToOutgoingContext Map.empty ''controllerid'' (oimControllerID r)"

definition route :: "deployment \<Rightarrow> remoteSPDK \<Rightarrow> string \<Rightarrow> memRegistryDB \<Rightarrow> unit result" where
  "route d r service dbase =
     (case driver_opts d r of
        Inl err \<Rightarrow> Inl err
      | Inr opts \<Rightarrow>
          (case conn_context d (oimRegistryAddress r) opts (driver_md r) of
             Inl err \<Rightarrow> Inl err
           | Inr ctx \<Rightarrow> map_sum grpc_wire id (proxy_answer d service ctx dbase)))"

definition sys_up :: "deployment \<Rightarrow> remoteSPDK \<Rightarrow> system \<Rightarrow> bool" where
  "sys_up d r w \<longleftrightarrow> route d r ''/oim.v0.Controller/'' (sys_db w) = Inr () \<and> hasSPDK (dep_controller d)"

lemma proxy_service: "proxy_answer d (''/oim.v0.Controller/'' @ m) = proxy_answer d ''/oim.v0.Controller/''"
  by (simp add: proxy_answer_def Connect_def strings_HasPrefix_def fun_eq_iff)

lemma route_service:
  "route d r (''/oim.v0.Controller/'' @ m) dbase = route d r ''/oim.v0.Controller/'' dbase"
  by (simp only: route_def proxy_service)

lemmas route_services =
  route_service [of _ _ "''ProvisionMallocBDev''", unfolded append.simps] route_service [of _ _ "''CheckMallocBDev''", unfolded append.simps]
  route_service [of _ _ "''MapVolume''", unfolded append.simps] route_service [of _ _ "''UnmapVolume''", unfolded append.simps]

definition opened :: "remoteSPDK \<Rightarrow> dial_option list \<Rightarrow> system \<Rightarrow> system" where
  "opened r opts w = w\<lparr>sys_next := sys_next w + 1, sys_open := (sys_next w, oimRegistryAddress r, opts) # sys_open w\<rparr>"

lemma opened_simps [simp]:
  "sys_db (opened r opts w) = sys_db w" "sys_client (opened r opts w) = sys_client w"
  "sys_spdk (opened r opts w) = sys_spdk w" "map_of (sys_open (opened r opts w)) (sys_next w) = Some (oimRegistryAddress r, opts)"
  by (simp_all add: opened_def)

lemma dialRegistry_system:
  "dialRegistry (system_net d) r w =
     (case driver_opts d r of Inl err \<Rightarrow> (Inl err, w) | Inr opts \<Rightarrow> (Inr (sys_next w), opened r opts w))"
  by (simp add: dialRegistry_def driver_opts_def system_net_def system_Dial_def opened_def Let_def split: sum.split)

lemma close_opened:
  assumes "sys_inv d w"
  shows "system_Close (sys_next w) ((opened r opts w)\<lparr>sys_client := cl, sys_spdk := s\<rparr>) =
    w\<lparr>sys_next := sys_next w + 1, sys_client := cl, sys_spdk := s\<rparr>"
proof -
  have "filter (\<lambda>(n, _). n \<noteq> sys_next w) (sys_open w) = sys_open w"
    using assms by (auto simp: sys_inv_def filter_id_conv)
  then show ?thesis by (simp add: system_Close_def opened_def)
qed

lemma controller_call_opened:
  "controller_call d service h (sys_next w) (driver_md r) (opened r opts w) =
     (case (case conn_context d (oimRegistryAddress r) opts (driver_md r) of
              Inl err \<Rightarrow> Inl err | Inr ctx \<Rightarrow> map_sum grpc_wire id (proxy_answer d service ctx (sys_db w))) of
        Inl err \<Rightarrow> (Inl err, opened r opts w)
      | Inr _ \<Rightarrow> (case h (dep_controller d) (sys_client w, sys_spdk w) of
          (q, cl, s) \<Rightarrow> (map_sum grpc_wire id q, (opened r opts w)\<lparr>sys_client := cl, sys_spdk := s\<rparr>)))"
  by (simp add: controller_call_def registry_call_def split: sum.split)

text \<open>
  A call of the driver over a connection of its own: it fails without touching the daemon, or it is the
  controller's answer.
\<close>

definition one_call ::
  "deployment \<Rightarrow> remoteSPDK \<Rightarrow> string \<Rightarrow> (OIMController \<Rightarrow> Client \<times> spdk \<Rightarrow> 'a result \<times> Client \<times> spdk)
   \<Rightarrow> system \<Rightarrow> 'a result \<Rightarrow> system \<Rightarrow> bool" where
  "one_call d r service h w q w' \<longleftrightarrow>
     (case route d r service (sys_db w) of
        Inl _ \<Rightarrow> isl q \<and> (\<exists>n. sys_next w \<le> n \<and> w' = w\<lparr>sys_next := n\<rparr>)
      | Inr _ \<Rightarrow> (case h (dep_controller d) (sys_client w, sys_spdk w) of
          (q1, cl, s) \<Rightarrow> q = map_sum grpc_wire id q1
            \<and> w' = w\<lparr>sys_next := sys_next w + 1, sys_client := cl, sys_spdk := s\<rparr>))"

lemma call_and_close:
  assumes "sys_inv d w" and "driver_opts d r = Inr opts"
    and "controller_call d service h (sys_next w) (driver_md r) (opened r opts w) = (q, w1)"
  shows "one_call d r service h w q (system_Close (sys_next w) w1)"
proof -
  have same: "(opened r opts w)\<lparr>sys_client := sys_client w, sys_spdk := sys_spdk w\<rparr> = opened r opts w"
    by (simp add: opened_def)
  have c: "system_Close (sys_next w) (opened r opts w) = w\<lparr>sys_next := sys_next w + 1\<rparr>"
    using close_opened [OF assms(1), where cl = "sys_client w" and s = "sys_spdk w" and r = r and opts = opts] unfolding same by simp
  let ?k = "case conn_context d (oimRegistryAddress r) opts (driver_md r) of
              Inl err \<Rightarrow> Inl err | Inr ctx \<Rightarrow> map_sum grpc_wire id (proxy_answer d service ctx (sys_db w))"
  have k: "route d r service (sys_db w) = ?k" using assms(2) by (simp add: route_def)
  show ?thesis
  proof (cases ?k)
    case (Inl err)
    then have "q = Inl err" "w1 = opened r opts w" using assms(3) by (simp_all add: controller_call_opened)
    then show ?thesis using Inl k c by (auto simp: one_call_def intro!: exI [of _ "Suc (sys_next w)"])
  next
    case (Inr u)
    obtain q1 cl s where h: "h (dep_controller d) (sys_client w, sys_spdk w) = (q1, cl, s)" by (cases "h (dep_controller d) (sys_client w, sys_spdk w)")
    then have "q = map_sum grpc_wire id q1" "w1 = (opened r opts w)\<lparr>sys_client := cl, sys_spdk := s\<rparr>"
      using assms(3) Inr by (simp_all add: controller_call_opened)
    then show ?thesis using Inr k h close_opened [OF assms(1)] by (simp add: one_call_def)
  qed
qed

lemma provision_system:
  assumes "sys_inv d w" and "remote_provision (system_net d) r v sz w = (q, w')"
  shows "one_call d r ''/oim.v0.Controller/ProvisionMallocBDev''
    (\<lambda>c. ProvisionMallocBDev (spdk_daemon (dep_env d)) c v sz) w q w'"
proof (cases "driver_opts d r")
  case (Inl err)
  then have "q = Inl (StatusOf FailedPrecondition err)" "w' = w"
    using assms(2) by (simp_all add: remote_provision_def dialRegistry_system)
  then show ?thesis using Inl by (auto simp: one_call_def route_def intro!: exI [of _ "sys_next w"])
next
  case (Inr opts)
  obtain q1 w1 where c: "controller_call d ''/oim.v0.Controller/ProvisionMallocBDev''
      (\<lambda>c. ProvisionMallocBDev (spdk_daemon (dep_env d)) c v sz) (sys_next w) (driver_md r) (opened r opts w) = (q1, w1)"
    by fastforce
  have "(q, w') = (q1, system_Close (sys_next w) w1)"
    using assms(2) Inr c
    by (simp add: remote_provision_def dialRegistry_system driver_md_def Let_def) (simp add: system_net_def)
  then show ?thesis using call_and_close [OF assms(1) Inr c] by simp
qed

lemma check_system:
  assumes "sys_inv d w" and "remote_checkVolumeExists (system_net d) r v w = (q, w')"
  shows "one_call d r ''/oim.v0.Controller/CheckMallocBDev''
    (\<lambda>c. CheckMallocBDev (spdk_daemon (dep_env d)) c v) w q w'"
proof (cases "driver_opts d r")
  case (Inl err)
  then have "q = Inl (StatusOf FailedPrecondition err)" "w' = w"
    using assms(2) by (simp_all add: remote_checkVolumeExists_def dialRegistry_system)
  then show ?thesis using Inl by (auto simp: one_call_def route_def intro!: exI [of _ "sys_next w"])
next
  case (Inr opts)
  obtain q1 w1 where c: "controller_call d ''/oim.v0.Controller/CheckMallocBDev''
      (\<lambda>c. CheckMallocBDev (spdk_daemon (dep_env d)) c v) (sys_next w) (driver_md r) (opened r opts w) = (q1, w1)"
    by fastforce
  have "(q, w') = (q1, system_Close (sys_next w) w1)"
    using assms(2) Inr c
    by (simp add: remote_checkVolumeExists_def dialRegistry_system driver_md_def Let_def) (simp add: system_net_def)
  then show ?thesis using call_and_close [OF assms(1) Inr c] by simp
qed

abbreviation sys_store :: "system \<Rightarrow> store" where
  "sys_store w \<equiv> bdev_store (bdevs (sys_spdk w))"

lemma sys_inv_next: "sys_inv d w \<Longrightarrow> sys_next w \<le> n \<Longrightarrow> sys_inv d (w\<lparr>sys_next := n\<rparr>)"
  by (auto simp: sys_inv_def)

text \<open>The controller's \<^verbatim>\<open>ProvisionMallocBDev\<close> on the store, for the sizes the driver asks for.\<close>

lemma provision_daemon:
  assumes "daemon_ok env s" and "client_ok cl" and "v \<noteq> []" and "hasSPDK c"
    and "sz = 0 \<or> 0 \<le> n \<and> n < maxStorageCapacity \<and> sz = rounded n"
    and "ProvisionMallocBDev (spdk_daemon env) c v sz (cl, s) = (q, cl', s')"
  shows "daemon_ok env s' \<and> client_ok cl' \<and>
    (case q of Inl _ \<Rightarrow> bdev_store (bdevs s') = bdev_store (bdevs s)
     | Inr _ \<Rightarrow> if sz = 0 then bdev_store (bdevs s') = (bdev_store (bdevs s))(v := None)
         else bdev_store (bdevs s') = (bdev_store (bdevs s))(v \<mapsto> sz) \<and> bdev_store (bdevs s) v \<in> {None, Some sz}) \<and>
    (sz = 0 \<or> bdev_store (bdevs s) v = Some sz \<longrightarrow> q = Inr ())"
proof -
  from svc.ProvisionMallocBDev_law [OF assms(1-4), of sz] assms(6) have ok: "daemon_ok env s'" "client_ok cl'"
    and law: "if sz = 0 then q = Inr () \<and> bdevs s' = (bdevs s)(v := None)
       \<and> luns s' = filter (\<lambda>(c, t, b). b \<noteq> v) (luns s)
     else luns s' = luns s \<and>
       (case bdevs s v of
          Some b \<Rightarrow> s' = s \<and> q = (if wrap64 (NumBlocks b * BlockSize b) = sz then Inr ()
            else Inl (StatusErr AlreadyExists ''Existing BDev %s has wrong size %d''
                   [v, strconv_Itoa (wrap64 (NumBlocks b * BlockSize b))]))
        | None \<Rightarrow>
            if 0 < go_div sz 512 \<and> env_alloc env (nat (go_div sz 512) * 512)
            then q = Inr () \<and> (\<exists>b. (ProductName b = ''Malloc disk'' \<and> BlockSize b = 512 \<and> NumBlocks b = go_div sz 512)
                  \<and> bdevs s' = (bdevs s)(v \<mapsto> b))
            else q = Inl (Wrap not_found ''ConstructMallocBDev'') \<and> s' = s)"
    by auto
  show ?thesis
  proof (cases "sz = 0")
    case True
    then show ?thesis using ok law by (simp add: bdev_store_upd)
  next
    case False
    then have n: "0 \<le> n" "n < maxStorageCapacity" "sz = rounded n" using assms(5) by simp_all
    note sz = rounded_facts(4,6) [OF n(1,2), folded n(3)]
    show ?thesis
    proof (cases "bdevs s v")
      case (Some b)
      then have "bdev_store (bdevs s) v = Some (wrap64 (NumBlocks b * BlockSize b))"
        by (simp add: bdev_store_def volume_size_def mult.commute)
      then show ?thesis using ok law Some False by (auto simp: fun_upd_idem)
    next
      case None
      then have "bdev_store (bdevs s) v = None" by (simp add: bdev_store_def)
      then show ?thesis using ok law None False sz
        by (auto simp: bdev_store_upd volume_size_def split: if_splits)
    qed
  qed
qed

lemma provision_store:
  assumes "sys_inv d w" and "v \<noteq> []" and "sz = 0 \<or> 0 \<le> n \<and> n < maxStorageCapacity \<and> sz = rounded n"
    and "remote_provision (system_net d) r v sz w = (q, w')"
  shows "sys_inv d w' \<and> sys_db w' = sys_db w \<and> sys_open w' = sys_open w \<and>
    (case q of Inl _ \<Rightarrow> sys_store w' = sys_store w
     | Inr _ \<Rightarrow> if sz = 0 then sys_store w' = (sys_store w)(v := None)
         else sys_store w' = (sys_store w)(v \<mapsto> sz) \<and> sys_store w v \<in> {None, Some sz}) \<and>
    (sys_up d r w \<and> (sz = 0 \<or> sys_store w v = Some sz) \<longrightarrow> q = Inr ())"
proof -
  note call = provision_system [OF assms(1,4), unfolded one_call_def route_services]
  show ?thesis
  proof (cases "route d r ''/oim.v0.Controller/'' (sys_db w)")
    case (Inl err)
    then show ?thesis using call assms(1) by (auto simp: sys_up_def sys_inv_next split: sum.splits)
  next
    case (Inr u)
    obtain q1 cl s where p: "ProvisionMallocBDev (spdk_daemon (dep_env d)) (dep_controller d) v sz (sys_client w, sys_spdk w) = (q1, cl, s)"
      by (cases "ProvisionMallocBDev (spdk_daemon (dep_env d)) (dep_controller d) v sz (sys_client w, sys_spdk w)")
    then have r: "q = map_sum grpc_wire id q1" "w' = w\<lparr>sys_next := sys_next w + 1, sys_client := cl, sys_spdk := s\<rparr>"
      using call Inr by simp_all
    have inv: "daemon_ok (dep_env d) (sys_spdk w)" "client_ok (sys_client w)" using assms(1) by (simp_all add: sys_inv_def)
    show ?thesis
    proof (cases "hasSPDK (dep_controller d)")
      case True
      from provision_daemon [OF inv assms(2) True assms(3) p] r assms(1) show ?thesis
        by (cases q1) (auto simp: sys_inv_def)
    next
      case False
      then have "cl = sys_client w" "s = sys_spdk w" "isl q1" using p assms(2) by (auto simp: ProvisionMallocBDev_def)
      then show ?thesis using r False assms(1) by (cases q1) (auto simp: sys_up_def sys_inv_def)
    qed
  qed
qed

lemma check_store:
  assumes "sys_inv d w" and "v \<noteq> []" and "remote_checkVolumeExists (system_net d) r v w = (q, w')"
  shows "sys_inv d w' \<and> sys_db w' = sys_db w \<and> sys_open w' = sys_open w \<and> sys_store w' = sys_store w \<and>
    (q = Inr () \<longrightarrow> sys_store w v \<noteq> None) \<and> (sys_up d r w \<and> sys_store w v \<noteq> None \<longrightarrow> q = Inr ())"
proof -
  note call = check_system [OF assms(1,3), unfolded one_call_def route_services]
  show ?thesis
  proof (cases "route d r ''/oim.v0.Controller/'' (sys_db w)")
    case (Inl err)
    then show ?thesis using call assms(1) by (auto simp: sys_up_def sys_inv_next)
  next
    case (Inr u)
    have inv: "daemon_ok (dep_env d) (sys_spdk w)" "client_ok (sys_client w)" using assms(1) by (simp_all add: sys_inv_def)
    obtain cl where cl: "client_ok cl" "GetBDevs (spdk_daemon (dep_env d)) v (sys_client w, sys_spdk w) =
        ((case bdevs (sys_spdk w) v of None \<Rightarrow> Inl not_found | Some b \<Rightarrow> Inr [b]), cl, sys_spdk w)"
      using svc.GetBDevs_law [OF inv assms(2)] by blast
    show ?thesis
      using call Inr cl assms(1,2)
      by (cases "hasSPDK (dep_controller d)"; cases "bdevs (sys_spdk w) v")
        (auto simp: CheckMallocBDev_def sys_up_def sys_inv_def bdev_store_def)
  qed
qed

interpretation remote_be: volume_backend "remote_backend (system_net d) r" "\<lambda>w. sys_inv d w \<and> sys_open w = conns"
  "sys_up d r" sys_store for d r conns
proof unfold_locales
  fix w w' :: system and v :: string and n c :: int and p :: "int result" and q :: "unit result"
  assume io: "sys_inv d w \<and> sys_open w = conns" and v: "v \<noteq> []"
  then have inv: "sys_inv d w" by simp
  have create: "if n \<ge> maxStorageCapacity then isl p \<and> w' = w
      else \<exists>q. remote_provision (system_net d) r v (rounded n) w = (q, w') \<and> p = map_sum id (\<lambda>_. rounded n) q"
    if "0 \<le> n" "backend_createVolume (remote_backend (system_net d) r) v n w = (p, w')" for w w' p
    using that rounded_facts(1) [OF that(1)]
    by (auto simp: remote_backend_def remote_createVolume_def Let_def split: if_splits sum.splits prod.splits)
  show "(sys_inv d w' \<and> sys_open w' = conns) \<and> (sys_up d r w \<longrightarrow> sys_up d r w') \<and>
      (case p of Inl _ \<Rightarrow> sys_store w' = sys_store w | Inr c \<Rightarrow> store_step (sys_store w) (Created v n c) (sys_store w'))"
    if n: "0 \<le> n" and b: "backend_createVolume (remote_backend (system_net d) r) v n w = (p, w')"
  proof (cases "n \<ge> maxStorageCapacity")
    case True
    then show ?thesis using create [OF n b] io by (auto split: sum.splits)
  next
    case False
    then obtain q where q: "remote_provision (system_net d) r v (rounded n) w = (q, w')" "p = map_sum id (\<lambda>_. rounded n) q"
      using create [OF n b] by auto
    have nn: "n < maxStorageCapacity" using False by simp
    from provision_store [OF inv v _ q(1), of n] n nn q(2) rounded_facts(2,3) [OF n nn] io show ?thesis
      by (cases q) (auto simp: store_step_simps sys_up_def)
  qed
  show "\<exists>w''. backend_createVolume (remote_backend (system_net d) r) v n w' = (Inr c, w'')"
    if up: "sys_up d r w" and n: "0 \<le> n" and b: "backend_createVolume (remote_backend (system_net d) r) v n w = (Inr c, w')"
  proof -
    have nn: "n < maxStorageCapacity" using create [OF n b] by (auto split: if_splits)
    then obtain q where q: "remote_provision (system_net d) r v (rounded n) w = (q, w')" "Inr c = map_sum id (\<lambda>_. rounded n) q"
      using create [OF n b] by auto
    then have c: "c = rounded n" "q = Inr ()" by (cases q; simp)+
    have st: "sys_inv d w'" "sys_up d r w'" "sys_store w' v = Some (rounded n)"
      using provision_store [OF inv v _ q(1), of n] n nn c(2) up rounded_facts(3) [OF n nn] by (auto simp: sys_up_def)
    obtain q2 w2 where q2: "remote_provision (system_net d) r v (rounded n) w' = (q2, w2)" by fastforce
    then have "q2 = Inr ()" using provision_store [OF st(1) v _ q2, of n] n nn st(2,3) by simp
    then show ?thesis
      using q2 c(1) nn rounded_facts(1) [OF n nn] by (simp add: remote_backend_def remote_createVolume_def Let_def)
  qed
  show "(sys_inv d w' \<and> sys_open w' = conns) \<and> (sys_up d r w \<longrightarrow> sys_up d r w' \<and> q = Inr ()) \<and>
      (case q of Inl _ \<Rightarrow> sys_store w' = sys_store w | Inr _ \<Rightarrow> store_step (sys_store w) (Deleted v) (sys_store w'))"
    if "backend_deleteVolume (remote_backend (system_net d) r) v w = (q, w')"
    using provision_store [OF inv v, of 0 0 r q w'] that io
    by (cases q) (auto simp: remote_backend_def remote_deleteVolume_def store_step_simps sys_up_def)
  show "(sys_inv d w' \<and> sys_open w' = conns) \<and> (sys_up d r w \<longrightarrow> sys_up d r w') \<and> sys_store w' = sys_store w \<and>
      (q = Inr () \<longrightarrow> sys_store w v \<noteq> None) \<and> (sys_up d r w \<and> sys_store w v \<noteq> None \<longrightarrow> q = Inr ())"
    if "backend_checkVolumeExists (remote_backend (system_net d) r) v w = (q, w')"
    using check_store [OF inv v, of r q w'] that io by (simp add: remote_backend_def sys_up_def)
qed

section \<open>Properties\<close>

text \<open>
  C1. The CSI controller service over the whole deployment implements the store of volumes:
  whatever calls arrive one after the other, each of them returns, leaves no lock and no connection
  behind, and the replies together with the sizes of the BDevs of the remote daemon before and after
  are a run of the abstract store, whether or not registry and controller can be reached.
\<close>

theorem remote_controller_refines:
  assumes "sys_inv d w" and "locks_free km" and "list_all sized calls"
  shows "\<exists>events w'. csi_run (remote_backend (system_net d) r) calls (km, w) = Some (Ret (events, km, w'))
    \<and> sys_inv d w' \<and> sys_open w' = sys_open w \<and> store_run (sys_store w) events (sys_store w')"
  using remote_be.csi_run_refines [of d w "sys_open w", OF _ assms(2,3)] assms(1) by blast

text \<open>
  C2. \<^verbatim>\<open>CreateVolume\<close> is idempotent through all components: once it has succeeded on a deployment
  that can be reached, the daemon has a BDev of the reported size under the reported
  name, and a repetition of the call gives the same reply and changes no volume.
\<close>

theorem remote_CreateVolume_idempotent:
  assumes "sys_inv d w" and "sys_up d r w" and "locks_free km" and "0 \<le> RequiredBytes rq"
    and "CreateVolume (remote_backend (system_net d) r) rq (km, w) = Some (Ret (Inr vol, s))"
  shows "sys_store (snd s) (CsiVolumeId vol) = Some (CapacityBytes vol) \<and>
    (\<exists>w''. CreateVolume (remote_backend (system_net d) r) rq s = Some (Ret (Inr vol, km, w'')) \<and> sys_store w'' = sys_store (snd s))"
  using remote_be.CreateVolume_idempotent [of d w "sys_open w", OF _ assms(2-5)] assms(1) by blast

text \<open>A deployment with the daemon of \<open>Volume_Controller\<close> behind the controller of host \<^verbatim>\<open>h\<close>.\<close>

definition sample_deployment :: deployment where
  "sample_deployment = \<lparr>dep_registryAddress = ''tcp://r'', dep_registryCN = ''component.registry'', dep_registry = sample_registry,
     dep_keypair = (\<lambda>_ _. Inr ''host.h''), dep_file = (\<lambda>_. Inr ''ca''), dep_pem = (\<lambda>_. True),
     dep_address = ''tcp://x'', dep_controllerCN = ''controller.h'', dep_controller = sample_controller, dep_env = sample_env,
     dep_order = (\<lambda>_. []), dep_watch = Inr (), dep_rounds = (\<lambda>_. [])\<rparr>"

definition sample_remote :: remoteSPDK where
  "sample_remote = \<lparr>oimRegistryAddress = ''tcp://r'', registryCA = ''ca.crt'', registryKey = ''host.key'', oimControllerID = ''h'',
     mapVolumeParams = None\<rparr>"

definition sample_system :: system where
  "sample_system = \<lparr>sys_db = \<lparr>db = [''h/address'' \<mapsto> ''tcp://x'']\<rparr>, sys_client = New_client, sys_spdk = sample_spdk,
     sys_next = 0, sys_open = [], sys_dirs = [], sys_nodes = []\<rparr>"

lemma sample_sys_inv: "sys_inv sample_deployment sample_system"
  using sample_ok client_ok_New by (simp add: sys_inv_def sample_deployment_def sample_system_def)

lemma sample_driver_opts: "\<exists>cfg. driver_opts sample_deployment sample_remote = Inr [WithTransportCredentials cfg, WithUnaryInterceptor]
    \<and> PeerName cfg = ''component.registry'' \<and> Certificates cfg = [''host.h'']"
  by (simp add: driver_opts_def LoadTLS_def LoadTLSConfig_def sample_deployment_def sample_remote_def ChooseDialOpts_def
      strings_HasPrefix_def Let_def)

lemma sample_conn_context:
  assumes "PeerName cfg = ''component.registry''" and "Certificates cfg = [''host.h'']"
  shows "conn_context sample_deployment (oimRegistryAddress sample_remote) [WithTransportCredentials cfg, WithUnaryInterceptor]
    (driver_md sample_remote) = Inr sample_caller"
  using assms by (simp add: conn_context_def driver_md_def AppendToOutgoingContext_def sample_caller_def sample_deployment_def
      sample_remote_def VerifyPeerCertificate_def)

lemma sample_sys_up: "sys_up sample_deployment sample_remote sample_system"
proof -
  have "proxy_reaches sample_deployment sample_dial"
    by (simp add: proxy_reaches_def sample_dial_def sample_deployment_def)
  moreover have "dep_registry sample_deployment = sample_registry" "hasSPDK (dep_controller sample_deployment)"
    "sys_db sample_system = run_SetValues sample_requests NewMemRegistryDB"
    by (simp_all add: sample_deployment_def sample_controller_def sample_system_def sample_db)
  ultimately have "proxy_answer sample_deployment ''/oim.v0.Controller/MapVolume'' sample_caller (sys_db sample_system) = Inr ()"
    and spdk: "hasSPDK (dep_controller sample_deployment)"
    using sample_Connect by (simp_all add: proxy_answer_def)
  then have "route sample_deployment sample_remote ''/oim.v0.Controller/MapVolume'' (sys_db sample_system) = Inr ()"
    using sample_driver_opts sample_conn_context by (auto simp: route_def)
  then show ?thesis using spdk by (simp only: sys_up_def route_services simp_thms)
qed

text \<open>The controller creates the requested device, because the daemon has none of that name and enough memory.\<close>

lemma sample_created:
  "\<exists>s. CreateVolume (remote_backend (system_net sample_deployment) sample_remote) sample_create (volumeNameMutex 4, sample_system)
     = Some (Ret (Inr \<lparr>CsiVolumeId = ''v'', CapacityBytes = 1024\<rparr>, s))"
proof -
  obtain q w' where p: "remote_provision (system_net sample_deployment) sample_remote ''v'' 1024 sample_system = (q, w')" by fastforce
  have up: "route sample_deployment sample_remote ''/oim.v0.Controller/'' (sys_db sample_system) = Inr ()"
    "hasSPDK (dep_controller sample_deployment)"
    using sample_sys_up by (simp_all add: sys_up_def)
  have sz: "go_div 1024 512 = 2" by (simp add: go_div_def sdiv_pos wrap64_id is_int64_def)
  have sel: "dep_env sample_deployment = sample_env" "sys_client sample_system = New_client" "sys_spdk sample_system = sample_spdk"
    by (simp_all add: sample_deployment_def sample_system_def)
  have "''v'' \<noteq> []" by simp
  from svc.ProvisionMallocBDev_law [OF sample_ok client_ok_New this up(2), of 1024] sz
  obtain cl s where "ProvisionMallocBDev (spdk_daemon sample_env) (dep_controller sample_deployment) ''v'' 1024 (New_client, sample_spdk)
      = (Inr (), cl, s)"
    by (auto simp: sample_views sample_env_def)
  with provision_system [OF sample_sys_inv p, unfolded one_call_def route_services] up(1) sel have "q = Inr ()" by simp
  moreover have "create_guard sample_create = None" "CreateName sample_create = ''v''" "RequiredBytes sample_create = 1000"
    by (simp_all add: create_guard_def sample_create_def GetBlock_def GetMode_def)
  moreover have "(if (1000 :: int) = 0 then mib else wrap64 (go_div (wrap64 (1000 + 511)) 512 * 512)) = 1024"
    using rounded_facts(1) [of 1000] by (simp add: rounded_def maxStorageCapacity_def tib_def gib_def mib_def kib_def)
  moreover have "\<not> (1000 :: int) \<ge> maxStorageCapacity" by (simp add: maxStorageCapacity_def tib_def gib_def mib_def kib_def)
  ultimately show ?thesis
    using p by (simp add: CreateVolume_free [OF sample_locks] remote_backend_def remote_createVolume_def Let_def)
qed

theorem remote_CreateVolume_idempotent_witness:
  "\<exists>s w''. sys_store (snd s) ''v'' = Some 1024
    \<and> CreateVolume (remote_backend (system_net sample_deployment) sample_remote) sample_create s
        = Some (Ret (Inr \<lparr>CsiVolumeId = ''v'', CapacityBytes = 1024\<rparr>, volumeNameMutex 4, w''))
    \<and> sys_store w'' = sys_store (snd s)"
proof -
  obtain s where s: "CreateVolume (remote_backend (system_net sample_deployment) sample_remote) sample_create (volumeNameMutex 4, sample_system)
     = Some (Ret (Inr \<lparr>CsiVolumeId = ''v'', CapacityBytes = 1024\<rparr>, s))" using sample_created by blast
  have "0 \<le> RequiredBytes sample_create" by (simp add: sample_create_def)
  from remote_CreateVolume_idempotent [OF sample_sys_inv sample_sys_up sample_locks this s] show ?thesis
    by (intro exI [of _ s]) simp
qed

theorem remote_controller_refines_witness:
  "\<exists>events w'. csi_run (remote_backend (system_net sample_deployment) sample_remote) sample_calls (volumeNameMutex 4, sample_system)
      = Some (Ret (events, volumeNameMutex 4, w')) \<and> store_run (sys_store sample_system) events (sys_store w')"
  using remote_controller_refines [OF sample_sys_inv sample_locks sample_calls_sized] by blast

text \<open>
  \<^verbatim>\<open>deleteDevice\<close> leaves the connection that it has made open, whatever the result of the call;
  the other operations of the backend close theirs.
\<close>

theorem remote_deleteDevice_leaks:
  assumes "driver_opts d r = Inr opts"
  shows "sys_open (snd (remote_deleteDevice (system_net d) r v w)) = (sys_next w, oimRegistryAddress r, opts) # sys_open w"
proof -
  obtain q w1 where c: "controller_call d ''/oim.v0.Controller/UnmapVolume''
      (\<lambda>c. UnmapVolume (spdk_daemon (dep_env d)) c v) (sys_next w) (driver_md r) (opened r opts w) = (q, w1)" by fastforce
  then have "sys_open w1 = sys_open (opened r opts w)"
    by (auto simp: controller_call_opened split: sum.splits prod.splits)
  moreover have unmap: "rpc_UnmapVolume (system_net d) = (\<lambda>conn md n. controller_call d ''/oim.v0.Controller/UnmapVolume''
      (\<lambda>c. UnmapVolume (spdk_daemon (dep_env d)) c n) conn md)" by (simp add: system_net_def)
  moreover have "snd (remote_deleteDevice (system_net d) r v w) = w1"
    using assms c unmap by (cases q) (simp_all add: remote_deleteDevice_def dialRegistry_system driver_md_def Let_def)
  ultimately show ?thesis by (simp add: opened_def)
qed

end
