(* ===== verification/Controller_Setup.thy ===== *)
theory Controller_Setup
  imports Oim_System
begin

text \<open>
  Construction of the OIM controller and its registration with the OIM registry
  (\<^verbatim>\<open>pkg/oim-controller/controller.go\<close>: the options, \<^verbatim>\<open>New\<close>, \<^verbatim>\<open>Start\<close>, \<^verbatim>\<open>register\<close>, \<^verbatim>\<open>Close\<close> and
  \<^verbatim>\<open>Server\<close>). \<^verbatim>\<open>Start\<close> runs a loop and calls \<^verbatim>\<open>register\<close> in goroutines of their own, so their
  interleavings are a step relation. Time is abstracted: a timer that is armed may fire at any moment.
\<close>

section \<open>Definitions\<close>

text \<open>
  The fields that the handlers do not use extend the record of \<open>Volume_Controller\<close>. The
  delay is in nanoseconds.
\<close>

record Controller_state = OIMController +
  creds :: "tls_config option"
  registryAddress :: string
  registryDelay :: int
  controllerID :: string
  controllerAddr :: string
  spdkPath :: string

datatype controller_option =
    WithRegistry string
  | WithRegistryDelay int
  | WithCreds "tls_config option"
  | WithControllerAddress string
  | WithControllerID string
  | WithSPDK string
  | WithVHostController string
  | WithVHostDev string

fun apply_controller_option :: "controller_option \<Rightarrow> Controller_state \<Rightarrow> Controller_state result outcome" where
  "apply_controller_option (WithRegistry address) c = Ret (Inr (c\<lparr>registryAddress := address\<rparr>))"
| "apply_controller_option (WithRegistryDelay delay) c = Ret (Inr (c\<lparr>registryDelay := delay\<rparr>))"
| "apply_controller_option (WithCreds cr) c = Ret (Inr (c\<lparr>creds := cr\<rparr>))"
| "apply_controller_option (WithControllerAddress address) c = Ret (Inr (c\<lparr>controllerAddr := address\<rparr>))"
| "apply_controller_option (WithControllerID i) c = Ret (Inr (c\<lparr>controllerID := i\<rparr>))"
| "apply_controller_option (WithSPDK path) c = Ret (Inr (c\<lparr>spdkPath := path\<rparr>))"
| "apply_controller_option (WithVHostController vhost) c = Ret (Inr (c\<lparr>vhostSCSI := vhost\<rparr>))"
| "apply_controller_option (WithVHostDev dev) c =
     outcome_bind (ParseBDFString dev) (\<lambda>r. case r of
       Inl err \<Rightarrow> Ret (Inl err)
     | Inr d \<Rightarrow> Ret (Inr (c\<lparr>vhostDev := Some d\<rparr>)))"

fun apply_controller_options :: "controller_option list \<Rightarrow> Controller_state \<Rightarrow> Controller_state result outcome" where
  "apply_controller_options [] c = Ret (Inr c)"
| "apply_controller_options (op # options) c =
     outcome_bind (apply_controller_option op c) (\<lambda>r. case r of
       Inl err \<Rightarrow> Ret (Inl err)
     | Inr c \<Rightarrow> apply_controller_options options c)"

definition default_controller :: Controller_state where
  "default_controller = \<lparr>hasSPDK = False, vhostSCSI = [], vhostDev = None, creds = None, registryAddress = [],
     registryDelay = 60000000000, controllerID = ''unset-controller-id'', controllerAddr = [], spdkPath = []\<rparr>"

text \<open>The controller together with its SPDK client, which the handlers thread through their calls.\<close>

definition New_controller ::
  "('s, 'f) local_env \<Rightarrow> 's \<Rightarrow> controller_option list \<Rightarrow> (Controller_state \<times> Client option) result outcome" where
  "New_controller env s options =
     outcome_bind (apply_controller_options options default_controller) (\<lambda>r. Ret (case r of
       Inl err \<Rightarrow> Inl err
     | Inr c \<Rightarrow>
         (case (if spdkPath c \<noteq> []
                then (case spdk_New env (spdkPath c) s of
                        Inl err \<Rightarrow> Inl err
                      | Inr client \<Rightarrow> Inr (c\<lparr>hasSPDK := True\<rparr>, Some client))
                else Inr (c, None)) of
            Inl err \<Rightarrow> Inl err
          | Inr (c, client) \<Rightarrow>
              if registryAddress c \<noteq> [] \<and> (controllerID c = [] \<or> controllerAddr c = [])
              then Inl (ErrText ''need both controller ID and external controller address for registering  with the OIM registry'')
              else if creds c = None then Inl (ErrText ''transport credentials missing'')
              else Inr (c, client))))"

definition Controller_Server :: "Controller_state \<Rightarrow> string \<Rightarrow> NonBlockingGRPCServer \<times> server_option list \<times> string list" where
  "Controller_Server c endpoint =
     (\<lparr>Endpoint = endpoint, serving = 0, server = None, stopped = False, addr = None\<rparr>,
      (case creds c of None \<Rightarrow> [] | Some t \<Rightarrow> [Creds t]), [''oim.v0.Controller''])"

text \<open>
  What \<^verbatim>\<open>register\<close> needs of gRPC. When dialling fails, the code goes on with a \<^verbatim>\<open>nil\<close> connection, and the
  call over it dereferences the \<^verbatim>\<open>nil\<close> pointer. The reply of the call is ignored.
\<close>

record 'w reg_net =
  reg_Dial :: "string \<Rightarrow> dial_option list \<Rightarrow> 'w \<Rightarrow> nat result \<times> 'w"
  reg_Close :: "nat \<Rightarrow> 'w \<Rightarrow> 'w"
  rpc_SetValue :: "nat \<Rightarrow> Value option \<Rightarrow> 'w \<Rightarrow> unit result \<times> 'w"

definition register :: "'w reg_net \<Rightarrow> Controller_state \<Rightarrow> 'w \<Rightarrow> 'w outcome" where
  "register net c w =
     (let opts = ChooseDialOpts (registryAddress c)
            (case creds c of None \<Rightarrow> [] | Some t \<Rightarrow> [WithTransportCredentials t])
      in case reg_Dial net (registryAddress c) opts w of
           (Inl err, w) \<Rightarrow> Panic
         | (Inr conn, w) \<Rightarrow>
             (case rpc_SetValue net conn
                     (Some \<lparr>Path = controllerID c @ ''/'' @ RegistryAddress, ValueOf = controllerAddr c\<rparr>) w of
                (_, w) \<Rightarrow> Ret (reg_Close net conn w)))"

text \<open>
  The goroutines of a controller: the loop of \<^verbatim>\<open>Start\<close> (\<open>looping\<close>, with its timer \<open>again\<close> that is armed
  or not), the calls of \<^verbatim>\<open>register\<close> (inside the call, or waiting to send on \<^verbatim>\<open>done\<close>), and the one that
  calls \<^verbatim>\<open>Close\<close>. The channel \<^verbatim>\<open>stop\<close> is closed when \<open>closer\<close> is past \<open>NotClosed\<close>.
\<close>

datatype caller = Calling | Sending

datatype close_phase = NotClosed | Waiting | Closed

record 'w registration =
  stop_made :: bool
  looping :: bool
  armed :: bool
  callers :: "caller list"
  closer :: close_phase
  spdk_closed :: bool
  crashed :: bool
  outside :: 'w

definition unstarted :: "'w \<Rightarrow> 'w registration" where
  "unstarted w = \<lparr>stop_made = False, looping = False, armed = False, callers = [], closer = NotClosed,
     spdk_closed = False, crashed = False, outside = w\<rparr>"

definition Controller_Start :: "Controller_state \<Rightarrow> 'w registration \<Rightarrow> unit result \<times> 'w registration" where
  "Controller_Start c st =
     (if registryAddress c = [] then (Inr (), st)
      else (Inr (), st\<lparr>stop_made := True, looping := True, armed := True\<rparr>))"

text \<open>The select statement of the loop, one rule for each case, and the goroutine of a call.\<close>

inductive loop_step :: "'w reg_net \<Rightarrow> Controller_state \<Rightarrow> 'w registration \<Rightarrow> 'w registration \<Rightarrow> bool"
  for net :: "'w reg_net" and c :: Controller_state where
  stop: "\<not> crashed st \<Longrightarrow> looping st \<Longrightarrow> closer st \<noteq> NotClosed \<Longrightarrow> loop_step net c st (st\<lparr>looping := False\<rparr>)"
| received: "\<not> crashed st \<Longrightarrow> looping st \<Longrightarrow> callers st = xs @ Sending # ys \<Longrightarrow>
    loop_step net c st (st\<lparr>callers := xs @ ys, armed := True\<rparr>)"
| again: "\<not> crashed st \<Longrightarrow> looping st \<Longrightarrow> armed st \<Longrightarrow>
    loop_step net c st (st\<lparr>armed := False, callers := callers st @ [Calling]\<rparr>)"
| registered: "\<not> crashed st \<Longrightarrow> callers st = xs @ Calling # ys \<Longrightarrow> register net c (outside st) = Ret w \<Longrightarrow>
    loop_step net c st (st\<lparr>callers := xs @ Sending # ys, outside := w\<rparr>)"
| panicked: "\<not> crashed st \<Longrightarrow> callers st = xs @ Calling # ys \<Longrightarrow> register net c (outside st) = Panic \<Longrightarrow>
    loop_step net c st (st\<lparr>crashed := True\<rparr>)"

text \<open>\<^verbatim>\<open>Close\<close> closes the channel and waits for the loop, if there is one, and then closes the SPDK client.\<close>

definition Close_end :: "Controller_state \<Rightarrow> 'w registration \<Rightarrow> 'w registration" where
  "Close_end c st = st\<lparr>closer := Closed, spdk_closed := hasSPDK c\<rparr>"

definition Close_begin :: "Controller_state \<Rightarrow> 'w registration \<Rightarrow> 'w registration" where
  "Close_begin c st = (if stop_made st then st\<lparr>closer := Waiting\<rparr> else Close_end c st)"

inductive reg_step ::
  "('w \<Rightarrow> 'w \<Rightarrow> bool) \<Rightarrow> 'w reg_net \<Rightarrow> Controller_state \<Rightarrow> 'w registration \<Rightarrow> 'w registration \<Rightarrow> bool"
  for env :: "'w \<Rightarrow> 'w \<Rightarrow> bool" and net :: "'w reg_net" and c :: Controller_state where
  own: "loop_step net c st st' \<Longrightarrow> reg_step env net c st st'"
| others: "env (outside st) w \<Longrightarrow> reg_step env net c st (st\<lparr>outside := w\<rparr>)"
| close: "\<not> crashed st \<Longrightarrow> closer st = NotClosed \<Longrightarrow> reg_step env net c st (Close_begin c st)"
| closed: "\<not> crashed st \<Longrightarrow> closer st = Waiting \<Longrightarrow> \<not> looping st \<Longrightarrow> reg_step env net c st (Close_end c st)"

text \<open>The deployment of \<open>Oim_System\<close> as the outside of the controller.\<close>

definition system_SetValue :: "deployment \<Rightarrow> nat \<Rightarrow> Value option \<Rightarrow> system \<Rightarrow> unit result \<times> system" where
  "system_SetValue d conn v w =
     (case map_of (sys_open w) conn of
        None \<Rightarrow> (Inl unreachable, w)
      | Some (address, opts) \<Rightarrow>
          (case conn_context d address opts Map.empty of
             Inl err \<Rightarrow> (Inl err, w)
           | Inr ctx \<Rightarrow>
               (case SetValue reg_db ctx v (sys_db w) of
                  (r, dbase) \<Rightarrow> (map_sum grpc_wire id r, w\<lparr>sys_db := dbase\<rparr>))))"

definition system_registration :: "deployment \<Rightarrow> system reg_net" where
  "system_registration d = \<lparr>reg_Dial = system_Dial, reg_Close = system_Close, rpc_SetValue = system_SetValue d\<rparr>"

section \<open>Lemmas\<close>

inductive_cases loop_stepE: "loop_step net c st st'"
inductive_cases reg_stepE: "reg_step env net c st st'"

text \<open>
  The invariant of the goroutines: there is at most one call, and the timer is armed exactly
  when there is none, so that registration never stops by itself.
\<close>

definition reg_inv :: "'w registration \<Rightarrow> bool" where
  "reg_inv st \<longleftrightarrow> length (callers st) \<le> 1
     \<and> (if stop_made st then armed st = (callers st = []) else \<not> looping st \<and> callers st = [])
     \<and> (stop_made st \<longrightarrow> (closer st = NotClosed \<longrightarrow> looping st) \<and> (closer st = Closed \<longrightarrow> \<not> looping st))"

lemma loop_step_inv: "loop_step net c st st' \<Longrightarrow> reg_inv st \<Longrightarrow> reg_inv st'"
  by (erule loop_stepE) (auto simp: reg_inv_def split: if_splits)

lemma reg_step_inv: "reg_step env net c st st' \<Longrightarrow> reg_inv st \<Longrightarrow> reg_inv st'"
  by (erule reg_stepE) (auto simp: loop_step_inv, auto simp: reg_inv_def Close_begin_def Close_end_def split: if_splits)

abbreviation reg_reachable ::
  "('w \<Rightarrow> 'w \<Rightarrow> bool) \<Rightarrow> 'w reg_net \<Rightarrow> Controller_state \<Rightarrow> 'w \<Rightarrow> 'w registration \<Rightarrow> bool" where
  "reg_reachable env net c w \<equiv> (reg_step env net c)\<^sup>*\<^sup>* (snd (Controller_Start c (unstarted w)))"

lemma reachable_inv:
  assumes "reg_reachable env net c w st"
  shows "reg_inv st"
  using assms
proof (induction rule: rtranclp_induct)
  case base
  then show ?case by (simp add: reg_inv_def Controller_Start_def unstarted_def)
next
  case (step st st')
  then show ?case using reg_step_inv by blast
qed

text \<open>A controller with a registry makes its channel at the start and keeps it.\<close>

lemma loop_step_frame: "loop_step net c st st' \<Longrightarrow> stop_made st' = stop_made st \<and> closer st' = closer st"
  by (erule loop_stepE) auto

lemma reachable_stop_made:
  assumes "reg_reachable env net c w st" and "registryAddress c \<noteq> []"
  shows "stop_made st"
  using assms(1)
proof (induction rule: rtranclp_induct)
  case base
  then show ?case using assms(2) by (simp add: Controller_Start_def)
next
  case (step st st')
  from step(2) show ?case
    using step(3) by (cases rule: reg_step.cases) (auto simp: loop_step_frame Close_begin_def Close_end_def)
qed

text \<open>If \<^verbatim>\<open>register\<close> never panics, then the process never crashes.\<close>

lemma reachable_not_crashed:
  assumes "reg_reachable env net c w st" and "\<And>w. register net c w \<noteq> Panic"
  shows "\<not> crashed st"
  using assms(1)
proof (induction rule: rtranclp_induct)
  case base
  then show ?case by (simp add: Controller_Start_def unstarted_def)
next
  case (step st st')
  have "loop_step net c st st' \<Longrightarrow> \<not> crashed st'" by (erule loop_stepE) (use assms(2) step(3) in auto)
  with step(2,3) show ?case
    by (cases rule: reg_step.cases) (auto simp: Close_begin_def Close_end_def)
qed

text \<open>From every state of a running controller the loop can complete a call of \<^verbatim>\<open>register\<close>.\<close>

lemma again_registers:
  assumes "\<not> crashed st" and "looping st" and "armed st" and "callers st = []" and "register net c (outside st) = Ret w"
  shows "\<exists>st'. (loop_step net c)\<^sup>*\<^sup>* st st' \<and> outside st' = w"
proof -
  let ?s1 = "st\<lparr>armed := False, callers := callers st @ [Calling]\<rparr>"
  have 1: "loop_step net c st ?s1" using assms by (intro loop_step.again) auto
  have "callers ?s1 = [] @ Calling # []" using assms(4) by simp
  then have 2: "loop_step net c ?s1 (?s1\<lparr>callers := [] @ Sending # [], outside := w\<rparr>)"
    using assms(1,5) by (intro loop_step.registered) auto
  show ?thesis
    by (rule exI [of _ "?s1\<lparr>callers := [] @ Sending # [], outside := w\<rparr>"], rule conjI,
        rule converse_rtranclp_into_rtranclp [where r = "loop_step net c", OF 1 r_into_rtranclp [where r = "loop_step net c", OF 2]]) simp
qed

lemma loop_registers:
  assumes "reg_inv st" and "\<not> crashed st" and "looping st" and "register net c (outside st) = Ret w"
  shows "\<exists>st'. (loop_step net c)\<^sup>*\<^sup>* st st' \<and> outside st' = w"
proof -
  have made: "stop_made st" using assms(1,3) by (auto simp: reg_inv_def split: if_splits)
  have armed: "armed st" if "callers st = []" using assms(1) made that by (simp add: reg_inv_def)
  consider "callers st = []" | "callers st = [] @ Calling # []" | "callers st = [] @ Sending # []"
  proof (cases "callers st")
    case (Cons x xs)
    then have "callers st = [x]" using assms(1) by (simp add: reg_inv_def)
    then show ?thesis using that(2,3) by (cases x) simp_all
  qed
  then show ?thesis
  proof cases
    case 1
    then show ?thesis using again_registers [OF assms(2,3) armed _ assms(4)] by simp
  next
    case 2
    then have "loop_step net c st (st\<lparr>callers := [] @ Sending # [], outside := w\<rparr>)"
      using assms(2,4) by (intro loop_step.registered)
    then show ?thesis by (intro exI [of _ "st\<lparr>callers := [] @ Sending # [], outside := w\<rparr>"] conjI r_into_rtranclp) simp_all
  next
    case 3
    let ?s1 = "st\<lparr>callers := [] @ [], armed := True\<rparr>"
    have s1: "loop_step net c st ?s1" using assms(2,3) 3 by (intro loop_step.received)
    obtain st' where st': "(loop_step net c)\<^sup>*\<^sup>* ?s1 st'" "outside st' = w"
      using again_registers [of ?s1 net c w] assms(2-4) by (auto simp del: rtranclp.rtrancl_refl)
    then show ?thesis by (intro exI [of _ st'] conjI converse_rtranclp_into_rtranclp [where r = "loop_step net c", OF s1])
  qed
qed

text \<open>
  A configuration that belongs together: the controller and the driver know the registry, the
  certificates carry the names of controller and host, and the deployment's controller is this one.
\<close>

definition registration_config :: "deployment \<Rightarrow> remoteSPDK \<Rightarrow> Controller_state \<Rightarrow> bool" where
  "registration_config d r c \<longleftrightarrow>
     registryAddress c \<noteq> [] \<and> registryAddress c = dep_registryAddress d
     \<and> (case creds c of None \<Rightarrow> False | Some cfg \<Rightarrow>
          VerifyPeerCertificate (PeerName cfg) [[dep_registryCN d]] = Inr () \<and> Certificates cfg = [''controller.'' @ controllerID c])
     \<and> path_element (controllerID c) \<and> controllerAddr c \<noteq> [] \<and> controllerAddr c = dep_address d
     \<and> dep_controllerCN d = ''controller.'' @ controllerID c \<and> dep_controller d = OIMController.truncate c \<and> hasSPDK c
     \<and> oimControllerID r = controllerID c \<and> oimRegistryAddress r = dep_registryAddress d
     \<and> (case driver_opts d r of Inl _ \<Rightarrow> False | Inr opts \<Rightarrow> (case tls_of opts of None \<Rightarrow> False | Some cfg \<Rightarrow>
          VerifyPeerCertificate (PeerName cfg) [[dep_registryCN d]] = Inr () \<and> Certificates cfg = [''host.'' @ controllerID c]))"

lemma register_system: "register (system_registration d) c w \<noteq> Panic"
  by (simp add: register_def system_registration_def system_Dial_def Let_def split: prod.split)

lemma tls_of_ChooseDialOpts: "tls_of (ChooseDialOpts a [WithTransportCredentials cfg]) = Some cfg"
  by (simp add: ChooseDialOpts_def)

text \<open>A call of \<^verbatim>\<open>register\<close> stores the address of the controller in the registry, whatever was there before.\<close>

lemma SetValue_own_address:
  assumes "path_element i" and "a \<noteq> []"
  shows "SetValue reg_db \<lparr>ctx_peer = Some (TLSInfo [[''controller.'' @ i]]), ctx_metadata = md\<rparr>
    (Some \<lparr>Path = i @ ''/'' @ RegistryAddress, ValueOf = a\<rparr>) dbase =
    (Inr (), dbase\<lparr>db := (db dbase)(i @ ''/'' @ RegistryAddress \<mapsto> a)\<rparr>)"
proof -
  have "list_all path_element [i, RegistryAddress]" using assms(1) by (simp add: path_element_def RegistryAddress_def)
  from Split_of_Join [OF this] have split: "SplitRegistryPath (i @ ''/'' @ RegistryAddress) = Inr [i, RegistryAddress]"
    unfolding Join_pair .
  show ?thesis
    using assms(2) by (simp add: SetValue_def split [unfolded append.simps] Join_pair getPeer_def SetValue_allowed_def mem_db_def mem_Store_def)
qed

lemma register_stores:
  assumes "registration_config d r c" and "register (system_registration d) c w = Ret w'"
  shows "sys_db w' = (sys_db w)\<lparr>db := (db (sys_db w))(controllerID c @ ''/'' @ RegistryAddress \<mapsto> controllerAddr c)\<rparr>"
proof -
  obtain cfg where cfg: "creds c = Some cfg" "VerifyPeerCertificate (PeerName cfg) [[dep_registryCN d]] = Inr ()"
    "Certificates cfg = [''controller.'' @ controllerID c]"
    using assms(1) by (auto simp: registration_config_def split: option.splits)
  have ok: "registryAddress c = dep_registryAddress d" "path_element (controllerID c)" "controllerAddr c \<noteq> []"
    using assms(1) unfolding registration_config_def by blast+
  have ctx: "conn_context d (registryAddress c) (ChooseDialOpts (registryAddress c) [WithTransportCredentials cfg]) md =
      Inr \<lparr>ctx_peer = Some (TLSInfo [[''controller.'' @ controllerID c]]), ctx_metadata = Some md\<rparr>" for md
    using cfg ok(1) by (simp add: conn_context_def tls_of_ChooseDialOpts)
  show ?thesis
    using assms(2) cfg(1) SetValue_own_address [OF ok(2,3)]
    by (auto simp: register_def system_registration_def system_Dial_def system_SetValue_def system_Close_def ctx Let_def)
qed

text \<open>With this entry the driver reaches the controller through the proxy.\<close>

lemma registered_sys_up:
  assumes "registration_config d r c" and "db (sys_db w) (controllerID c @ ''/'' @ RegistryAddress) = Some (controllerAddr c)"
  shows "sys_up d r w"
proof -
  obtain opts cfg where opts: "driver_opts d r = Inr opts" "tls_of opts = Some cfg"
    "VerifyPeerCertificate (PeerName cfg) [[dep_registryCN d]] = Inr ()" "Certificates cfg = [''host.'' @ controllerID c]"
    using assms(1) by (auto simp: registration_config_def split: option.splits sum.splits)
  have ok: "controllerAddr c \<noteq> []" "controllerAddr c = dep_address d" "dep_controllerCN d = ''controller.'' @ controllerID c"
    "hasSPDK (dep_controller d)" "oimControllerID r = controllerID c" "oimRegistryAddress r = dep_registryAddress d"
    using assms(1) unfolding registration_config_def by (blast, blast, blast, simp add: OIMController.defs, blast, blast)
  let ?ctx = "\<lparr>ctx_peer = Some (TLSInfo [[''host.'' @ controllerID c]]), ctx_metadata = Some (driver_md r)\<rparr>"
  have ctx: "conn_context d (oimRegistryAddress r) opts (driver_md r) = Inr ?ctx"
    using opts ok(6) by (simp add: conn_context_def)
  have "\<exists>q. Connect reg_db (dep_registry d) ?ctx ''/oim.v0.Controller/'' (sys_db w) = Inr q \<and> proxy_reaches d q"
    using assms(2) ok(1-3,5)
    by (simp add: Connect_def getPeer_def driver_md_def AppendToOutgoingContext_def strings_HasPrefix_def mem_db_def mem_Lookup_def
        proxy_reaches_def ChooseDialOpts_def Let_def)
  then have "proxy_answer d ''/oim.v0.Controller/'' ?ctx (sys_db w) = Inr ()" by (auto simp: proxy_answer_def)
  then show ?thesis using opts(1) ctx ok(4) by (simp add: sys_up_def route_def)
qed

text \<open>\<^verbatim>\<open>New\<close> never panics, and what it accepts can be started and served.\<close>

lemma apply_controller_options_total:
  "\<exists>r. apply_controller_options options c = Ret r \<and> (\<forall>c'. r = Inr c' \<longrightarrow> hasSPDK c' = hasSPDK c)"
proof (induction options arbitrary: c)
  case (Cons op options)
  have "\<exists>r. apply_controller_option op c = Ret r \<and> (\<forall>c'. r = Inr c' \<longrightarrow> hasSPDK c' = hasSPDK c)"
  proof (cases op)
    case (WithVHostDev dev)
    obtain r where "ParseBDFString dev = Ret r" using ParseBDFString_text ParseBDFString_no_text by metis
    then show ?thesis using WithVHostDev by (cases r) simp_all
  qed simp_all
  then obtain r where r: "apply_controller_option op c = Ret r" "\<forall>c'. r = Inr c' \<longrightarrow> hasSPDK c' = hasSPDK c" by blast
  show ?case
  proof (cases r)
    case (Inr b)
    then show ?thesis using r Cons [of b] by simp
  qed (use r in simp)
qed simp

theorem New_controller_spec:
  "\<exists>r. New_controller env s options = Ret r \<and> (\<forall>c client. r = Inr (c, client) \<longrightarrow>
     creds c \<noteq> None \<and> (hasSPDK c \<longleftrightarrow> client \<noteq> None) \<and> (hasSPDK c \<longleftrightarrow> spdkPath c \<noteq> [])
     \<and> (registryAddress c \<noteq> [] \<longrightarrow> controllerID c \<noteq> [] \<and> controllerAddr c \<noteq> []))"
proof -
  obtain r where "apply_controller_options options default_controller = Ret r" "\<forall>c'. r = Inr c' \<longrightarrow> \<not> hasSPDK c'"
    using apply_controller_options_total [of options default_controller] by (auto simp: default_controller_def)
  then show ?thesis by (auto simp: New_controller_def split: sum.splits if_splits)
qed

text \<open>\<^verbatim>\<open>Close\<close> returns: it waits only for the loop, and the loop sees the closed channel.\<close>

theorem Close_returns:
  assumes "\<not> crashed st" and "closer st = Waiting"
  shows "\<exists>st'. (reg_step env net c)\<^sup>*\<^sup>* st st' \<and> closer st' = Closed \<and> spdk_closed st' = hasSPDK c"
proof -
  let ?s1 = "st\<lparr>looping := False\<rparr>"
  have "(reg_step env net c)\<^sup>*\<^sup>* st ?s1"
  proof (cases "looping st")
    case True
    then have "loop_step net c st ?s1" using assms by (intro loop_step.stop) simp_all
    then show ?thesis by (intro r_into_rtranclp reg_step.own)
  next
    case False
    then have "?s1 = st" by simp
    then show ?thesis by simp
  qed
  moreover have "reg_step env net c ?s1 (Close_end c ?s1)" using assms by (intro reg_step.closed) simp_all
  ultimately have "(reg_step env net c)\<^sup>*\<^sup>* st (Close_end c ?s1)" by (rule rtranclp.rtrancl_into_rtrancl)
  then show ?thesis by (intro exI [of _ "Close_end c ?s1"] conjI) (simp_all add: Close_end_def)
qed

text \<open>
  A call that is in progress when the loop ends can never send on the channel \<^verbatim>\<open>done\<close>, because
  nobody receives: its goroutine stays forever.
\<close>

theorem registration_leaks:
  assumes "\<not> looping st" and "callers st = [Sending]"
  shows "(reg_step env net c)\<^sup>*\<^sup>* st st' \<Longrightarrow> callers st' = [Sending] \<and> \<not> looping st'"
proof (induction rule: rtranclp_induct)
  case (step y z)
  have "loop_step net c y z \<Longrightarrow> callers z = [Sending] \<and> \<not> looping z"
    by (erule loop_stepE) (use step(3) in \<open>auto simp: Cons_eq_append_conv\<close>)
  with step(2,3) show ?case
    by (cases rule: reg_step.cases) (auto simp: Close_begin_def Close_end_def)
qed (use assms in simp)

section \<open>Properties\<close>


text \<open>The controller of the witness registers at the sample deployment, whose registry has just lost its database.\<close>

definition sample_started :: Controller_state where
  "sample_started = OIMController.extend sample_controller
     \<lparr>creds = Some \<lparr>ServerName = [], PeerName = ''component.registry'', Certificates = [''controller.h''], RootCAs = ''ca'',
        ClientCAs = ''ca'', RequireAndVerifyClientCert = True\<rparr>,
      registryAddress = ''tcp://r'', registryDelay = 1, controllerID = ''h'', controllerAddr = ''tcp://x'', spdkPath = ''/s''\<rparr>"

definition restarted :: "system \<Rightarrow> system \<Rightarrow> bool" where
  "restarted w w' \<longleftrightarrow> w' = w\<lparr>sys_db := NewMemRegistryDB\<rparr>"

lemma sample_config: "registration_config sample_deployment sample_remote sample_started"
  using sample_driver_opts
  by (auto simp: registration_config_def sample_started_def OIMController.defs sample_controller_def path_element_def
      sample_deployment_def sample_remote_def VerifyPeerCertificate_def)


end
