(* ===== verification/Mount_Os.thy ===== *)
theory Mount_Os
  imports Go_Errors Go_Path
begin

text \<open>
  What the mount package asks of the operating system: file status, directories, file descriptors,
  the system calls for mounts and the programs it runs. Each call is a field of the record \<open>os\<close>;
  \<open>'w\<close> is the state of the system. Reading a file may find the system changed, so it returns a
  state too.
\<close>

section \<open>File modes\<close>

text \<open>\<^verbatim>\<open>os.FileMode\<close>: permission bits and the type bits of package \<^verbatim>\<open>os\<close>.\<close>

unbundle bit_operations_syntax

definition ModeDir :: "32 word" where "ModeDir = push_bit 31 1"
definition ModeSymlink :: "32 word" where "ModeSymlink = push_bit 27 1"
definition ModeDevice :: "32 word" where "ModeDevice = push_bit 26 1"
definition ModeNamedPipe :: "32 word" where "ModeNamedPipe = push_bit 25 1"
definition ModeSocket :: "32 word" where "ModeSocket = push_bit 24 1"
definition ModeSetuid :: "32 word" where "ModeSetuid = push_bit 23 1"
definition ModeSetgid :: "32 word" where "ModeSetgid = push_bit 22 1"
definition ModeCharDevice :: "32 word" where "ModeCharDevice = push_bit 21 1"
definition ModeSticky :: "32 word" where "ModeSticky = push_bit 20 1"
definition ModeIrregular :: "32 word" where "ModeIrregular = push_bit 19 1"
definition ModePerm :: "32 word" where "ModePerm = 0x1FF"

definition ModeType :: "32 word" where
  "ModeType = ModeDir OR ModeSymlink OR ModeNamedPipe OR ModeSocket OR ModeDevice OR ModeIrregular"

definition mode_IsDir :: "32 word \<Rightarrow> bool" where
  "mode_IsDir m \<longleftrightarrow> m AND ModeDir \<noteq> 0"

definition mode_IsRegular :: "32 word \<Rightarrow> bool" where
  "mode_IsRegular m \<longleftrightarrow> m AND ModeType = 0"

record file_info =
  fi_Mode :: "32 word"
  fi_Dev :: nat
  fi_Gid :: "32 word"

record dir_entry =
  entry_Name :: string
  entry_IsDir :: bool

section \<open>Programs\<close>

text \<open>How running a program fails: its exit status, no such program, or another error.\<close>

datatype exec_err = ExitStatus nat | ErrExecutableNotFound | ExecErr string

fun exec_text :: "exec_err \<Rightarrow> string" where
  "exec_text (ExitStatus n) = ''exit status '' @ print_base 10 n"
| "exec_text ErrExecutableNotFound = ''executable file not found in $PATH''"
| "exec_text (ExecErr t) = t"

text \<open>The output of a program and the error, if it failed.\<close>

type_synonym exec_result = "string \<times> exec_err option"

section \<open>The system\<close>

type_synonym fd = int

datatype open_flag = O_RDONLY | O_NOFOLLOW | O_PATH | O_EXCL

datatype mount_flag = MS_BIND | MS_SHARED | MS_REC

record 'w os =
  os_Stat :: "string \<Rightarrow> 'w \<Rightarrow> file_info result"
  os_Lstat :: "string \<Rightarrow> 'w \<Rightarrow> file_info result"
  os_EvalSymlinks :: "string \<Rightarrow> 'w \<Rightarrow> string result"
  os_ReadFile :: "string \<Rightarrow> 'w \<Rightarrow> string result \<times> 'w"
  os_ReadDir :: "string \<Rightarrow> 'w \<Rightarrow> dir_entry list result"
  os_MkdirAll :: "string \<Rightarrow> 32 word \<Rightarrow> 'w \<Rightarrow> unit result \<times> 'w"
  os_Mkdir :: "string \<Rightarrow> 32 word \<Rightarrow> 'w \<Rightarrow> unit result \<times> 'w"
  os_Remove :: "string \<Rightarrow> 'w \<Rightarrow> unit result \<times> 'w"
  os_WriteFile :: "string \<Rightarrow> string \<Rightarrow> 32 word \<Rightarrow> 'w \<Rightarrow> unit result \<times> 'w"
  os_Create :: "string \<Rightarrow> 32 word \<Rightarrow> 'w \<Rightarrow> unit result \<times> 'w"
  os_Getpid :: "'w \<Rightarrow> int"
  sys_Open :: "string \<Rightarrow> open_flag list \<Rightarrow> 'w \<Rightarrow> fd result \<times> 'w"
  sys_Openat :: "fd \<Rightarrow> string \<Rightarrow> open_flag list \<Rightarrow> 'w \<Rightarrow> fd result \<times> 'w"
  sys_Close :: "fd \<Rightarrow> 'w \<Rightarrow> unit result \<times> 'w"
  sys_Fstat :: "fd \<Rightarrow> 'w \<Rightarrow> 32 word result"
  sys_Mkdirat :: "fd \<Rightarrow> string \<Rightarrow> 32 word \<Rightarrow> 'w \<Rightarrow> unit result \<times> 'w"
  sys_Fchmod :: "fd \<Rightarrow> 32 word \<Rightarrow> 'w \<Rightarrow> unit result \<times> 'w"
  sys_Mount :: "string \<Rightarrow> string \<Rightarrow> string \<Rightarrow> mount_flag list \<Rightarrow> 'w \<Rightarrow> unit result \<times> 'w"
  os_LookPath :: "string \<Rightarrow> 'w \<Rightarrow> string result"
  os_Command :: "string \<Rightarrow> string list \<Rightarrow> 'w \<Rightarrow> exec_result \<times> 'w"

end
