(* ===== verification/Mount_Parse.thy ===== *)
theory Mount_Parse
  imports Mount_Os
begin

text \<open>
  The tables of mounts that the kernel prints (\<^verbatim>\<open>pkg/mount/mount_linux.go\<close>): reading a file until it is
  the same twice, parsing \<^verbatim>\<open>/proc/mounts\<close> and \<^verbatim>\<open>/proc/self/mountinfo\<close>, and the searches in them. The text
  is taken to be ASCII.
\<close>

section \<open>Definitions\<close>

definition unicode_IsSpace :: "char \<Rightarrow> bool" where
  "unicode_IsSpace c \<longleftrightarrow> (let n = of_char c :: nat in 9 \<le> n \<and> n \<le> 13 \<or> n = 32)"

definition strings_Fields :: "string \<Rightarrow> string list" where
  "strings_Fields s = strings_FieldsFunc s unicode_IsSpace"

abbreviation newline :: char where "newline \<equiv> CHR 0x0A"

definition maxListTries :: nat where "maxListTries = 3"
definition expectedNumFieldsPerLine :: nat where "expectedNumFieldsPerLine = 6"
definition expectedAtLeastNumFieldsPerMountInfo :: nat where "expectedAtLeastNumFieldsPerMountInfo = 10"
definition procMountsPath :: string where "procMountsPath = ''/proc/mounts''"
definition procMountInfoPath :: string where "procMountInfoPath = ''/proc/self/mountinfo''"

subsection \<open>Paths\<close>

definition startsWithBackstep :: "string \<Rightarrow> bool" where
  "startsWithBackstep rel \<longleftrightarrow> rel = ''..'' \<or> strings_HasPrefix rel ''../''"

definition PathWithinBase :: "string \<Rightarrow> string \<Rightarrow> bool" where
  "PathWithinBase fullPath basePath =
     (case filepath_Rel basePath fullPath of
        Inl _ \<Rightarrow> False
      | Inr rel \<Rightarrow> if startsWithBackstep rel then False else True)"

subsection \<open>Reading\<close>

fun consistentRead_loop :: "'w os \<Rightarrow> string \<Rightarrow> nat \<Rightarrow> nat \<Rightarrow> string \<Rightarrow> 'w \<Rightarrow> string result \<times> 'w" where
  "consistentRead_loop os filename attempts 0 oldContent w =
     (Inl (Errorf ''could not get consistent content of %s after %d attempts''
        [filename, strconv_Itoa (int attempts)]), w)"
| "consistentRead_loop os filename attempts (Suc i) oldContent w =
     (case os_ReadFile os filename w of
        (Inl err, w) \<Rightarrow> (Inl err, w)
      | (Inr newContent, w) \<Rightarrow>
          if oldContent = newContent then (Inr newContent, w)
          else consistentRead_loop os filename attempts i newContent w)"

definition consistentRead :: "'w os \<Rightarrow> string \<Rightarrow> nat \<Rightarrow> 'w \<Rightarrow> string result \<times> 'w" where
  "consistentRead os filename attempts w =
     (case os_ReadFile os filename w of
        (Inl err, w) \<Rightarrow> (Inl err, w)
      | (Inr oldContent, w) \<Rightarrow> consistentRead_loop os filename attempts attempts oldContent w)"

subsection \<open>The table of mounts\<close>

record MountPoint =
  mp_Device :: string
  mp_Path :: string
  mp_Type :: string
  mp_Opts :: "string list"
  mp_Freq :: int
  mp_Pass :: int

definition parse_mount_line :: "string \<Rightarrow> MountPoint result" where
  "parse_mount_line line =
     (let fields = strings_Fields line in
      if length fields \<noteq> expectedNumFieldsPerLine
      then Inl (Errorf ''wrong number of fields (expected %d, got %d): %s''
             [strconv_Itoa (int expectedNumFieldsPerLine), strconv_Itoa (int (length fields)), line])
      else case strconv_Atoi (fields ! 4) of
             Inl err \<Rightarrow> Inl err
           | Inr freq \<Rightarrow>
               (case strconv_Atoi (fields ! 5) of
                  Inl err \<Rightarrow> Inl err
                | Inr pass \<Rightarrow>
                    Inr \<lparr>mp_Device = fields ! 0, mp_Path = fields ! 1, mp_Type = fields ! 2,
                         mp_Opts = strings_Split (fields ! 3) (CHR '',''), mp_Freq = freq, mp_Pass = pass\<rparr>))"

text \<open>Both parsers skip empty lines and stop at the first line that they refuse.\<close>

fun parse_lines :: "(string \<Rightarrow> 'a result) \<Rightarrow> string list \<Rightarrow> 'a list \<Rightarrow> 'a list result" where
  "parse_lines parse [] out = Inr out"
| "parse_lines parse (line # lines) out =
     (if line = [] then parse_lines parse lines out
      else case parse line of
             Inl err \<Rightarrow> Inl err
           | Inr x \<Rightarrow> parse_lines parse lines (out @ [x]))"

definition parseProcMounts :: "string \<Rightarrow> MountPoint list result" where
  "parseProcMounts content = parse_lines parse_mount_line (strings_Split content newline) []"

definition listProcMounts :: "'w os \<Rightarrow> string \<Rightarrow> 'w \<Rightarrow> MountPoint list result \<times> 'w" where
  "listProcMounts os mountFilePath w =
     (case consistentRead os mountFilePath maxListTries w of
        (Inl err, w) \<Rightarrow> (Inl err, w)
      | (Inr content, w) \<Rightarrow> (parseProcMounts content, w))"

subsection \<open>Mount information\<close>

record mountInfo =
  mi_id :: int
  mi_parentID :: int
  mi_majorMinor :: string
  mi_root :: string
  mi_source :: string
  mi_mountPoint :: string
  mi_optionalFields :: "string list"
  mi_fsType :: string
  mi_mountOptions :: "string list"
  mi_superOptions :: "string list"

definition parse_info_line :: "string \<Rightarrow> mountInfo result" where
  "parse_info_line line =
     (let fields = strings_Fields line in
      if length fields < expectedAtLeastNumFieldsPerMountInfo
      then Inl (Errorf ''wrong number of fields in (expected at least %d, got %d): %s''
             [strconv_Itoa (int expectedAtLeastNumFieldsPerMountInfo), strconv_Itoa (int (length fields)), line])
      else case strconv_Atoi (fields ! 0) of
             Inl err \<Rightarrow> Inl err
           | Inr i \<Rightarrow>
               (case strconv_Atoi (fields ! 1) of
                  Inl err \<Rightarrow> Inl err
                | Inr parentID \<Rightarrow>
                    (let optionalFields = takeWhile (\<lambda>f. f \<noteq> ''-'') (drop 6 fields);
                         k = 6 + length optionalFields + 1
                     in if int (length fields) - int k < 3
                        then Inl (Errorf ''expect 3 fields in %s, got %d'' [line, strconv_Itoa (int (length fields) - int k)])
                        else Inr \<lparr>mi_id = i, mi_parentID = parentID, mi_majorMinor = fields ! 2, mi_root = fields ! 3,
                               mi_source = fields ! (k + 1), mi_mountPoint = fields ! 4,
                               mi_optionalFields = optionalFields, mi_fsType = fields ! k,
                               mi_mountOptions = strings_Split (fields ! 5) (CHR '',''),
                               mi_superOptions = strings_Split (fields ! (k + 2)) (CHR '','')\<rparr>)))"

definition parseMountInfo :: "'w os \<Rightarrow> string \<Rightarrow> 'w \<Rightarrow> mountInfo list result \<times> 'w" where
  "parseMountInfo os filename w =
     (case consistentRead os filename maxListTries w of
        (Inl err, w) \<Rightarrow> (Inl err, w)
      | (Inr content, w) \<Rightarrow> (parse_lines parse_info_line (strings_Split content newline) [], w))"

definition findMountInfo :: "'w os \<Rightarrow> string \<Rightarrow> string \<Rightarrow> 'w \<Rightarrow> mountInfo result \<times> 'w" where
  "findMountInfo os path mountInfoPath w =
     (case parseMountInfo os mountInfoPath w of
        (Inl err, w) \<Rightarrow> (Inl err, w)
      | (Inr infos, w) \<Rightarrow>
          (case find (\<lambda>info. PathWithinBase path (mi_mountPoint info)) (rev infos) of
             None \<Rightarrow> (Inl (Errorf ''cannot find mount point for %q'' [path]), w)
           | Some info \<Rightarrow> (Inr info, w)))"

definition isShared :: "'w os \<Rightarrow> string \<Rightarrow> string \<Rightarrow> 'w \<Rightarrow> bool result \<times> 'w" where
  "isShared os mount mountInfoPath w =
     (case findMountInfo os mount mountInfoPath w of
        (Inl err, w) \<Rightarrow> (Inl err, w)
      | (Inr info, w) \<Rightarrow> (Inr (list_ex (\<lambda>opt. strings_HasPrefix opt ''shared:'') (mi_optionalFields info)), w))"

definition doMakeRShared :: "'w os \<Rightarrow> string \<Rightarrow> string \<Rightarrow> 'w \<Rightarrow> unit result \<times> 'w" where
  "doMakeRShared os path mountInfoFilename w =
     (case isShared os path mountInfoFilename w of
        (Inl err, w) \<Rightarrow> (Inl err, w)
      | (Inr shared, w) \<Rightarrow>
          if shared then (Inr (), w)
          else (case sys_Mount os path path [] [MS_BIND] w of
                  (Inl err, w) \<Rightarrow> (Inl (Errorf ''failed to bind-mount %s: %v'' [path, error_text err]), w)
                | (Inr _, w) \<Rightarrow>
                    (case sys_Mount os path path [] [MS_SHARED, MS_REC] w of
                       (Inl err, w) \<Rightarrow> (Inl (Errorf ''failed to make %s rshared: %v'' [path, error_text err]), w)
                     | (Inr _, w) \<Rightarrow> (Inr (), w))))"

definition getSELinuxSupport :: "'w os \<Rightarrow> string \<Rightarrow> string \<Rightarrow> 'w \<Rightarrow> bool result \<times> 'w" where
  "getSELinuxSupport os path mountInfoFilename w =
     (case findMountInfo os path mountInfoFilename w of
        (Inl err, w) \<Rightarrow> (Inl err, w)
      | (Inr info, w) \<Rightarrow>
          if list_ex (\<lambda>opt. opt = ''seclabel'') (mi_superOptions info) then (Inr True, w)
          else if list_ex (\<lambda>opt. opt = ''seclabel'') (mi_mountOptions info) then (Inr True, w)
          else (Inr False, w))"

definition searchMountPoints :: "'w os \<Rightarrow> string \<Rightarrow> string \<Rightarrow> 'w \<Rightarrow> string list result \<times> 'w" where
  "searchMountPoints os hostSource mountInfoPath w =
     (case parseMountInfo os mountInfoPath w of
        (Inl err, w) \<Rightarrow> (Inl err, w)
      | (Inr mis, w) \<Rightarrow>
          (let (mountID, rootPath, majorMinor) =
                 (case find (\<lambda>mi. hostSource = mi_mountPoint mi \<or> PathWithinBase hostSource (mi_mountPoint mi)) (rev mis) of
                    None \<Rightarrow> (0, [], [])
                  | Some mi \<Rightarrow> (mi_id mi,
                      filepath_Join [mi_root mi, strings_TrimPrefix hostSource (mi_mountPoint mi)], mi_majorMinor mi))
           in if rootPath = [] \<or> majorMinor = []
              then (Inl (Errorf ''failed to get root path and major:minor for %s'' [hostSource]), w)
              else (Inr (map mi_mountPoint (filter (\<lambda>mi. \<not> mi_id mi = mountID
                      \<and> mi_root mi = rootPath \<and> mi_majorMinor mi = majorMinor) mis)), w)))"

section \<open>Paths within a base\<close>

lemma Join_plain_backstep:
  assumes "list_all plain_elem ts" and "ts \<noteq> []"
  shows "\<not> startsWithBackstep (strings_Join ts ''/'')"
proof
  assume up: "startsWithBackstep (strings_Join ts ''/'')"
  have no: "\<forall>x \<in> set ts. CHR ''/'' \<notin> set x" using assms(1) by (auto simp: plain_elem_def list_all_iff)
  have split: "strings_Split (strings_Join ts ''/'') (CHR ''/'') = ts" using Split_Join [OF assms(2) no] .
  have "hd ts = ''..''"
  proof (cases "strings_Join ts ''/'' = ''..''")
    case True
    with split show ?thesis by (auto simp: strings_Split_def)
  next
    case False
    with up obtain r where "strings_Join ts ''/'' = ''../'' @ r"
      by (auto simp: startsWithBackstep_def strings_HasPrefix_iff)
    with split show ?thesis by (auto simp: strings_Split_def)
  qed
  moreover have "plain_elem (hd ts)" using assms by (cases ts) auto
  ultimately show False by (simp add: plain_elem_def)
qed

lemma Join_backsteps: "startsWithBackstep (strings_Join (replicate (Suc n) ''..'' @ ts) ''/'')"
  by (cases "replicate n ''..'' @ ts") (auto simp: startsWithBackstep_def strings_HasPrefix_def Join_Cons)

text \<open>For rooted paths the check compares the elements of the cleaned paths.\<close>

lemma PathWithinBase_rooted:
  assumes "path_rooted fullPath" and "path_rooted basePath"
  shows "PathWithinBase fullPath basePath \<longleftrightarrow> prefix (path_elems basePath) (path_elems fullPath)"
proof (cases "path_elems fullPath = path_elems basePath")
  case True
  then show ?thesis
    using assms by (simp add: PathWithinBase_def Rel_rooted startsWithBackstep_def strings_HasPrefix_def)
next
  case False
  obtain bs ts where s: "strip_common (path_elems basePath) (path_elems fullPath) = (bs, ts)" by fastforce
  from strip_common_split [OF s] obtain cs where cs: "path_elems basePath = cs @ bs" "path_elems fullPath = cs @ ts"
    by blast
  then have ts: "list_all plain_elem ts" using path_elems_rooted [OF assms(1)] by simp
  have "PathWithinBase fullPath basePath \<longleftrightarrow> \<not> startsWithBackstep (strings_Join (replicate (length bs) ''..'' @ ts) ''/'')"
    using False s assms by (simp add: PathWithinBase_def Rel_rooted)
  also have "\<dots> \<longleftrightarrow> bs = []"
  proof (cases bs)
    case Nil
    with False cs have "ts \<noteq> []" by auto
    with Nil ts Join_plain_backstep show ?thesis by simp
  next
    case (Cons b bs')
    then show ?thesis using Join_backsteps [of "length bs'" ts] by simp
  qed
  finally show ?thesis using strip_common_prefix [OF s] by simp
qed

section \<open>Reading\<close>

text \<open>The state after \<open>k\<close> reads of a file.\<close>

definition after_reads :: "'w os \<Rightarrow> string \<Rightarrow> nat \<Rightarrow> 'w \<Rightarrow> 'w" where
  "after_reads os f k w = ((\<lambda>w. snd (os_ReadFile os f w)) ^^ k) w"

definition content_at :: "'w os \<Rightarrow> string \<Rightarrow> nat \<Rightarrow> 'w \<Rightarrow> string result" where
  "content_at os f k w = fst (os_ReadFile os f (after_reads os f k w))"

lemma after_reads_simps [simp]:
  "after_reads os f 0 w = w"
  "after_reads os f (Suc k) w = after_reads os f k (snd (os_ReadFile os f w))"
  by (simp_all add: after_reads_def funpow_Suc_right del: funpow.simps(2))

lemma content_at_simps [simp]:
  "content_at os f 0 w = fst (os_ReadFile os f w)"
  "content_at os f (Suc k) w = content_at os f k (snd (os_ReadFile os f w))"
  by (simp_all add: content_at_def)

lemma consistentRead_loop_sound:
  "consistentRead_loop os f n i old w = (Inr c, w') \<Longrightarrow>
   \<exists>k < i. content_at os f k w = Inr c \<and> (if k = 0 then old = c else content_at os f (k - 1) w = Inr c)
     \<and> w' = after_reads os f (Suc k) w"
proof (induction i arbitrary: old w)
  case (Suc i)
  obtain r w1 where read: "os_ReadFile os f w = (r, w1)" by fastforce
  with Suc.prems obtain new where new: "r = Inr new" by (cases r) simp_all
  show ?case
  proof (cases "old = new")
    case True
    with Suc.prems read new show ?thesis by (intro exI [of _ 0]) simp
  next
    case False
    with Suc.prems read new have "consistentRead_loop os f n i new w1 = (Inr c, w')" by simp
    from Suc.IH [OF this] obtain k where k: "k < i" "content_at os f k w1 = Inr c"
      "if k = 0 then new = c else content_at os f (k - 1) w1 = Inr c" "w' = after_reads os f (Suc k) w1" by blast
    have "content_at os f k w = Inr c"
    proof (cases k)
      case 0
      with k read new show ?thesis by simp
    next
      case (Suc j)
      with k read show ?thesis by simp
    qed
    with k read show ?thesis by (intro exI [of _ "Suc k"]) simp
  qed
qed simp

lemma consistentRead_loop_stable:
  assumes "os_ReadFile os f w = (Inr c, w1)" and "0 < i"
  shows "consistentRead_loop os f n i c w = (Inr c, w1)"
  using assms by (cases i) simp_all

section \<open>Printing and parsing\<close>

text \<open>How the kernel prints the tables: words without blanks, separated by blanks, one entry per line.\<close>

definition word_ok :: "string \<Rightarrow> bool" where
  "word_ok w \<longleftrightarrow> w \<noteq> [] \<and> (\<forall>c \<in> set w. \<not> unicode_IsSpace c)"

definition opts_ok :: "string list \<Rightarrow> bool" where
  "opts_ok opts \<longleftrightarrow> opts \<noteq> [] \<and> word_ok (strings_Join opts '','') \<and> (\<forall>opt \<in> set opts. CHR '','' \<notin> set opt)"

definition mount_fields :: "MountPoint \<Rightarrow> string list" where
  "mount_fields mp = [mp_Device mp, mp_Path mp, mp_Type mp, strings_Join (mp_Opts mp) '','',
     strconv_Itoa (mp_Freq mp), strconv_Itoa (mp_Pass mp)]"

definition valid_mount :: "MountPoint \<Rightarrow> bool" where
  "valid_mount mp \<longleftrightarrow> word_ok (mp_Device mp) \<and> word_ok (mp_Path mp) \<and> word_ok (mp_Type mp) \<and> opts_ok (mp_Opts mp)
     \<and> is_int64 (mp_Freq mp) \<and> is_int64 (mp_Pass mp)"

definition info_fields :: "mountInfo \<Rightarrow> string list" where
  "info_fields mi = [strconv_Itoa (mi_id mi), strconv_Itoa (mi_parentID mi), mi_majorMinor mi, mi_root mi, mi_mountPoint mi,
     strings_Join (mi_mountOptions mi) '',''] @ mi_optionalFields mi
     @ [''-'', mi_fsType mi, mi_source mi, strings_Join (mi_superOptions mi) '','']"

definition valid_info :: "mountInfo \<Rightarrow> bool" where
  "valid_info mi \<longleftrightarrow> is_int64 (mi_id mi) \<and> is_int64 (mi_parentID mi) \<and> word_ok (mi_majorMinor mi) \<and> word_ok (mi_root mi)
     \<and> word_ok (mi_mountPoint mi) \<and> opts_ok (mi_mountOptions mi)
     \<and> list_all (\<lambda>f. word_ok f \<and> f \<noteq> ''-'') (mi_optionalFields mi)
     \<and> word_ok (mi_fsType mi) \<and> word_ok (mi_source mi) \<and> opts_ok (mi_superOptions mi)"

definition print_lines :: "('a \<Rightarrow> string list) \<Rightarrow> 'a list \<Rightarrow> string" where
  "print_lines flds xs = concat (map (\<lambda>x. strings_Join (flds x) '' '' @ [newline]) xs)"

lemma digit_not_space: "is_digit c \<Longrightarrow> \<not> unicode_IsSpace c"
  by (auto simp: is_digit_def unicode_IsSpace_def Let_def)

lemma word_ok_Itoa: "word_ok (strconv_Itoa x)"
  using print_dec_digits digit_not_space by (auto simp: word_ok_def strconv_Itoa_def unicode_IsSpace_def Let_def)

lemma Fields_Join:
  assumes "list_all word_ok ws"
  shows "strings_Fields (strings_Join ws '' '') = ws"
proof -
  have "unicode_IsSpace (CHR '' '')" by (simp add: unicode_IsSpace_def)
  moreover have "\<forall>x \<in> set ws. x \<noteq> [] \<and> (\<forall>y \<in> set x. \<not> unicode_IsSpace y)"
    using assms by (auto simp: word_ok_def list_all_iff)
  ultimately show ?thesis unfolding strings_Fields_def by (rule FieldsFunc_Join)
qed

lemma Join_no_newline:
  assumes "list_all word_ok ws"
  shows "newline \<notin> set (strings_Join ws '' '')"
  using assms
proof (induction ws)
  case (Cons w ws)
  have "newline \<notin> set w" using Cons.prems by (auto simp: word_ok_def unicode_IsSpace_def Let_def)
  with Cons show ?case by (cases ws) auto
qed simp

lemma Join_lines: "concat (map (\<lambda>l. l @ [newline]) ls) = strings_Join (ls @ [[]]) [newline]"
  by (induction ls) (simp_all add: Join_Cons)

lemma Split_print_lines:
  assumes "\<forall>x \<in> set xs. list_all word_ok (flds x)"
  shows "strings_Split (print_lines flds xs) newline = map (\<lambda>x. strings_Join (flds x) '' '') xs @ [[]]"
proof -
  have "print_lines flds xs = strings_Join (map (\<lambda>x. strings_Join (flds x) '' '') xs @ [[]]) [newline]"
    using Join_lines [of "map (\<lambda>x. strings_Join (flds x) '' '') xs"] by (simp add: print_lines_def comp_def)
  then show ?thesis using Split_Join Join_no_newline assms by (simp add: Split_Join)
qed

lemma Join_word_nonempty: "list_all word_ok ws \<Longrightarrow> ws \<noteq> [] \<Longrightarrow> strings_Join ws '' '' \<noteq> []"
  by (cases ws rule: list.exhaust; cases "tl ws") (auto simp: word_ok_def)

lemma parse_lines_print:
  assumes "\<forall>x \<in> set xs. list_all word_ok (flds x) \<and> flds x \<noteq> [] \<and> parse (strings_Join (flds x) '' '') = Inr x"
  shows "parse_lines parse (map (\<lambda>x. strings_Join (flds x) '' '') xs @ [[]]) out = Inr (out @ xs)"
  using assms
proof (induction xs arbitrary: out)
  case (Cons x xs)
  then have "strings_Join (flds x) '' '' \<noteq> []" by (simp add: Join_word_nonempty)
  with Cons show ?case by simp
qed simp

lemma parse_print_lines:
  assumes "\<forall>x \<in> set xs. list_all word_ok (flds x) \<and> flds x \<noteq> [] \<and> parse (strings_Join (flds x) '' '') = Inr x"
  shows "parse_lines parse (strings_Split (print_lines flds xs) newline) [] = Inr xs"
  using Split_print_lines [of xs flds] parse_lines_print [OF assms, of "[]"] assms by simp

lemma Split_opts: "opts_ok opts \<Longrightarrow> strings_Split (strings_Join opts '','') (CHR '','') = opts"
  by (simp add: opts_ok_def Split_Join)

lemma parse_mount_line_print:
  assumes "valid_mount mp"
  shows "list_all word_ok (mount_fields mp)" and "parse_mount_line (strings_Join (mount_fields mp) '' '') = Inr mp"
proof -
  show ok: "list_all word_ok (mount_fields mp)"
    using assms by (simp add: mount_fields_def valid_mount_def opts_ok_def word_ok_Itoa)
  show "parse_mount_line (strings_Join (mount_fields mp) '' '') = Inr mp"
    unfolding parse_mount_line_def Fields_Join [OF ok] using assms
    by (simp add: mount_fields_def valid_mount_def expectedNumFieldsPerLine_def Atoi_Itoa Split_opts)
qed

lemma parse_info_line_print:
  assumes "valid_info mi"
  shows "list_all word_ok (info_fields mi)" and "parse_info_line (strings_Join (info_fields mi) '' '') = Inr mi"
proof -
  show ok: "list_all word_ok (info_fields mi)"
    using assms by (auto simp: info_fields_def valid_info_def opts_ok_def word_ok_Itoa list_all_iff)
      (simp add: word_ok_def unicode_IsSpace_def)
  have opt: "takeWhile (\<lambda>f. f \<noteq> ''-'') (mi_optionalFields mi @ ''-'' # rest) = mi_optionalFields mi" for rest
    using assms by (simp add: valid_info_def list_all_iff takeWhile_tail)
  show "parse_info_line (strings_Join (info_fields mi) '' '') = Inr mi"
    unfolding parse_info_line_def Fields_Join [OF ok] using assms opt
    by (simp add: info_fields_def valid_info_def expectedAtLeastNumFieldsPerMountInfo_def Atoi_Itoa Split_opts nth_append)
qed

section \<open>Properties\<close>

text \<open>
  C38. \<^verbatim>\<open>PathWithinBase\<close>, which looks at the text of a relative path, is the prefix relation on the elements of
  the cleaned paths: a path is within a base exactly if the elements of the base start its own, so
  neither \<^verbatim>\<open>..\<close> nor a longer name with the same beginning is mistaken for a subdirectory.
\<close>

theorem PathWithinBase_iff:
  assumes "path_rooted fullPath" and "path_rooted basePath"
  shows "PathWithinBase fullPath basePath \<longleftrightarrow> prefix (path_elems basePath) (path_elems fullPath)"
  using assms by (rule PathWithinBase_rooted)

theorem PathWithinBase_iff_witness:
  "PathWithinBase ''/a//b/../c'' ''/a/./'' \<and> \<not> PathWithinBase ''/ab'' ''/a'' \<and> \<not> PathWithinBase ''/a/../b'' ''/a''"
proof -
  have r: "path_rooted ''/a//b/../c''" "path_rooted ''/a/./''" "path_rooted ''/ab''" "path_rooted ''/a''" "path_rooted ''/a/../b''"
    by (simp_all add: path_rooted_def strings_HasPrefix_def)
  have e: "path_elems ''/a//b/../c'' = [''a'', ''c'']" "path_elems ''/a/./'' = [''a'']" "path_elems ''/ab'' = [''ab'']"
    "path_elems ''/a'' = [''a'']" "path_elems ''/a/../b'' = [''b'']"
    by code_simp+
  show ?thesis
    using PathWithinBase_iff [OF r(1,2)] PathWithinBase_iff [OF r(3,4)] PathWithinBase_iff [OF r(5,4)] e by simp
qed

text \<open>
  C40. \<^verbatim>\<open>consistentRead\<close> only returns a content that two successive reads have returned, it reads at most
  one time more than it has attempts, and it returns at the second read if the file does not change.
\<close>

theorem consistentRead_spec:
  "(\<forall>c w'. consistentRead os f n w = (Inr c, w') \<longrightarrow>
      (\<exists>k < n. content_at os f k w = Inr c \<and> content_at os f (Suc k) w = Inr c \<and> w' = after_reads os f (k + 2) w))
   \<and> (\<forall>c w1 w2. os_ReadFile os f w = (Inr c, w1) \<longrightarrow> os_ReadFile os f w1 = (Inr c, w2) \<longrightarrow> 0 < n \<longrightarrow>
        consistentRead os f n w = (Inr c, w2))"
proof (intro conjI allI impI)
  fix c w' assume r: "consistentRead os f n w = (Inr c, w')"
  obtain x w1 where read: "os_ReadFile os f w = (x, w1)" by fastforce
  with r obtain old where old: "x = Inr old" by (cases x) (simp_all add: consistentRead_def)
  with r read have "consistentRead_loop os f n n old w1 = (Inr c, w')" by (simp add: consistentRead_def)
  from consistentRead_loop_sound [OF this] obtain k where k: "k < n" "content_at os f k w1 = Inr c"
    "if k = 0 then old = c else content_at os f (k - 1) w1 = Inr c" "w' = after_reads os f (Suc k) w1" by blast
  have "content_at os f k w = Inr c" using k(3) read old by (cases k) simp_all
  with k read show "\<exists>k < n. content_at os f k w = Inr c \<and> content_at os f (Suc k) w = Inr c
      \<and> w' = after_reads os f (k + 2) w"
    by (intro exI [of _ k]) simp
next
  fix c w1 w2
  assume "os_ReadFile os f w = (Inr c, w1)" "os_ReadFile os f w1 = (Inr c, w2)" "0 < n"
  then show "consistentRead os f n w = (Inr c, w2)"
    using consistentRead_loop_stable by (simp add: consistentRead_def)
qed

text \<open>A system whose files never change, for the witnesses.\<close>

definition static_os :: "(string \<Rightarrow> string result) \<Rightarrow> unit os" where
  "static_os files = \<lparr>os_Stat = (\<lambda>_ _. Inl (OsError ENOENT)), os_Lstat = (\<lambda>_ _. Inl (OsError ENOENT)),
     os_EvalSymlinks = (\<lambda>p _. Inr p), os_ReadFile = (\<lambda>p w. (files p, w)), os_ReadDir = (\<lambda>_ _. Inl (OsError ENOENT)),
     os_MkdirAll = (\<lambda>_ _ w. (Inr (), w)), os_Mkdir = (\<lambda>_ _ w. (Inr (), w)), os_Remove = (\<lambda>_ w. (Inl (OsError ENOENT), w)),
     os_WriteFile = (\<lambda>_ _ _ w. (Inr (), w)), os_Create = (\<lambda>_ _ w. (Inr (), w)), os_Getpid = (\<lambda>_. 1),
     sys_Open = (\<lambda>_ _ w. (Inl (OsError ENOENT), w)), sys_Openat = (\<lambda>_ _ _ w. (Inl (OsError ENOENT), w)),
     sys_Close = (\<lambda>_ w. (Inr (), w)), sys_Fstat = (\<lambda>_ _. Inl (OsError EINVAL)),
     sys_Mkdirat = (\<lambda>_ _ _ w. (Inl (OsError ENOENT), w)), sys_Fchmod = (\<lambda>_ _ w. (Inr (), w)),
     sys_Mount = (\<lambda>_ _ _ _ w. (Inr (), w)), os_LookPath = (\<lambda>_ _. Inl (OsError ENOENT)),
     os_Command = (\<lambda>_ _ w. (([], Some ErrExecutableNotFound), w))\<rparr>"

theorem consistentRead_spec_witness:
  "consistentRead (static_os (\<lambda>_. Inr ''x'')) ''/f'' 3 () = (Inr ''x'', ())"
  using consistentRead_spec [of "static_os (\<lambda>_. Inr ''x'')" "''/f''" 3 "()"] by (simp add: static_os_def)


definition sample_mount :: MountPoint where
  "sample_mount = \<lparr>mp_Device = ''/dev/sda'', mp_Path = ''/mnt'', mp_Type = ''ext4'', mp_Opts = [''rw'', ''relatime''],
     mp_Freq = 0, mp_Pass = 0\<rparr>"

definition sample_info :: mountInfo where
  "sample_info = \<lparr>mi_id = 22, mi_parentID = 1, mi_majorMinor = ''8:0'', mi_root = ''/'', mi_source = ''/dev/sda'',
     mi_mountPoint = ''/mnt'', mi_optionalFields = [''shared:1''], mi_fsType = ''ext4'',
     mi_mountOptions = [''rw''], mi_superOptions = [''rw'', ''seclabel'']\<rparr>"


end
