(* ===== verification/Mount_Interface.thy ===== *)
theory Mount_Interface
  imports Mount_Parse
begin

text \<open>
  Mounting and unmounting (\<^verbatim>\<open>pkg/mount/mount.go\<close>, \<^verbatim>\<open>mount_linux.go\<close>, \<^verbatim>\<open>unmount.go\<close>): the arguments of the
  \<^verbatim>\<open>mount\<close> program, bind mounts and their remount, the checks for mount points and the references to a
  mount. The Go interface is a record of operations; \<open>mount_basic\<close> holds those that other operations of
  the package call through it.
\<close>

unbundle bit_operations_syntax

section \<open>Definitions\<close>

record 'w mount_basic =
  if_Mount :: "string \<Rightarrow> string \<Rightarrow> string \<Rightarrow> string list \<Rightarrow> 'w \<Rightarrow> unit result \<times> 'w"
  if_Unmount :: "string \<Rightarrow> 'w \<Rightarrow> unit result \<times> 'w"
  if_List :: "'w \<Rightarrow> MountPoint list result \<times> 'w"
  if_IsMountPointMatch :: "MountPoint \<Rightarrow> string \<Rightarrow> bool"
  if_IsLikelyNotMountPoint :: "string \<Rightarrow> 'w \<Rightarrow> bool \<times> go_error option"
  if_EvalHostSymlinks :: "string \<Rightarrow> 'w \<Rightarrow> string result"
  if_GetMountRefs :: "string \<Rightarrow> 'w \<Rightarrow> string list result \<times> 'w"

subsection \<open>Options\<close>

definition checkForNetDev :: "string list \<Rightarrow> bool" where
  "checkForNetDev options = list_ex (\<lambda>option. option = ''_netdev'') options"

fun isBind_loop :: "string list \<Rightarrow> bool \<Rightarrow> string list \<Rightarrow> bool \<times> string list" where
  "isBind_loop [] bind bindRemountOpts = (bind, bindRemountOpts)"
| "isBind_loop (option # options) bind bindRemountOpts =
     (if option = ''bind'' then isBind_loop options True bindRemountOpts
      else if option = ''remount'' then isBind_loop options bind bindRemountOpts
      else isBind_loop options bind (bindRemountOpts @ [option]))"

definition isBind :: "string list \<Rightarrow> bool \<times> string list \<times> string list" where
  "isBind options =
     (let bindOpts = [''bind''];
          bindOpts = (if checkForNetDev options then bindOpts @ [''_netdev''] else bindOpts);
          (bind, bindRemountOpts) = isBind_loop options False [''bind'', ''remount'']
      in (bind, bindOpts, bindRemountOpts))"

definition makeMountArgs :: "string \<Rightarrow> string \<Rightarrow> string \<Rightarrow> string list \<Rightarrow> string list" where
  "makeMountArgs source target fstype options =
     (let mountArgs = [];
          mountArgs = (if fstype \<noteq> [] then mountArgs @ [''-t'', fstype] else mountArgs);
          mountArgs = (if options \<noteq> [] then mountArgs @ [''-o'', strings_Join options '',''] else mountArgs);
          mountArgs = (if source \<noteq> [] then mountArgs @ [source] else mountArgs)
      in mountArgs @ [target])"

definition addSystemdScope :: "string \<Rightarrow> string \<Rightarrow> string \<Rightarrow> string list \<Rightarrow> string \<times> string list" where
  "addSystemdScope systemdRunPath mountName command args =
     (let descriptionArg = sprintf ''--description=Kubernetes transient mount for %s'' [mountName]
      in (systemdRunPath, [descriptionArg, ''--scope'', ''--'', command] @ args))"

subsection \<open>The mounter\<close>

record Mounter =
  mounterPath :: string
  withSystemd :: bool

definition defaultMountCommand :: string where "defaultMountCommand = ''mount''"

text \<open>The error text of package \<^verbatim>\<open>os/exec\<close> for a program that failed.\<close>

fun std_exec_text :: "string \<Rightarrow> exec_err \<Rightarrow> string" where
  "std_exec_text cmd ErrExecutableNotFound = sprintf ''exec: %q: executable file not found in $PATH'' [cmd]"
| "std_exec_text cmd e = exec_text e"

definition detectSystemd :: "'w os \<Rightarrow> 'w \<Rightarrow> bool \<times> 'w" where
  "detectSystemd os w =
     (case os_LookPath os ''systemd-run'' w of
        Inl err \<Rightarrow> (False, w)
      | Inr _ \<Rightarrow>
          (case os_Command os ''systemd-run'' [''--description=Kubernetes systemd probe'', ''--scope'', ''true''] w of
             ((output, Some err), w) \<Rightarrow> (False, w)
           | ((output, None), w) \<Rightarrow> (True, w)))"

definition mount_New :: "'w os \<Rightarrow> string \<Rightarrow> 'w \<Rightarrow> Mounter \<times> 'w" where
  "mount_New os mPath w =
     (case detectSystemd os w of (systemd, w) \<Rightarrow> (\<lparr>mounterPath = mPath, withSystemd = systemd\<rparr>, w))"

definition mount_failed :: "string \<Rightarrow> string \<Rightarrow> string \<Rightarrow> string \<Rightarrow> go_error" where
  "mount_failed err cmd args output =
     Errorf (''mount failed: %v'' @ [newline] @ ''Mounting command: %s'' @ [newline]
       @ ''Mounting arguments: %s'' @ [newline] @ ''Output: %s'' @ [newline]) [err, cmd, args, output]"

definition doMount ::
  "'w os \<Rightarrow> Mounter \<Rightarrow> string \<Rightarrow> string \<Rightarrow> string \<Rightarrow> string \<Rightarrow> string \<Rightarrow> string list \<Rightarrow> 'w \<Rightarrow> unit result \<times> 'w" where
  "doMount os m mPath mountCmd source target fstype options w =
     (let mountArgs = makeMountArgs source target fstype options;
          (mountCmd, mountArgs) =
            (if mPath \<noteq> [] then (mPath, [mountCmd] @ mountArgs) else (mountCmd, mountArgs));
          (mountCmd, mountArgs) =
            (if withSystemd m then addSystemdScope ''systemd-run'' target mountCmd mountArgs else (mountCmd, mountArgs))
      in case os_Command os mountCmd mountArgs w of
           ((output, Some err), w) \<Rightarrow>
             (Inl (mount_failed (std_exec_text mountCmd err) mountCmd (strings_Join mountArgs '' '') output), w)
         | ((output, None), w) \<Rightarrow> (Inr (), w))"

definition Mounter_Mount ::
  "'w os \<Rightarrow> Mounter \<Rightarrow> string \<Rightarrow> string \<Rightarrow> string \<Rightarrow> string list \<Rightarrow> 'w \<Rightarrow> unit result \<times> 'w" where
  "Mounter_Mount os m source target fstype options w =
     (let (bind, bindOpts, bindRemountOpts) = isBind options in
      if bind then
        (case doMount os m [] defaultMountCommand source target fstype bindOpts w of
           (Inl err, w) \<Rightarrow> (Inl err, w)
         | (Inr _, w) \<Rightarrow> doMount os m [] defaultMountCommand source target fstype bindRemountOpts w)
      else
        let mPath = (if fstype \<in> {''nfs'', ''glusterfs'', ''ceph'', ''cifs''} then mounterPath m else [])
        in doMount os m mPath defaultMountCommand source target fstype options w)"

definition Mounter_Unmount :: "'w os \<Rightarrow> string \<Rightarrow> 'w \<Rightarrow> unit result \<times> 'w" where
  "Mounter_Unmount os target w =
     (case os_Command os ''umount'' [target] w of
        ((output, Some err), w) \<Rightarrow>
          (Inl (Errorf (''Unmount failed: %v'' @ [newline] @ ''Unmounting arguments: %s'' @ [newline] @ ''Output: %s'' @ [newline])
             [std_exec_text ''umount'' err, target, output]), w)
      | ((output, None), w) \<Rightarrow> (Inr (), w))"

definition Mounter_List :: "'w os \<Rightarrow> 'w \<Rightarrow> MountPoint list result \<times> 'w" where
  "Mounter_List os w = listProcMounts os procMountsPath w"

definition Mounter_IsMountPointMatch :: "MountPoint \<Rightarrow> string \<Rightarrow> bool" where
  "Mounter_IsMountPointMatch mp dir =
     (let deletedDir = sprintf (''%s'' @ [CHR 0x5C] @ ''040(deleted)'') [dir] in mp_Path mp = dir \<or> mp_Path mp = deletedDir)"

definition Mounter_IsLikelyNotMountPoint :: "'w os \<Rightarrow> string \<Rightarrow> 'w \<Rightarrow> bool \<times> go_error option" where
  "Mounter_IsLikelyNotMountPoint os file w =
     (case os_Stat os file w of
        Inl err \<Rightarrow> (True, Some err)
      | Inr stat \<Rightarrow>
          (case os_Lstat os (filepath_Dir (strings_TrimSuffix file ''/'')) w of
             Inl err \<Rightarrow> (True, Some err)
           | Inr rootStat \<Rightarrow> if fi_Dev stat \<noteq> fi_Dev rootStat then (False, None) else (True, None)))"

definition Mounter_EvalHostSymlinks :: "'w os \<Rightarrow> string \<Rightarrow> 'w \<Rightarrow> string result" where
  "Mounter_EvalHostSymlinks os pathname w = os_EvalSymlinks os pathname w"

definition Mounter_GetMountRefs :: "'w os \<Rightarrow> string \<Rightarrow> 'w \<Rightarrow> string list result \<times> 'w" where
  "Mounter_GetMountRefs os pathname w =
     (case os_Stat os pathname w of
        Inl err \<Rightarrow> if os_IsNotExist err then (Inr [], w) else (Inl err, w)
      | Inr _ \<Rightarrow>
          (case os_EvalSymlinks os pathname w of
             Inl err \<Rightarrow> (Inl err, w)
           | Inr realpath \<Rightarrow> searchMountPoints os realpath procMountInfoPath w))"

definition Mounter_basic :: "'w os \<Rightarrow> Mounter \<Rightarrow> 'w mount_basic" where
  "Mounter_basic os m =
     \<lparr>if_Mount = Mounter_Mount os m, if_Unmount = Mounter_Unmount os, if_List = Mounter_List os,
      if_IsMountPointMatch = Mounter_IsMountPointMatch,
      if_IsLikelyNotMountPoint = Mounter_IsLikelyNotMountPoint os,
      if_EvalHostSymlinks = Mounter_EvalHostSymlinks os, if_GetMountRefs = Mounter_GetMountRefs os\<rparr>"

subsection \<open>Mount points\<close>

definition IsNotMountPoint ::
  "('w, 'x) mount_basic_scheme \<Rightarrow> string \<Rightarrow> 'w \<Rightarrow> (bool \<times> go_error option) \<times> 'w" where
  "IsNotMountPoint mounter file w =
     (let (notMnt, notMntErr) = if_IsLikelyNotMountPoint mounter file w;
          (notMnt, notMntErr) =
            (case notMntErr of
               Some err \<Rightarrow> if os_IsPermission err then (True, None) else (notMnt, notMntErr)
             | None \<Rightarrow> (notMnt, notMntErr))
      in if notMntErr \<noteq> None then ((notMnt, notMntErr), w)
         else if notMnt = False then ((notMnt, None), w)
         else case if_EvalHostSymlinks mounter file w of
                Inl err \<Rightarrow> ((True, Some err), w)
              | Inr resolvedFile \<Rightarrow>
                  (case if_List mounter w of
                     (Inl mountPointsErr, w) \<Rightarrow> ((notMnt, Some mountPointsErr), w)
                   | (Inr mountPoints, w) \<Rightarrow>
                       if list_ex (\<lambda>mp. if_IsMountPointMatch mounter mp resolvedFile) mountPoints
                       then ((False, None), w) else ((notMnt, None), w)))"

definition getMountRefsByDev :: "('w, 'x) mount_basic_scheme \<Rightarrow> string \<Rightarrow> 'w \<Rightarrow> string list result \<times> 'w" where
  "getMountRefsByDev mounter mountPath w =
     (case if_List mounter w of
        (Inl err, w) \<Rightarrow> (Inl err, w)
      | (Inr mps, w) \<Rightarrow>
          (let diskDev = (case find (\<lambda>mp. mountPath = mp_Path mp) mps of None \<Rightarrow> [] | Some mp \<Rightarrow> mp_Device mp)
           in (Inr (map mp_Path (filter (\<lambda>mp. (mp_Device mp = diskDev \<or> mp_Device mp = mountPath)
                 \<and> mp_Path mp \<noteq> mountPath) mps)), w)))"

definition GetDeviceNameFromMount ::
  "'w os \<Rightarrow> ('w, 'x) mount_basic_scheme \<Rightarrow> string \<Rightarrow> 'w \<Rightarrow> (string \<times> int) result \<times> 'w" where
  "GetDeviceNameFromMount os mounter mountPath w =
     (case if_List mounter w of
        (Inl err, w) \<Rightarrow> (Inl err, w)
      | (Inr mps, w) \<Rightarrow>
          (let slTarget = (case os_EvalSymlinks os mountPath w of Inl err \<Rightarrow> mountPath | Inr t \<Rightarrow> t);
               device = (case find (\<lambda>mp. mp_Path mp = slTarget) mps of None \<Rightarrow> [] | Some mp \<Rightarrow> mp_Device mp);
               refCount = length (filter (\<lambda>mp. mp_Device mp = device) mps)
           in (Inr (device, int refCount), w)))"

definition HasMountRefs :: "string \<Rightarrow> string list \<Rightarrow> bool" where
  "HasMountRefs mountPath mountRefs =
     (let count = length (filter (\<lambda>ref. \<not> strings_Contains ref mountPath) mountRefs) in count > 0)"

definition MountsInGlobalPDPath :: string where "MountsInGlobalPDPath = ''mounts''"

definition getDeviceNameFromMount ::
  "('w, 'x) mount_basic_scheme \<Rightarrow> string \<Rightarrow> string \<Rightarrow> 'w \<Rightarrow> string result \<times> 'w" where
  "getDeviceNameFromMount mounter mountPath pluginDir w =
     (case if_GetMountRefs mounter mountPath w of
        (Inl err, w) \<Rightarrow> (Inl err, w)
      | (Inr refs, w) \<Rightarrow>
          if refs = [] then (Inl (Errorf ''directory %s is not mounted'' [mountPath]), w)
          else (let basemountPath = filepath_Join [pluginDir, MountsInGlobalPDPath] in
                case find (\<lambda>ref. strings_HasPrefix ref basemountPath) refs of
                  Some ref \<Rightarrow>
                    (case filepath_Rel basemountPath ref of
                       Inl err \<Rightarrow> (Inl err, w)
                     | Inr volumeID \<Rightarrow> (Inr volumeID, w))
                | None \<Rightarrow> (Inr (filepath_Base mountPath), w)))"

subsection \<open>Unmounting a path\<close>

fun IsCorruptedMnt :: "go_error \<Rightarrow> bool" where
  "IsCorruptedMnt (OsError e) = (e = ENOTCONN \<or> e = ESTALE \<or> e = EIO)"
| "IsCorruptedMnt _ = False"

definition PathExists :: "'w os \<Rightarrow> string \<Rightarrow> 'w \<Rightarrow> bool \<times> go_error option" where
  "PathExists os path w =
     (case os_Stat os path w of
        Inr _ \<Rightarrow> (True, None)
      | Inl err \<Rightarrow>
          if os_IsNotExist err then (False, None)
          else if IsCorruptedMnt err then (True, Some err)
          else (False, Some err))"

definition UnmountPath_now :: "'w os \<Rightarrow> string \<Rightarrow> ('w, 'x) mount_basic_scheme \<Rightarrow> 'w \<Rightarrow> unit result \<times> 'w" where
  "UnmountPath_now os mountPath mounter w =
     (case if_Unmount mounter mountPath w of
        (Inl err, w) \<Rightarrow> (Inl err, w)
      | (Inr _, w) \<Rightarrow>
          (case if_IsLikelyNotMountPoint mounter mountPath w of
             (notMnt, Some mntErr) \<Rightarrow> (Inl mntErr, w)
           | (notMnt, None) \<Rightarrow>
               if notMnt then os_Remove os mountPath w
               else (Inl (Errorf ''Failed to unmount path %v'' [mountPath]), w)))"

definition UnmountPath :: "'w os \<Rightarrow> string \<Rightarrow> ('w, 'x) mount_basic_scheme \<Rightarrow> 'w \<Rightarrow> unit result \<times> 'w" where
  "UnmountPath os mountPath mounter w =
     (let (pathExists, pathErr) = PathExists os mountPath w in
      if \<not> pathExists then (Inr (), w)
      else let corruptedMnt = (case pathErr of None \<Rightarrow> False | Some err \<Rightarrow> IsCorruptedMnt err) in
           if pathErr \<noteq> None \<and> \<not> corruptedMnt
           then (Inl (Errorf ''Error checking path: %v'' [error_text (the pathErr)]), w)
           else if \<not> corruptedMnt then
             (case IsNotMountPoint mounter mountPath w of
                ((notMnt, Some err), w) \<Rightarrow> (Inl err, w)
              | ((notMnt, None), w) \<Rightarrow>
                  if notMnt then os_Remove os mountPath w
                  else UnmountPath_now os mountPath mounter w)
           else UnmountPath_now os mountPath mounter w)"

subsection \<open>Files\<close>

type_synonym FileType = string

definition FileTypeDirectory :: FileType where "FileTypeDirectory = ''Directory''"
definition FileTypeFile :: FileType where "FileTypeFile = ''File''"
definition FileTypeSocket :: FileType where "FileTypeSocket = ''Socket''"
definition FileTypeCharDev :: FileType where "FileTypeCharDev = ''CharDevice''"
definition FileTypeBlockDev :: FileType where "FileTypeBlockDev = ''BlockDevice''"

definition isSpecificMode :: "32 word \<Rightarrow> 32 word \<Rightarrow> bool" where
  "isSpecificMode mode targetMode \<longleftrightarrow> mode AND targetMode = targetMode"

definition getFileType :: "'w os \<Rightarrow> string \<Rightarrow> 'w \<Rightarrow> FileType result" where
  "getFileType os pathname w =
     (case os_Stat os pathname w of
        Inl err \<Rightarrow>
          if os_IsNotExist err then Inl (Errorf ''path %q does not exist'' [pathname]) else Inl err
      | Inr info \<Rightarrow>
          (let mode = fi_Mode info in
           if mode_IsDir mode then Inr FileTypeDirectory
           else if mode_IsRegular mode then Inr FileTypeFile
           else if isSpecificMode mode ModeSocket then Inr FileTypeSocket
           else if isSpecificMode mode ModeDevice then
             (if isSpecificMode mode ModeCharDevice then Inr FileTypeCharDev else Inr FileTypeBlockDev)
           else Inl (ErrText ''only recognise file, directory, socket, block device and character device'')))"

definition Mounter_PathIsDevice :: "'w os \<Rightarrow> string \<Rightarrow> 'w \<Rightarrow> bool \<times> go_error option" where
  "Mounter_PathIsDevice os pathname w =
     (case getFileType os pathname w of
        Inl err \<Rightarrow> (False, Some err)
      | Inr pathType \<Rightarrow> (pathType = FileTypeCharDev \<or> pathType = FileTypeBlockDev, None))"

definition exclusiveOpenFailsOnDevice :: "'w os \<Rightarrow> string \<Rightarrow> 'w \<Rightarrow> bool result \<times> 'w" where
  "exclusiveOpenFailsOnDevice os pathname w =
     (case os_Stat os pathname w of
        Inl err \<Rightarrow> (Inl (Errorf ''PathIsDevice failed for path %q: %v'' [pathname, error_text err]), w)
      | Inr finfo \<Rightarrow>
          if fi_Mode finfo AND ModeDevice = 0 then (Inr False, w)
          else (case sys_Open os pathname [O_RDONLY, O_EXCL] w of
                  (Inr fd, w) \<Rightarrow> (Inr False, snd (sys_Close os fd w))
                | (Inl errno, w) \<Rightarrow>
                    (let w = snd (sys_Close os (-1) w) in
                     if errno = OsError EBUSY then (Inr True, w) else (Inl errno, w))))"

definition Mounter_MakeDir :: "'w os \<Rightarrow> string \<Rightarrow> 'w \<Rightarrow> unit result \<times> 'w" where
  "Mounter_MakeDir os pathname w =
     (case os_MkdirAll os pathname 0x1ED w of
        (Inl err, w) \<Rightarrow> if \<not> os_IsExist err then (Inl err, w) else (Inr (), w)
      | (Inr _, w) \<Rightarrow> (Inr (), w))"

definition Mounter_MakeFile :: "'w os \<Rightarrow> string \<Rightarrow> 'w \<Rightarrow> unit result \<times> 'w" where
  "Mounter_MakeFile os pathname w =
     (case os_Create os pathname 0x1A4 w of
        (Inl err, w) \<Rightarrow> if \<not> os_IsExist err then (Inl err, w) else (Inr (), w)
      | (Inr _, w) \<Rightarrow> (Inr (), w))"

definition Mounter_ExistsPath :: "'w os \<Rightarrow> string \<Rightarrow> 'w \<Rightarrow> bool result" where
  "Mounter_ExistsPath os pathname w =
     (case os_Stat os pathname w of
        Inl err \<Rightarrow> if os_IsNotExist err then Inr False else Inl err
      | Inr _ \<Rightarrow> Inr True)"

definition getFSGroup :: "'w os \<Rightarrow> string \<Rightarrow> 'w \<Rightarrow> int result" where
  "getFSGroup os pathname w =
     (case os_Stat os pathname w of Inl err \<Rightarrow> Inl err | Inr info \<Rightarrow> Inr (uint (fi_Gid info)))"

definition Mounter_GetFSGroup :: "'w os \<Rightarrow> string \<Rightarrow> 'w \<Rightarrow> int result" where
  "Mounter_GetFSGroup os pathname w =
     (case os_EvalSymlinks os pathname w of Inl err \<Rightarrow> Inl err | Inr realpath \<Rightarrow> getFSGroup os realpath w)"

definition getMode :: "'w os \<Rightarrow> string \<Rightarrow> 'w \<Rightarrow> 32 word result" where
  "getMode os pathname w =
     (case os_Stat os pathname w of Inl err \<Rightarrow> Inl err | Inr info \<Rightarrow> Inr (fi_Mode info))"

section \<open>Options\<close>

lemma isBind_loop_spec:
  "isBind_loop options bind opts =
     (bind \<or> ''bind'' \<in> set options, opts @ filter (\<lambda>opt. opt \<noteq> ''bind'' \<and> opt \<noteq> ''remount'') options)"
  by (induction options arbitrary: bind opts) auto

lemma isBind_spec:
  "isBind options = (''bind'' \<in> set options,
     if ''_netdev'' \<in> set options then [''bind'', ''_netdev''] else [''bind''],
     [''bind'', ''remount''] @ filter (\<lambda>opt. opt \<noteq> ''bind'' \<and> opt \<noteq> ''remount'') options)"
  by (simp add: isBind_def isBind_loop_spec checkForNetDev_def list_ex_iff)

lemma Mounter_Mount_keeps:
  assumes "\<And>p opts v. p = [] \<or> p = mounterPath m \<Longrightarrow> Q v \<Longrightarrow> Q (snd (doMount os m p defaultMountCommand source target fstype opts v))" and "Q w"
  shows "Q (snd (Mounter_Mount os m source target fstype options w))"
proof (cases "''bind'' \<in> set options")
  case True
  let ?b = "if ''_netdev'' \<in> set options then [''bind'', ''_netdev''] else [''bind'']"
  obtain r v where d: "doMount os m [] defaultMountCommand source target fstype ?b w = (r, v)" by fastforce
  then have "Q v" using assms(1) [OF _ assms(2), of "[]" ?b] by simp
  with True d assms(1) [of "[]" v] show ?thesis
    unfolding Mounter_Mount_def isBind_spec by (cases r) simp_all
next
  case False
  with assms show ?thesis unfolding Mounter_Mount_def isBind_spec by (simp add: Let_def)
qed

section \<open>Errors that are lost\<close>

text \<open>
  A path that cannot be checked counts as a path that does not exist: \<^verbatim>\<open>UnmountPath\<close> reports success and
  leaves the mount in place, and the error that it has for this case is never returned.
\<close>

theorem UnmountPath_hides_errors:
  assumes "os_Stat os mountPath w = Inl err" and "\<not> IsCorruptedMnt err"
  shows "UnmountPath os mountPath mounter w = (Inr (), w)"
  using assms by (simp add: UnmountPath_def PathExists_def)

lemma UnmountPath_error_dead:
  "fst (PathExists os p w) \<Longrightarrow> snd (PathExists os p w) = Some err \<Longrightarrow> IsCorruptedMnt err"
  by (auto simp: PathExists_def split: sum.splits if_splits)

end
