(* ===== verification/Mount_Format.thy ===== *)
theory Mount_Format
  imports Mount_Interface
begin

text \<open>
  Formatting and mounting a disk (\<^verbatim>\<open>SafeFormatAndMount\<close> in \<^verbatim>\<open>pkg/mount/mount_linux.go\<close>): the check of the
  file system, the mount, and the probe of the disk format that decides whether a disk may be
  formatted.
\<close>

section \<open>Definitions\<close>

type_synonym 'w exec_run = "string \<Rightarrow> string list \<Rightarrow> 'w \<Rightarrow> exec_result \<times> 'w"

definition osExec_Run :: "'w os \<Rightarrow> 'w exec_run" where
  "osExec_Run os cmd args w = os_Command os cmd args w"

definition fsckErrorsCorrected :: nat where "fsckErrorsCorrected = 1"
definition fsckErrorsUncorrected :: nat where "fsckErrorsUncorrected = 4"

fun blkid_loop :: "string \<Rightarrow> string list \<Rightarrow> string \<Rightarrow> string \<Rightarrow> (string \<times> string) result" where
  "blkid_loop output [] fstype pttype = Inr (fstype, pttype)"
| "blkid_loop output (l # lines) fstype pttype =
     (if l = [] then blkid_loop output lines fstype pttype
      else let cs = strings_Split l (CHR ''='') in
           if length cs \<noteq> 2 then Inl (Errorf ''blkid returns invalid output: %s'' [output])
           else if cs ! 0 = ''TYPE'' then blkid_loop output lines (cs ! 1) pttype
           else if cs ! 0 = ''PTTYPE'' then blkid_loop output lines fstype (cs ! 1)
           else blkid_loop output lines fstype pttype)"

definition GetDiskFormat :: "'w exec_run \<Rightarrow> string \<Rightarrow> 'w \<Rightarrow> string result \<times> 'w" where
  "GetDiskFormat run disk w =
     (case run ''blkid'' [''-p'', ''-s'', ''TYPE'', ''-s'', ''PTTYPE'', ''-o'', ''export'', disk] w of
        ((output, Some err), w) \<Rightarrow>
          if err = ExitStatus 2 then (Inr [], w) else (Inl (ErrText (exec_text err)), w)
      | ((output, None), w) \<Rightarrow>
          (case blkid_loop output (strings_Split output newline) [] [] of
             Inl err \<Rightarrow> (Inl err, w)
           | Inr (fstype, pttype) \<Rightarrow>
               if pttype \<noteq> [] then (Inr ''unknown data, probably partitions'', w)
               else (Inr fstype, w)))"

text \<open>The check before the mount: only errors that \<^verbatim>\<open>fsck\<close> could not correct stop the mount.\<close>

definition run_fsck :: "'w exec_run \<Rightarrow> string \<Rightarrow> 'w \<Rightarrow> unit result \<times> 'w" where
  "run_fsck run source w =
     (case run ''fsck'' [''-a'', source] w of
        ((out, None), w) \<Rightarrow> (Inr (), w)
      | ((out, Some err), w) \<Rightarrow>
          if err = ErrExecutableNotFound then (Inr (), w)
          else if err = ExitStatus fsckErrorsCorrected then (Inr (), w)
          else if err = ExitStatus fsckErrorsUncorrected
          then (Inl (Errorf (CHR 0x27 # ''fsck' found errors but could not correct them: device %s, output %s'')
                 [source, out]), w)
          else (Inr (), w))"

definition mkfs_args :: "string \<Rightarrow> string \<Rightarrow> string list" where
  "mkfs_args fstype source =
     (if fstype = ''ext4'' \<or> fstype = ''ext3'' then [''-F'', ''-m0'', source] else [source])"

definition format_and_retry ::
  "('w, 'x) mount_basic_scheme \<Rightarrow> 'w exec_run \<Rightarrow> string \<Rightarrow> string \<Rightarrow> string \<Rightarrow> string list \<Rightarrow> 'w \<Rightarrow> unit result \<times> 'w" where
  "format_and_retry mounter run source target fstype options w =
     (let fstype = (if fstype = [] then ''ext4'' else fstype) in
      case run (''mkfs.'' @ fstype) (mkfs_args fstype source) w of
        ((_, None), w) \<Rightarrow> if_Mount mounter source target fstype options w
      | ((_, Some err), w) \<Rightarrow> (Inl (ErrText (exec_text err)), w))"

definition mount_or_format ::
  "('w, 'x) mount_basic_scheme \<Rightarrow> 'w exec_run \<Rightarrow> bool \<Rightarrow> string \<Rightarrow> string \<Rightarrow> string \<Rightarrow> string list \<Rightarrow> 'w \<Rightarrow> unit result \<times> 'w" where
  "mount_or_format mounter run readOnly source target fstype options w =
     (case if_Mount mounter source target fstype options w of
        (Inr _, w) \<Rightarrow> (Inr (), w)
      | (Inl mountErr, w) \<Rightarrow>
          (case GetDiskFormat run source w of
             (Inl err, w) \<Rightarrow> (Inl err, w)
           | (Inr existingFormat, w) \<Rightarrow>
               if existingFormat = [] then
                 (if readOnly then (Inl (ErrText ''failed to mount unformatted volume as read only''), w)
                  else format_and_retry mounter run source target fstype options w)
               else if fstype = [] \<or> fstype = existingFormat then (Inl mountErr, w)
               else (Inl (Errorf ''failed to mount the volume as %q, it already contains %s. Mount error: %v''
                       [fstype, existingFormat, error_text mountErr]), w)))"

definition formatAndMount ::
  "('w, 'x) mount_basic_scheme \<Rightarrow> 'w exec_run \<Rightarrow> string \<Rightarrow> string \<Rightarrow> string \<Rightarrow> string list \<Rightarrow> 'w \<Rightarrow> unit result \<times> 'w" where
  "formatAndMount mounter run source target fstype options w =
     (let readOnly = list_ex (\<lambda>option. option = ''ro'') options;
          options = options @ [''defaults'']
      in case (if \<not> readOnly then run_fsck run source w else (Inr (), w)) of
           (Inl err, w) \<Rightarrow> (Inl err, w)
         | (Inr _, w) \<Rightarrow> mount_or_format mounter run readOnly source target fstype options w)"

definition FormatAndMount ::
  "('w, 'x) mount_basic_scheme \<Rightarrow> 'w exec_run \<Rightarrow> string \<Rightarrow> string \<Rightarrow> string \<Rightarrow> string list \<Rightarrow> 'w \<Rightarrow> unit result \<times> 'w" where
  "FormatAndMount mounter run source target fstype options w =
     formatAndMount mounter run source target fstype options w"

section \<open>What the programs promise\<close>

datatype disk_format = Unformatted | FS string | Partitions string

text \<open>
  The output of \<^verbatim>\<open>blkid -o export\<close>: the name of the device and the type of its file system or of its
  partition table, one assignment per line.
\<close>

definition blkid_text :: "string \<Rightarrow> disk_format \<Rightarrow> string" where
  "blkid_text disk f = ''DEVNAME='' @ disk @ [newline] @
     (case f of Unformatted \<Rightarrow> [] | FS t \<Rightarrow> ''TYPE='' @ t @ [newline] | Partitions t \<Rightarrow> ''PTTYPE='' @ t @ [newline])"

definition plain_value :: "string \<Rightarrow> bool" where
  "plain_value v \<longleftrightarrow> v \<noteq> [] \<and> CHR ''='' \<notin> set v \<and> newline \<notin> set v"

fun format_ok :: "disk_format \<Rightarrow> bool" where
  "format_ok Unformatted = True"
| "format_ok (FS t) = plain_value t"
| "format_ok (Partitions t) = plain_value t"

abbreviation blkid_args :: "string \<Rightarrow> string list" where
  "blkid_args disk \<equiv> [''-p'', ''-s'', ''TYPE'', ''-s'', ''PTTYPE'', ''-o'', ''export'', disk]"

lemma Split_kv: "CHR ''='' \<notin> set k \<Longrightarrow> CHR ''='' \<notin> set v \<Longrightarrow> strings_Split (k @ ''='' @ v) (CHR ''='') = [k, v]"
  using Split_Join [of "[k, v]" "CHR ''=''"] by simp

lemma Split_lines:
  "\<forall>l \<in> set ls. newline \<notin> set l \<Longrightarrow> strings_Split (concat (map (\<lambda>l. l @ [newline]) ls)) newline = ls @ [[]]"
  unfolding Join_lines by (rule Split_Join) auto

lemma blkid_loop_text:
  assumes "plain_value disk" and "format_ok f"
  shows "blkid_loop (blkid_text disk f) (strings_Split (blkid_text disk f) newline) [] [] =
    Inr (case f of FS t \<Rightarrow> t | _ \<Rightarrow> [], case f of Partitions t \<Rightarrow> t | _ \<Rightarrow> [])"
proof -
  let ?ls = "(''DEVNAME='' @ disk) # (case f of Unformatted \<Rightarrow> [] | FS t \<Rightarrow> [''TYPE='' @ t] | Partitions t \<Rightarrow> [''PTTYPE='' @ t])"
  have printed: "blkid_text disk f = concat (map (\<lambda>l. l @ [newline]) ?ls)"
    by (cases f) (simp_all add: blkid_text_def)
  have "strings_Split (blkid_text disk f) newline = ?ls @ [[]]"
    unfolding printed by (rule Split_lines) (use assms in \<open>auto simp: plain_value_def split: disk_format.splits\<close>)
  then show ?thesis
    using assms Split_kv [of "''DEVNAME''" disk] Split_kv [of "''TYPE''"] Split_kv [of "''PTTYPE''"]
    by (cases f) (simp_all add: plain_value_def)
qed

text \<open>
  The contract of the tools: \<open>fmt\<close> tells what is on a disk. Mounting, checking and probing change no
  format; \<^verbatim>\<open>blkid\<close> reports it, with exit status 2 for a disk without one; \<^verbatim>\<open>mkfs\<close> only touches the disk it
  is given, and the disk has the new format if it succeeds.
\<close>

locale disk_tools =
  fixes mounter :: "('w, 'x) mount_basic_scheme"
    and run :: "'w exec_run"
    and fmt :: "'w \<Rightarrow> string \<Rightarrow> disk_format"
    and disk_ok :: "'w \<Rightarrow> bool"
  assumes mount_keeps: "disk_ok w \<Longrightarrow> fmt (snd (if_Mount mounter src tgt t opts w)) = fmt w
      \<and> disk_ok (snd (if_Mount mounter src tgt t opts w))"
    and fsck_keeps: "disk_ok w \<Longrightarrow> fmt (snd (run ''fsck'' args w)) = fmt w \<and> disk_ok (snd (run ''fsck'' args w))"
    and blkid_keeps: "disk_ok w \<Longrightarrow> fmt (snd (run ''blkid'' args w)) = fmt w \<and> disk_ok (snd (run ''blkid'' args w))"
    and blkid_reports: "disk_ok w \<Longrightarrow> fmt w disk \<noteq> Unformatted \<Longrightarrow> plain_value disk \<Longrightarrow>
      fst (run ''blkid'' (blkid_args disk) w) = (blkid_text disk (fmt w disk), None)"
    and blkid_unformatted: "disk_ok w \<Longrightarrow> fmt w disk = Unformatted \<Longrightarrow>
      snd (fst (run ''blkid'' (blkid_args disk) w)) = Some (ExitStatus 2)"
    and formats: "disk_ok w \<Longrightarrow> format_ok (fmt w disk)"
    and mkfs: "disk_ok w \<Longrightarrow> run (''mkfs.'' @ t) (mkfs_args t src) w = ((out, e), w') \<Longrightarrow> plain_value t \<Longrightarrow>
      (\<forall>d. d \<noteq> src \<longrightarrow> fmt w' d = fmt w d) \<and> (e = None \<longrightarrow> fmt w' src = FS t) \<and> disk_ok w'"
begin

lemma GetDiskFormat_reports:
  assumes "disk_ok w" and "plain_value disk" and "GetDiskFormat run disk w = (r, w')"
  shows "fmt w' = fmt w \<and> disk_ok w' \<and> r = Inr (case fmt w disk of Unformatted \<Rightarrow> [] | FS t \<Rightarrow> t
    | Partitions _ \<Rightarrow> ''unknown data, probably partitions'')"
proof -
  obtain out e v where b: "run ''blkid'' (blkid_args disk) w = ((out, e), v)" by (metis prod.collapse)
  have v: "fmt v = fmt w" "disk_ok v" using blkid_keeps [OF assms(1), of "blkid_args disk"] b by simp_all
  show ?thesis
  proof (cases "fmt w disk = Unformatted")
    case True
    with blkid_unformatted [OF assms(1)] b have "e = Some (ExitStatus 2)" by fastforce
    with b assms(3) v True show ?thesis by (simp add: GetDiskFormat_def)
  next
    case False
    with blkid_reports [OF assms(1) False assms(2)] b have "out = blkid_text disk (fmt w disk)" "e = None" by simp_all
    with b assms(3) v False blkid_loop_text [OF assms(2) formats [OF assms(1), of disk]] formats [OF assms(1), of disk]
    show ?thesis by (cases "fmt w disk") (auto simp: GetDiskFormat_def plain_value_def)
  qed
qed

lemma run_fsck_keeps:
  assumes "disk_ok w"
  shows "fmt (snd (run_fsck run source w)) = fmt w \<and> disk_ok (snd (run_fsck run source w))"
  using fsck_keeps [OF assms, of "[''-a'', source]"]
  by (auto simp: run_fsck_def split: prod.splits option.splits)

lemma format_and_retry_keeps:
  assumes "disk_ok w" and "plain_value (if t = [] then ''ext4'' else t)"
    and "format_and_retry mounter run source target t opts w = (r, w')"
  shows "(\<forall>d. d \<noteq> source \<longrightarrow> fmt w' d = fmt w d) \<and> disk_ok w'
    \<and> (r = Inr () \<longrightarrow> fmt w' source = FS (if t = [] then ''ext4'' else t))"
proof -
  let ?t = "if t = [] then ''ext4'' else t"
  obtain out e v where m: "run (''mkfs.'' @ ?t) (mkfs_args ?t source) w = ((out, e), v)" by (metis prod.collapse)
  from mkfs [OF assms(1) m assms(2)]
  have k: "\<forall>d. d \<noteq> source \<longrightarrow> fmt v d = fmt w d" "e = None \<longrightarrow> fmt v source = FS ?t" "disk_ok v" by blast+
  show ?thesis
  proof (cases e)
    case None
    have "fmt w' = fmt v \<and> disk_ok w'"
      using mount_keeps [OF k(3), of source target ?t opts] assms(3) m None
      unfolding format_and_retry_def Let_def by simp
    with k None show ?thesis by auto
  next
    case (Some err)
    with assms(3) m have "w' = v" "r \<noteq> Inr ()" unfolding format_and_retry_def Let_def by auto
    with k Some show ?thesis by auto
  qed
qed

lemma mount_or_format_keeps:
  assumes "disk_ok w" and "plain_value source" and "plain_value (if t = [] then ''ext4'' else t)"
    and "mount_or_format mounter run readOnly source target t opts w = (r, w')"
  shows "(\<forall>d. d \<noteq> source \<or> fmt w d \<noteq> Unformatted \<or> readOnly \<longrightarrow> fmt w' d = fmt w d) \<and> disk_ok w'"
proof -
  obtain r1 w1 where m: "if_Mount mounter source target t opts w = (r1, w1)" by fastforce
  have w1: "fmt w1 = fmt w" "disk_ok w1" using mount_keeps [OF assms(1), of source target t opts] m by simp_all
  show ?thesis
  proof (cases r1)
    case (Inr u)
    with m assms(4) w1 show ?thesis by (auto simp: mount_or_format_def)
  next
    case (Inl mountErr)
    obtain r2 w2 where g: "GetDiskFormat run source w1 = (r2, w2)" by fastforce
    from GetDiskFormat_reports [OF w1(2) assms(2) g]
    have w2: "fmt w2 = fmt w" "disk_ok w2" and r2: "r2 = Inr (case fmt w source of Unformatted \<Rightarrow> [] | FS t \<Rightarrow> t
        | Partitions _ \<Rightarrow> ''unknown data, probably partitions'')" using w1 by simp_all
    show ?thesis
    proof (cases "fmt w source = Unformatted \<and> \<not> readOnly")
      case True
      with r2 m g Inl assms(4) have "format_and_retry mounter run source target t opts w2 = (r, w')"
        by (simp add: mount_or_format_def)
      from format_and_retry_keeps [OF w2(2) assms(3) this] w2 True show ?thesis by auto
    next
      case False
      then have "w' = w2"
        using r2 m g Inl assms(4) formats [OF assms(1), of source]
        by (cases "fmt w source") (auto simp: mount_or_format_def plain_value_def split: if_splits)
      with w2 show ?thesis by simp
    qed
  qed
qed

lemma formatAndMount_keeps:
  assumes "disk_ok w" and "plain_value source" and "plain_value (if t = [] then ''ext4'' else t)"
    and "FormatAndMount mounter run source target t options w = (r, w')"
  shows "(\<forall>d. d \<noteq> source \<or> fmt w d \<noteq> Unformatted \<or> ''ro'' \<in> set options \<longrightarrow> fmt w' d = fmt w d) \<and> disk_ok w'"
proof -
  let ?ro = "''ro'' \<in> set options"
  have ro: "list_ex (\<lambda>opt. opt = ''ro'') options \<longleftrightarrow> ?ro" by (auto simp: list_ex_iff)
  obtain r1 w1 where f: "(if \<not> ?ro then run_fsck run source w else (Inr (), w)) = (r1, w1)" by fastforce
  have w1: "fmt w1 = fmt w" "disk_ok w1"
    using run_fsck_keeps [OF assms(1), of source] assms(1) f by (auto split: if_splits)
  have eq: "(case (r1, w1) of (Inl err, w) \<Rightarrow> (Inl err, w)
      | (Inr _, w) \<Rightarrow> mount_or_format mounter run ?ro source target t (options @ [''defaults'']) w) = (r, w')"
    using assms(4) f unfolding FormatAndMount_def formatAndMount_def Let_def ro by simp
  show ?thesis
  proof (cases r1)
    case (Inl err)
    with eq w1 show ?thesis by auto
  next
    case (Inr u)
    with eq have "mount_or_format mounter run ?ro source target t (options @ [''defaults'']) w1 = (r, w')" by simp
    from mount_or_format_keeps [OF w1(2) assms(2,3) this] w1 show ?thesis by simp
  qed
qed

end

end
