(* ===== verification/Mount_Subpath.thy ===== *)
theory Mount_Subpath
  imports Mount_Interface
begin

text \<open>
  Subpaths of volumes (\<^verbatim>\<open>pkg/mount/mount_linux.go\<close>): opening and creating directories below a base
  directory without following symbolic links, bind-mounting a subpath and cleaning up afterwards.
  File descriptors are opened and closed explicitly, in the order of the deferred calls.
\<close>

unbundle bit_operations_syntax

section \<open>Definitions\<close>

definition nofollowFlags :: "open_flag list" where "nofollowFlags = [O_RDONLY, O_NOFOLLOW]"
definition openFDFlags :: "open_flag list" where "openFDFlags = [O_NOFOLLOW, O_PATH]"
definition containerSubPathDirectoryName :: string where "containerSubPathDirectoryName = ''volume-subpaths''"

definition S_IFMT :: "32 word" where "S_IFMT = 0xF000"
definition S_IFLNK :: "32 word" where "S_IFLNK = 0xA000"

subsection \<open>Safe opening\<close>

fun safeOpen_loop :: "'w os \<Rightarrow> string \<Rightarrow> string \<Rightarrow> fd \<Rightarrow> string list \<Rightarrow> 'w \<Rightarrow> fd result \<times> 'w" where
  "safeOpen_loop os base currentPath parentFD [] w = (Inr parentFD, w)"
| "safeOpen_loop os base currentPath parentFD (seg # segments) w =
     (let currentPath = filepath_Join [currentPath, seg] in
      if \<not> PathWithinBase currentPath base
      then (Inl (Errorf ''path %s is outside of allowed base %s'' [currentPath, base]), snd (sys_Close os parentFD w))
      else case sys_Openat os parentFD seg openFDFlags w of
             (Inl err, w) \<Rightarrow>
               (Inl (Errorf ''cannot open %s: %s'' [currentPath, error_text err]), snd (sys_Close os parentFD w))
           | (Inr childFD, w) \<Rightarrow>
               (case sys_Fstat os childFD w of
                  Inl err \<Rightarrow>
                    (Inl (Errorf ''Error running fstat on %s with %v'' [currentPath, error_text err]),
                     snd (sys_Close os parentFD (snd (sys_Close os childFD w))))
                | Inr mode \<Rightarrow>
                    if mode AND S_IFMT = S_IFLNK
                    then (Inl (Errorf ''Unexpected symlink found %s'' [currentPath]),
                          snd (sys_Close os parentFD (snd (sys_Close os childFD w))))
                    else (case sys_Close os parentFD w of
                            (Inl err, w) \<Rightarrow>
                              (Inl (Errorf ''closing fd for %q failed: %v'' [filepath_Dir currentPath, error_text err]),
                               snd (sys_Close os parentFD (snd (sys_Close os childFD w))))
                          | (Inr _, w) \<Rightarrow> safeOpen_loop os base currentPath childFD segments w)))"

definition doSafeOpen :: "'w os \<Rightarrow> string \<Rightarrow> string \<Rightarrow> 'w \<Rightarrow> fd result \<times> 'w" where
  "doSafeOpen os pathname base w =
     (let pathname = filepath_Clean pathname; base = filepath_Clean base in
      case filepath_Rel base pathname of
        Inl err \<Rightarrow> (Inl err, w)
      | Inr subpath \<Rightarrow>
          (let segments = strings_Split subpath (CHR ''/'') in
           case sys_Open os base nofollowFlags w of
             (Inl err, w) \<Rightarrow> (Inl (Errorf ''cannot open directory %s: %s'' [base, error_text err]), w)
           | (Inr parentFD, w) \<Rightarrow> safeOpen_loop os base base parentFD segments w))"

subsection \<open>Safe creation of directories\<close>

fun existing_loop :: "'w os \<Rightarrow> string \<Rightarrow> string \<Rightarrow> fd \<Rightarrow> string list \<Rightarrow> 'w \<Rightarrow> (string \<times> string list) result \<times> 'w" where
  "existing_loop os pathname currentPath fd [] w = (Inr (pathname, []), snd (sys_Close os fd w))"
| "existing_loop os pathname currentPath fd (dir # dirs) w =
     (case sys_Openat os fd dir [O_PATH] w of
        (Inl err, w) \<Rightarrow>
          (let w = snd (sys_Close os fd w) in
           if os_IsNotExist err then (Inr (currentPath, dir # dirs), w) else (Inl err, w))
      | (Inr childFD, w) \<Rightarrow>
          existing_loop os pathname (filepath_Join [currentPath, dir]) childFD dirs (snd (sys_Close os fd w)))"

definition findExistingPrefix ::
  "'w os \<Rightarrow> string \<Rightarrow> string \<Rightarrow> 'w \<Rightarrow> (string \<times> string list) result \<times> 'w" where
  "findExistingPrefix os base pathname w =
     (case filepath_Rel base pathname of
        Inl err \<Rightarrow> (Inl err, w)
      | Inr rel \<Rightarrow>
          (let dirs = strings_Split rel (CHR ''/'') in
           case sys_Open os base [O_RDONLY] w of
             (Inl err, w) \<Rightarrow> (Inl (Errorf ''error opening %s: %s'' [base, error_text err]), w)
           | (Inr fd, w) \<Rightarrow> existing_loop os pathname base fd dirs w))"

text \<open>\<^verbatim>\<open>os.FileMode\<close> translated to the bits of \<^verbatim>\<open>fchmod\<close>.\<close>

definition kernelPerm :: "32 word \<Rightarrow> 32 word" where
  "kernelPerm perm =
     (let k = perm AND ModePerm;
          k = (if perm AND ModeSetgid \<noteq> 0 then k OR 0x400 else k);
          k = (if perm AND ModeSetuid \<noteq> 0 then k OR 0x800 else k);
          k = (if perm AND ModeSticky \<noteq> 0 then k OR 0x200 else k)
      in k)"

fun mkdir_loop :: "'w os \<Rightarrow> 32 word \<Rightarrow> string \<Rightarrow> fd \<Rightarrow> string list \<Rightarrow> 'w \<Rightarrow> unit result \<times> 'w" where
  "mkdir_loop os perm currentPath parentFD [] w =
     (case sys_Fchmod os parentFD (kernelPerm perm) w of
        (Inl err, w) \<Rightarrow>
          (Inl (Errorf ''chmod %q failed: %s'' [currentPath, error_text err]), snd (sys_Close os parentFD w))
      | (Inr _, w) \<Rightarrow> (Inr (), snd (sys_Close os parentFD w)))"
| "mkdir_loop os perm currentPath parentFD (dir # toCreate) w =
     (let currentPath = filepath_Join [currentPath, dir] in
      case sys_Mkdirat os parentFD currentPath perm w of
        (Inl err, w) \<Rightarrow>
          (Inl (Errorf ''cannot create directory %s: %s'' [currentPath, error_text err]), snd (sys_Close os parentFD w))
      | (Inr _, w) \<Rightarrow>
          (case sys_Openat os parentFD dir nofollowFlags w of
             (Inl err, w) \<Rightarrow>
               (Inl (Errorf ''cannot open %s: %s'' [currentPath, error_text err]), snd (sys_Close os parentFD w))
           | (Inr childFD, w) \<Rightarrow>
               mkdir_loop os perm currentPath childFD toCreate (snd (sys_Close os parentFD w))))"

definition doSafeMakeDir :: "'w os \<Rightarrow> string \<Rightarrow> string \<Rightarrow> 32 word \<Rightarrow> 'w \<Rightarrow> unit result \<times> 'w" where
  "doSafeMakeDir os pathname base perm w =
     (if \<not> PathWithinBase pathname base
      then (Inl (Errorf ''path %s is outside of allowed base %s'' [pathname, base]), w)
      else case os_Stat os pathname w of
             Inr s \<Rightarrow> if mode_IsDir (fi_Mode s) then (Inr (), w) else (Inl (OsError ENOTDIR), w)
           | Inl _ \<Rightarrow>
               (case findExistingPrefix os base pathname w of
                  (Inl err, w) \<Rightarrow> (Inl (Errorf ''error opening directory %s: %s'' [pathname, error_text err]), w)
                | (Inr (existingPath, toCreate), w) \<Rightarrow>
                    (case os_EvalSymlinks os existingPath w of
                       Inl err \<Rightarrow> (Inl (Errorf ''error opening directory %s: %s'' [existingPath, error_text err]), w)
                     | Inr fullExistingPath \<Rightarrow>
                         if \<not> PathWithinBase fullExistingPath base
                         then (Inl (Errorf ''path %s is outside of allowed base %s'' [fullExistingPath, ''%!s(<nil>)'']), w)
                         else (case doSafeOpen os fullExistingPath base w of
                                 (Inl err, w) \<Rightarrow>
                                   (Inl (Errorf ''cannot open directory %s: %s'' [existingPath, error_text err]), w)
                               | (Inr parentFD, w) \<Rightarrow> mkdir_loop os perm fullExistingPath parentFD toCreate w))))"

definition Mounter_SafeMakeDir :: "'w os \<Rightarrow> string \<Rightarrow> string \<Rightarrow> 32 word \<Rightarrow> 'w \<Rightarrow> unit result \<times> 'w" where
  "Mounter_SafeMakeDir os subdir base perm w =
     (case os_EvalSymlinks os base w of
        Inl err \<Rightarrow> (Inl (Errorf ''error resolving symlinks in %s: %s'' [base, error_text err]), w)
      | Inr realBase \<Rightarrow> doSafeMakeDir os (filepath_Join [realBase, subdir]) realBase perm w)"

subsection \<open>Removing directories\<close>

text \<open>
  The loop goes up from \<open>curDir\<close> until it meets \<open>baseDir\<close>; \<open>None\<close> stands for a loop that does not
  end, which happens when it passes \<open>baseDir\<close> by.
\<close>

partial_function (option) removeEmptyDirs_loop :: "'w os \<Rightarrow> string \<Rightarrow> string \<Rightarrow> 'w \<Rightarrow> (unit result \<times> 'w) option" where
  "removeEmptyDirs_loop os baseDir curDir w =
     (if curDir = baseDir then Some (Inr (), w)
      else case os_Stat os curDir w of
             Inl err \<Rightarrow>
               if os_IsNotExist err then removeEmptyDirs_loop os baseDir (filepath_Dir curDir) w
               else Some (Inl (Errorf ''error stat %q: %v'' [curDir, error_text err]), w)
           | Inr s \<Rightarrow>
               if \<not> mode_IsDir (fi_Mode s) then Some (Inl (Errorf ''path %q not a directory'' [curDir]), w)
               else let (r, w) = os_Remove os curDir w in
                    case r of
                      Inl err \<Rightarrow>
                        if os_IsExist err then Some (Inr (), w)
                        else Some (Inl (Errorf ''error removing directory %q: %v'' [curDir, error_text err]), w)
                    | Inr _ \<Rightarrow> removeEmptyDirs_loop os baseDir (filepath_Dir curDir) w)"

definition removeEmptyDirs :: "'w os \<Rightarrow> string \<Rightarrow> string \<Rightarrow> 'w \<Rightarrow> (unit result \<times> 'w) option" where
  "removeEmptyDirs os baseDir endDir w =
     (if \<not> PathWithinBase endDir baseDir
      then Some (Inl (Errorf ''endDir %q is not within baseDir %q'' [endDir, baseDir]), w)
      else removeEmptyDirs_loop os baseDir endDir w)"

subsection \<open>Bind mounts of subpaths\<close>

record Subpath =
  VolumeMountIndex :: int
  sp_Path :: string
  VolumeName :: string
  VolumePath :: string
  PodDir :: string
  ContainerName :: string

definition getSubpathBindTarget :: "Subpath \<Rightarrow> string" where
  "getSubpathBindTarget subpath =
     filepath_Join [PodDir subpath, containerSubPathDirectoryName, VolumeName subpath, ContainerName subpath,
       strconv_Itoa (VolumeMountIndex subpath)]"

definition safeOpenSubPath :: "'w os \<Rightarrow> Subpath \<Rightarrow> 'w \<Rightarrow> fd result \<times> 'w" where
  "safeOpenSubPath os subpath w =
     (if \<not> PathWithinBase (sp_Path subpath) (VolumePath subpath)
      then (Inl (Errorf ''subpath %q not within volume path %q'' [sp_Path subpath, VolumePath subpath]), w)
      else case doSafeOpen os (sp_Path subpath) (VolumePath subpath) w of
             (Inl err, w) \<Rightarrow> (Inl (Errorf ''error opening subpath %v: %v'' [sp_Path subpath, error_text err]), w)
           | (Inr fd, w) \<Rightarrow> (Inr fd, w))"

definition create_bind_leaf :: "'w os \<Rightarrow> string \<Rightarrow> Subpath \<Rightarrow> 'w \<Rightarrow> (bool \<times> string) result \<times> 'w" where
  "create_bind_leaf os bindPathTarget subpath w =
     (case os_Lstat os (sp_Path subpath) w of
        Inl err \<Rightarrow> (Inl (Errorf ''lstat %s failed: %s'' [sp_Path subpath, error_text err]), w)
      | Inr t \<Rightarrow>
          if fi_Mode t AND ModeDir \<noteq> 0 then
            (case os_Mkdir os bindPathTarget 0x1E8 w of
               (Inl err, w) \<Rightarrow>
                 if \<not> os_IsExist err
                 then (Inl (Errorf ''error creating directory %s: %s'' [bindPathTarget, error_text err]), w)
                 else (Inr (False, bindPathTarget), w)
             | (Inr _, w) \<Rightarrow> (Inr (False, bindPathTarget), w))
          else
            (case os_WriteFile os bindPathTarget [] 0x1A0 w of
               (Inl err, w) \<Rightarrow> (Inl (Errorf ''error creating file %s: %s'' [bindPathTarget, error_text err]), w)
             | (Inr _, w) \<Rightarrow> (Inr (False, bindPathTarget), w)))"

definition create_bind_target :: "'w os \<Rightarrow> string \<Rightarrow> Subpath \<Rightarrow> 'w \<Rightarrow> (bool \<times> string) result \<times> 'w" where
  "create_bind_target os bindPathTarget subpath w =
     (let bindParent = filepath_Dir bindPathTarget;
          (made, w) = os_MkdirAll os bindParent 0x1E8 w
      in case made of
           Inl err \<Rightarrow>
             if \<not> os_IsExist err
             then (Inl (Errorf ''error creating directory %s: %s'' [bindParent, error_text err]), w)
             else create_bind_leaf os bindPathTarget subpath w
         | Inr _ \<Rightarrow> create_bind_leaf os bindPathTarget subpath w)"

definition prepareSubpathTarget ::
  "'w os \<Rightarrow> ('w, 'x) mount_basic_scheme \<Rightarrow> Subpath \<Rightarrow> 'w \<Rightarrow> (bool \<times> string) result \<times> 'w" where
  "prepareSubpathTarget os mounter subpath w =
     (let bindPathTarget = getSubpathBindTarget subpath;
          ((notMount, checkErr), w) = IsNotMountPoint mounter bindPathTarget w
      in case checkErr of
           Some err \<Rightarrow>
             if \<not> os_IsNotExist err
             then (Inl (Errorf ''error checking path %s for mount: %s'' [bindPathTarget, error_text err]), w)
             else create_bind_target os bindPathTarget subpath w
         | None \<Rightarrow>
             if \<not> notMount then (Inr (True, bindPathTarget), w)
             else create_bind_target os bindPathTarget subpath w)"

definition doCleanSubPath ::
  "'w os \<Rightarrow> ('w, 'x) mount_basic_scheme \<Rightarrow> string \<Rightarrow> string \<Rightarrow> 'w \<Rightarrow> unit result \<times> 'w" where
  "doCleanSubPath os mounter fullContainerDirPath subPathIndex w =
     (let fullSubPath = filepath_Join [fullContainerDirPath, subPathIndex];
          ((notMnt, checkErr), w) = IsNotMountPoint mounter fullSubPath w
      in case checkErr of
           Some err \<Rightarrow> (Inl (Errorf ''error checking %s for mount: %s'' [fullSubPath, error_text err]), w)
         | None \<Rightarrow>
             (case (if \<not> notMnt then if_Unmount mounter fullSubPath w else (Inr (), w)) of
                (Inl err, w) \<Rightarrow> (Inl (Errorf ''error unmounting %s: %s'' [fullSubPath, error_text err]), w)
              | (Inr _, w) \<Rightarrow>
                  (case os_Remove os fullSubPath w of
                     (Inl err, w) \<Rightarrow> (Inl (Errorf ''error deleting %s: %s'' [fullSubPath, error_text err]), w)
                   | (Inr _, w) \<Rightarrow> (Inr (), w))))"

definition cleanSubPath ::
  "'w os \<Rightarrow> ('w, 'x) mount_basic_scheme \<Rightarrow> Subpath \<Rightarrow> 'w \<Rightarrow> (unit result \<times> 'w) option" where
  "cleanSubPath os mounter subpath w =
     (let containerDir = filepath_Join [PodDir subpath, containerSubPathDirectoryName, VolumeName subpath, ContainerName subpath];
          (cleaned, w) = doCleanSubPath os mounter containerDir (strconv_Itoa (VolumeMountIndex subpath)) w
      in case cleaned of
           Inl err \<Rightarrow> if \<not> os_IsNotExist err then Some (Inl err, w) else removeEmptyDirs os (PodDir subpath) containerDir w
         | Inr _ \<Rightarrow> removeEmptyDirs os (PodDir subpath) containerDir w)"

fun clean_container :: "'w os \<Rightarrow> ('w, 'x) mount_basic_scheme \<Rightarrow> string \<Rightarrow> dir_entry list \<Rightarrow> 'w \<Rightarrow> unit result \<times> 'w" where
  "clean_container os mounter fullContainerDirPath [] w = (Inr (), w)"
| "clean_container os mounter fullContainerDirPath (subPath # subPaths) w =
     (case doCleanSubPath os mounter fullContainerDirPath (entry_Name subPath) w of
        (Inl err, w) \<Rightarrow> (Inl err, w)
      | (Inr _, w) \<Rightarrow> clean_container os mounter fullContainerDirPath subPaths w)"

fun clean_containers :: "'w os \<Rightarrow> ('w, 'x) mount_basic_scheme \<Rightarrow> string \<Rightarrow> dir_entry list \<Rightarrow> 'w \<Rightarrow> unit result \<times> 'w" where
  "clean_containers os mounter subPathDir [] w = (Inr (), w)"
| "clean_containers os mounter subPathDir (containerDir # containerDirs) w =
     (if \<not> entry_IsDir containerDir then clean_containers os mounter subPathDir containerDirs w
      else let fullContainerDirPath = filepath_Join [subPathDir, entry_Name containerDir] in
           case os_ReadDir os fullContainerDirPath w of
             Inl err \<Rightarrow> (Inl (Errorf ''error reading %s: %s'' [fullContainerDirPath, error_text err]), w)
           | Inr subPaths \<Rightarrow>
               (case clean_container os mounter fullContainerDirPath subPaths w of
                  (Inl err, w) \<Rightarrow> (Inl err, w)
                | (Inr _, w) \<Rightarrow>
                    (case os_Remove os fullContainerDirPath w of
                       (Inl err, w) \<Rightarrow> (Inl (Errorf ''error deleting %s: %s'' [fullContainerDirPath, error_text err]), w)
                     | (Inr _, w) \<Rightarrow> clean_containers os mounter subPathDir containerDirs w)))"

definition doCleanSubPaths ::
  "'w os \<Rightarrow> ('w, 'x) mount_basic_scheme \<Rightarrow> string \<Rightarrow> string \<Rightarrow> 'w \<Rightarrow> unit result \<times> 'w" where
  "doCleanSubPaths os mounter podDir volumeName w =
     (let subPathDir = filepath_Join [podDir, containerSubPathDirectoryName, volumeName] in
      case os_ReadDir os subPathDir w of
        Inl err \<Rightarrow>
          if os_IsNotExist err then (Inr (), w)
          else (Inl (Errorf ''error reading %s: %s'' [subPathDir, error_text err]), w)
      | Inr containerDirs \<Rightarrow>
          (case clean_containers os mounter subPathDir containerDirs w of
             (Inl err, w) \<Rightarrow> (Inl err, w)
           | (Inr _, w) \<Rightarrow>
               (case os_Remove os subPathDir w of
                  (Inl err, w) \<Rightarrow> (Inl (Errorf ''error deleting %s: %s'' [subPathDir, error_text err]), w)
                | (Inr _, w) \<Rightarrow>
                    (let podSubPathDir = filepath_Join [podDir, containerSubPathDirectoryName] in
                     case os_Remove os podSubPathDir w of
                       (Inl err, w) \<Rightarrow>
                         if \<not> os_IsExist err
                         then (Inl (Errorf ''error deleting %s: %s'' [podSubPathDir, error_text err]), w)
                         else (Inr (), w)
                     | (Inr _, w) \<Rightarrow> (Inr (), w)))))"

definition bind_opened ::
  "'w os \<Rightarrow> ('w, 'x) mount_basic_scheme \<Rightarrow> Subpath \<Rightarrow> fd \<Rightarrow> 'w \<Rightarrow> (string result \<times> 'w) option" where
  "bind_opened os mounter subpath fd w =
     (case prepareSubpathTarget os mounter subpath w of
        (Inl err, w) \<Rightarrow> Some (Inl err, w)
      | (Inr (alreadyMounted, bindPathTarget), w) \<Rightarrow>
          if alreadyMounted then Some (Inr bindPathTarget, w)
          else let mountSource = sprintf ''/proc/%d/fd/%v'' [strconv_Itoa (os_Getpid os w), strconv_Itoa fd] in
               case if_Mount mounter mountSource bindPathTarget [] [''bind''] w of
                 (Inr _, w) \<Rightarrow> Some (Inr bindPathTarget, w)
               | (Inl err, w) \<Rightarrow>
                   (case cleanSubPath os mounter subpath w of
                      None \<Rightarrow> None
                    | Some (_, w) \<Rightarrow>
                        Some (Inl (Errorf ''error mounting %s: %s'' [sp_Path subpath, error_text err]), w)))"

definition doBindSubPath ::
  "'w os \<Rightarrow> ('w, 'x) mount_basic_scheme \<Rightarrow> Subpath \<Rightarrow> 'w \<Rightarrow> (string result \<times> 'w) option" where
  "doBindSubPath os mounter subpath w =
     (case os_EvalSymlinks os (VolumePath subpath) w of
        Inl err \<Rightarrow> Some (Inl (Errorf ''error resolving symlinks in %q: %v'' [VolumePath subpath, error_text err]), w)
      | Inr newVolumePath \<Rightarrow>
          (case os_EvalSymlinks os (sp_Path subpath) w of
             Inl err \<Rightarrow> Some (Inl (Errorf ''error resolving symlinks in %q: %v'' [sp_Path subpath, error_text err]), w)
           | Inr newPath \<Rightarrow>
               (let subpath = subpath\<lparr>VolumePath := newVolumePath, sp_Path := newPath\<rparr> in
                case safeOpenSubPath os subpath w of
                  (Inl err, w) \<Rightarrow> Some (Inl err, w)
                | (Inr fd, w) \<Rightarrow>
                    (case bind_opened os mounter subpath fd w of
                       None \<Rightarrow> None
                     | Some (r, w) \<Rightarrow> Some (r, snd (sys_Close os fd w))))))"

section \<open>Removing directories\<close>

text \<open>The directories strictly below a base, by their elements.\<close>

definition strictly_below :: "string list \<Rightarrow> string \<Rightarrow> bool" where
  "strictly_below bs d \<longleftrightarrow> (\<exists>es. es \<noteq> [] \<and> list_all plain_elem es \<and> d = path_of True (bs @ es))"

lemma removeEmptyDirs_loop_total:
  assumes "list_all plain_elem (bs @ es)"
    and "\<And>d v. strictly_below bs d \<Longrightarrow> Q v \<Longrightarrow> Q (snd (os_Remove os d v))" and "Q w"
  shows "\<exists>r w'. removeEmptyDirs_loop os (path_of True bs) (path_of True (bs @ es)) w = Some (r, w') \<and> Q w'"
  using assms(1,3)
proof (induction es arbitrary: w rule: rev_induct)
  case Nil
  then show ?case by (subst removeEmptyDirs_loop.simps) simp
next
  case (snoc e es)
  let ?cur = "path_of True (bs @ es @ [e])"
  have plain: "list_all plain_elem (bs @ es)" "list_all plain_elem (bs @ es @ [e])" "list_all plain_elem bs"
    using snoc.prems(1) by simp_all
  have ne: "?cur \<noteq> path_of True bs" using path_of_inj [OF plain(2,3)] by simp
  have dir: "filepath_Dir ?cur = path_of True (bs @ es)" using Dir_path_of [of "bs @ es" e] plain(2) by simp
  have "strictly_below bs ?cur" unfolding strictly_below_def using plain(2) by (intro exI [of _ "es @ [e]"]) simp
  then have Q: "Q (snd (os_Remove os ?cur w))" using assms(2) snoc.prems(2) by blast
  obtain r w1 where rm: "os_Remove os ?cur w = (r, w1)" by fastforce
  have IH: "\<exists>r w'. removeEmptyDirs_loop os (path_of True bs) (path_of True (bs @ es)) v = Some (r, w') \<and> Q w'"
    if "Q v" for v using snoc.IH [OF plain(1) that] .
  show ?case
  proof (cases "os_Stat os ?cur w")
    case (Inl err)
    then show ?thesis using ne dir IH snoc.prems(2) by (subst removeEmptyDirs_loop.simps) simp
  next
    case (Inr s)
    show ?thesis
    proof (cases "mode_IsDir (fi_Mode s)")
      case True
      with Inr ne dir rm IH Q show ?thesis
        by (subst removeEmptyDirs_loop.simps) (auto split: sum.split)
    next
      case False
      with Inr ne snoc.prems(2) show ?thesis by (subst removeEmptyDirs_loop.simps) simp
    qed
  qed
qed

text \<open>
  If the base is not written in its clean form, the loop passes it by: below \<^verbatim>\<open>/a/\<close> it goes on to remove
  the directory \<^verbatim>\<open>/a\<close> itself and looks at the root directory next.
\<close>

theorem removeEmptyDirs_passes_base:
  assumes "os_Stat os ''/a'' w = Inr s" and "mode_IsDir (fi_Mode s)" and "os_Remove os ''/a'' w = (Inr (), w1)"
  shows "removeEmptyDirs os ''/a/'' ''/a'' w = removeEmptyDirs_loop os ''/a/'' ''/'' w1"
proof -
  have "PathWithinBase ''/a'' ''/a/''" by code_simp
  moreover have "filepath_Dir ''/a'' = ''/''" by code_simp
  ultimately show ?thesis
    using assms by (simp add: removeEmptyDirs_def removeEmptyDirs_loop.simps [of os _ "''/a''"])
qed

section \<open>File descriptors\<close>

text \<open>
  What the system promises about descriptors: opening gives a new one or none, closing frees it, and
  the other calls on descriptors leave the table alone.
\<close>

locale fd_table =
  fixes os :: "'w os" and fds :: "'w \<Rightarrow> fd set"
  assumes open_new: "sys_Open os p fl w = (Inr f, w') \<Longrightarrow> f \<notin> fds w \<and> fds w' = insert f (fds w)"
    and open_err: "sys_Open os p fl w = (Inl e, w') \<Longrightarrow> fds w' = fds w"
    and openat_new: "sys_Openat os d p fl w = (Inr f, w') \<Longrightarrow> f \<notin> fds w \<and> fds w' = insert f (fds w)"
    and openat_err: "sys_Openat os d p fl w = (Inl e, w') \<Longrightarrow> fds w' = fds w"
    and close: "fds (snd (sys_Close os f w)) = fds w - {f}"
    and mkdirat: "fds (snd (sys_Mkdirat os f p perm w)) = fds w"
    and fchmod: "fds (snd (sys_Fchmod os f perm w)) = fds w"
begin

lemma close_snd: "sys_Close os f w = (r, w') \<Longrightarrow> fds w' = fds w - {f}"
  using close [of f w] by simp

lemma safeOpen_loop_fds:
  "fds w = insert fd F \<Longrightarrow> fd \<notin> F \<Longrightarrow> safeOpen_loop os base cur fd segs w = (r, w') \<Longrightarrow>
   (case r of Inl _ \<Rightarrow> fds w' = F | Inr f \<Rightarrow> f \<notin> F \<and> fds w' = insert f F)"
proof (induction segs arbitrary: cur fd w)
  case Nil
  then show ?case by auto
next
  case (Cons seg segs)
  let ?cur = "filepath_Join [cur, seg]"
  obtain o1 w1 where op: "sys_Openat os fd seg openFDFlags w = (o1, w1)" by fastforce
  show ?case
  proof (cases "PathWithinBase ?cur base")
    case False
    with Cons.prems close [of fd w] show ?thesis by auto
  next
    case within: True
    show ?thesis
    proof (cases o1)
      case (Inl err)
      then have "fds w1 = fds w" using op openat_err by blast
      with within op Inl Cons.prems close [of fd w1] show ?thesis by auto
    next
      case (Inr child)
      then have c: "child \<notin> fds w" "fds w1 = insert child (fds w)" using op openat_new by blast+
      have both: "fds (snd (sys_Close os fd (snd (sys_Close os child v)))) = fds v - {child} - {fd}" for v
        by (simp add: close)
      obtain o2 w2 where cl: "sys_Close os fd w1 = (o2, w2)" by fastforce
      then have w2: "fds w2 = insert child F" using close_snd [OF cl] c Cons.prems(1,2) by auto
      have err: "fds w1 - {child} - {fd} = F" "fds w2 - {child} - {fd} = F" "child \<notin> F"
        using c w2 Cons.prems(1,2) by auto
      show ?thesis
      proof (cases "\<exists>mode. sys_Fstat os child w1 = Inr mode \<and> mode AND S_IFMT \<noteq> S_IFLNK \<and> o2 = Inr ()")
        case True
        then have "safeOpen_loop os base ?cur child segs w2 = (r, w')"
          using within op Inr cl Cons.prems(3) by auto
        then show ?thesis using Cons.IH [OF w2 err(3)] by blast
      next
        case False
        then have "isl r \<and> (w' = snd (sys_Close os fd (snd (sys_Close os child w1)))
            \<or> w' = snd (sys_Close os fd (snd (sys_Close os child w2))))"
          using within op Inr cl Cons.prems(3)
          by (cases "sys_Fstat os child w1"; cases o2) (auto simp: Let_def split: if_splits)
        then show ?thesis using both err by (cases r) auto
      qed
    qed
  qed
qed

lemma doSafeOpen_fds:
  assumes "doSafeOpen os p base w = (r, w')"
  shows "case r of Inl _ \<Rightarrow> fds w' = fds w | Inr f \<Rightarrow> f \<notin> fds w \<and> fds w' = insert f (fds w)"
proof (cases "filepath_Rel (filepath_Clean base) (filepath_Clean p)")
  case (Inl e)
  with assms show ?thesis by (auto simp: doSafeOpen_def Let_def)
next
  case (Inr sub)
  obtain o1 w1 where op: "sys_Open os (filepath_Clean base) nofollowFlags w = (o1, w1)" by fastforce
  show ?thesis
  proof (cases o1)
    case (Inl e)
    with op open_err [of "filepath_Clean base" nofollowFlags w e w1] assms Inr show ?thesis
      by (auto simp: doSafeOpen_def Let_def)
  next
    case (Inr f)
    with op open_new have f: "f \<notin> fds w" "fds w1 = insert f (fds w)" by blast+
    have "safeOpen_loop os (filepath_Clean base) (filepath_Clean base) f (strings_Split sub (CHR ''/'')) w1 = (r, w')"
      using assms op Inr \<open>filepath_Rel (filepath_Clean base) (filepath_Clean p) = Inr sub\<close>
      by (simp add: doSafeOpen_def Let_def)
    from safeOpen_loop_fds [OF f(2) f(1) this] show ?thesis .
  qed
qed

lemma existing_loop_fds:
  "fds w = insert fd F \<Longrightarrow> fd \<notin> F \<Longrightarrow> fds (snd (existing_loop os p cur fd dirs w)) = F"
proof (induction dirs arbitrary: cur fd w)
  case Nil
  then show ?case using close [of fd w] by simp
next
  case (Cons dir dirs)
  obtain o1 w1 where op: "sys_Openat os fd dir [O_PATH] w = (o1, w1)" by fastforce
  show ?case
  proof (cases o1)
    case (Inl e)
    then have "fds w1 = fds w" using op openat_err by blast
    with op Inl Cons.prems close [of fd w1] show ?thesis by (simp add: Let_def)
  next
    case (Inr child)
    then have c: "child \<notin> fds w" "fds w1 = insert child (fds w)" using op openat_new by blast+
    have "fds (snd (sys_Close os fd w1)) = insert child F" "child \<notin> F"
      using c Cons.prems close [of fd w1] by auto
    from Cons.IH [OF this] op Inr show ?thesis by simp
  qed
qed

lemma findExistingPrefix_fds: "fds (snd (findExistingPrefix os base p w)) = fds w"
proof (cases "filepath_Rel base p")
  case (Inr rel)
  obtain o1 w1 where op: "sys_Open os base [O_RDONLY] w = (o1, w1)" by fastforce
  then show ?thesis
    using open_err [of base "[O_RDONLY]" w _ w1] open_new [of base "[O_RDONLY]" w _ w1] existing_loop_fds Inr
    by (cases o1) (auto simp: findExistingPrefix_def Let_def)
qed (simp add: findExistingPrefix_def)

lemma mkdir_loop_fds:
  "fds w = insert fd F \<Longrightarrow> fd \<notin> F \<Longrightarrow> fds (snd (mkdir_loop os perm cur fd dirs w)) = F"
proof (induction dirs arbitrary: cur fd w)
  case Nil
  obtain o1 w1 where f: "sys_Fchmod os fd (kernelPerm perm) w = (o1, w1)" by fastforce
  then have "fds w1 = fds w" using fchmod [of fd "kernelPerm perm" w] by simp
  with f Nil close [of fd w1] show ?case by (cases o1) simp_all
next
  case (Cons dir dirs)
  let ?cur = "filepath_Join [cur, dir]"
  obtain o1 w1 where m: "sys_Mkdirat os fd ?cur perm w = (o1, w1)" by fastforce
  have w1: "fds w1 = fds w" using mkdirat [of fd ?cur perm w] m by simp
  show ?case
  proof (cases o1)
    case (Inl e)
    with m w1 Cons.prems close [of fd w1] show ?thesis by (simp add: Let_def)
  next
    case (Inr u)
    obtain o2 w2 where op: "sys_Openat os fd dir nofollowFlags w1 = (o2, w2)" by fastforce
    show ?thesis
    proof (cases o2)
      case (Inl e)
      then have "fds w2 = fds w1" using op openat_err by blast
      with m Inr op Inl w1 Cons.prems close [of fd w2] show ?thesis by (simp add: Let_def)
    next
      case child: (Inr child)
      then have c: "child \<notin> fds w1" "fds w2 = insert child (fds w1)" using op openat_new by blast+
      have "fds (snd (sys_Close os fd w2)) = insert child F" "child \<notin> F"
        using c w1 Cons.prems close [of fd w2] by auto
      from Cons.IH [OF this] m Inr op child show ?thesis by (simp add: Let_def)
    qed
  qed
qed

lemma doSafeMakeDir_fds: "fds (snd (doSafeMakeDir os p base perm w)) = fds w"
proof -
  obtain r1 w1 where f: "findExistingPrefix os base p w = (r1, w1)" by fastforce
  have w1: "fds w1 = fds w" using findExistingPrefix_fds [of base p w] f by simp
  have mk: "fds (snd (case doSafeOpen os full base w1 of (Inl err, w) \<Rightarrow> (Inl (e err), w)
      | (Inr parentFD, w) \<Rightarrow> mkdir_loop os perm full parentFD dirs w)) = fds w" for full dirs e
  proof -
    obtain r2 w2 where d: "doSafeOpen os full base w1 = (r2, w2)" by fastforce
    from doSafeOpen_fds [OF d] w1 mkdir_loop_fds [of w2 _ "fds w" perm full dirs] d show ?thesis
      by (cases r2) auto
  qed
  show ?thesis
    unfolding doSafeMakeDir_def
    by (auto simp: f w1 mk split: sum.split)
qed

end

text \<open>The same for the operations that also mount: the mounter and the calls on directories keep the table.\<close>

lemma removeEmptyDirs_loop_keeps:
  assumes "removeEmptyDirs_loop os base cur w = Some y"
  shows "(\<forall>d v. Q v \<longrightarrow> Q (snd (os_Remove os d v))) \<longrightarrow> Q w \<longrightarrow> Q (snd y)"
proof (rule removeEmptyDirs_loop.raw_induct [OF _ assms], intro impI)
  fix loop os base cur w and y :: "unit result \<times> 'a"
  assume IH: "\<And>os base cur w y. loop os base cur w = Some y \<Longrightarrow>
      (\<forall>d v. Q v \<longrightarrow> Q (snd (os_Remove os d v))) \<longrightarrow> Q w \<longrightarrow> Q (snd y)"
    and eq: "(if cur = base then Some (Inr (), w)
      else case os_Stat os cur w of
             Inl err \<Rightarrow>
               if os_IsNotExist err then loop os base (filepath_Dir cur) w
               else Some (Inl (Errorf ''error stat %q: %v'' [cur, error_text err]), w)
           | Inr s \<Rightarrow>
               if \<not> mode_IsDir (fi_Mode s) then Some (Inl (Errorf ''path %q not a directory'' [cur]), w)
               else let (r, w) = os_Remove os cur w in
                    case r of
                      Inl err \<Rightarrow>
                        if os_IsExist err then Some (Inr (), w)
                        else Some (Inl (Errorf ''error removing directory %q: %v'' [cur, error_text err]), w)
                    | Inr _ \<Rightarrow> loop os base (filepath_Dir cur) w) = Some y"
    and Q: "\<forall>d v. Q v \<longrightarrow> Q (snd (os_Remove os d v))" "Q w"
  obtain r1 w1 where rm: "os_Remove os cur w = (r1, w1)" by fastforce
  with Q have "Q w1" by (metis snd_conv)
  with eq rm Q IH [of os base "filepath_Dir cur"] show "Q (snd y)"
    by (auto simp: Let_def split: if_splits sum.splits)
qed

locale fd_mounts = fd_table os fds
  for os :: "'w os" and fds :: "'w \<Rightarrow> fd set" +
  fixes mounter :: "('w, 'x) mount_basic_scheme"
  assumes mount_fds: "fds (snd (if_Mount mounter s t ty opts w)) = fds w"
    and unmount_fds: "fds (snd (if_Unmount mounter t w)) = fds w"
    and list_fds: "fds (snd (if_List mounter w)) = fds w"
    and mkdirall_fds: "fds (snd (os_MkdirAll os p perm w)) = fds w"
    and mkdir_fds: "fds (snd (os_Mkdir os p perm w)) = fds w"
    and remove_fds: "fds (snd (os_Remove os p w)) = fds w"
    and write_fds: "fds (snd (os_WriteFile os p c perm w)) = fds w"
begin

lemma IsNotMountPoint_fds: "fds (snd (IsNotMountPoint mounter p w)) = fds w"
proof -
  obtain n e where k: "if_IsLikelyNotMountPoint mounter p w = (n, e)" by fastforce
  obtain r w1 where l: "if_List mounter w = (r, w1)" by fastforce
  then have "fds w1 = fds w" using list_fds [of w] by simp
  then show ?thesis unfolding IsNotMountPoint_def
    by (cases e; cases "if_EvalHostSymlinks mounter p w"; cases r) (simp_all add: k l)
qed

lemma create_bind_leaf_fds: "fds (snd (create_bind_leaf os t sp w)) = fds w"
proof -
  obtain r1 w1 where m: "os_Mkdir os t 0x1E8 w = (r1, w1)" by fastforce
  obtain r2 w2 where f: "os_WriteFile os t [] 0x1A0 w = (r2, w2)" by fastforce
  have "fds w1 = fds w" "fds w2 = fds w"
    using m f mkdir_fds [of t "0x1E8" w] write_fds [of t "[]" "0x1A0" w] by simp_all
  then show ?thesis unfolding create_bind_leaf_def
    by (cases "os_Lstat os (sp_Path sp) w"; cases r1; cases r2) (simp_all add: m f)
qed

lemma create_bind_target_fds: "fds (snd (create_bind_target os t sp w)) = fds w"
  using mkdirall_fds [of "filepath_Dir t" "0x1E8" w] create_bind_leaf_fds
  by (auto simp: create_bind_target_def Let_def split: prod.splits sum.splits)

lemma prepareSubpathTarget_fds: "fds (snd (prepareSubpathTarget os mounter sp w)) = fds w"
  using IsNotMountPoint_fds [of "getSubpathBindTarget sp" w] create_bind_target_fds
  by (auto simp: prepareSubpathTarget_def Let_def split: prod.splits option.splits)

lemma doCleanSubPath_fds: "fds (snd (doCleanSubPath os mounter d i w)) = fds w"
proof -
  let ?p = "filepath_Join [d, i]"
  obtain n e w1 where c: "IsNotMountPoint mounter ?p w = ((n, e), w1)" by (metis prod.collapse)
  have w1: "fds w1 = fds w" using IsNotMountPoint_fds [of ?p w] c by simp
  obtain r2 w2 where u: "(if \<not> n then if_Unmount mounter ?p w1 else (Inr (), w1)) = (r2, w2)" by fastforce
  have w2: "fds w2 = fds w" using unmount_fds [of ?p w1] w1 u by (auto split: if_splits)
  have w3: "fds (snd (os_Remove os ?p w2)) = fds w" using remove_fds w2 by simp
  show ?thesis
    using c u w1 w2 w3 unfolding doCleanSubPath_def Let_def
    by (cases e; cases r2; cases "fst (os_Remove os ?p w2)") (simp_all add: split_beta)
qed

lemma cleanSubPath_fds:
  assumes "cleanSubPath os mounter sp w = Some (r, w')"
  shows "fds w' = fds w"
proof -
  let ?d = "filepath_Join [PodDir sp, containerSubPathDirectoryName, VolumeName sp, ContainerName sp]"
  obtain r1 w1 where c: "doCleanSubPath os mounter ?d (strconv_Itoa (VolumeMountIndex sp)) w = (r1, w1)" by fastforce
  have w1: "fds w1 = fds w" using doCleanSubPath_fds [of ?d "strconv_Itoa (VolumeMountIndex sp)" w] c by simp
  have rm: "fds v' = fds v" if "removeEmptyDirs os (PodDir sp) ?d v = Some (x, v')" for x v v'
  proof (cases "PathWithinBase ?d (PodDir sp)")
    case True
    with that have "removeEmptyDirs_loop os (PodDir sp) ?d v = Some (x, v')" by (simp add: removeEmptyDirs_def)
    from removeEmptyDirs_loop_keeps [OF this, where Q = "\<lambda>u. fds u = fds v"] remove_fds show ?thesis by simp
  qed (use that in \<open>simp add: removeEmptyDirs_def\<close>)
  show ?thesis
    using assms c w1 rm unfolding cleanSubPath_def Let_def by (auto split: sum.splits if_splits)
qed

lemma bind_opened_fds:
  assumes "bind_opened os mounter sp fd w = Some (r, w')"
  shows "fds w' = fds w"
proof -
  obtain r1 w1 where p: "prepareSubpathTarget os mounter sp w = (r1, w1)" by fastforce
  have w1: "fds w1 = fds w" using prepareSubpathTarget_fds [of sp w] p by simp
  show ?thesis
  proof (cases r1)
    case (Inl e)
    with assms p w1 show ?thesis by (simp add: bind_opened_def)
  next
    case (Inr x)
    obtain already t where x: "x = (already, t)" by fastforce
    let ?src = "sprintf ''/proc/%d/fd/%v'' [strconv_Itoa (os_Getpid os w1), strconv_Itoa fd]"
    obtain r2 w2 where m: "if_Mount mounter ?src t [] [''bind''] w1 = (r2, w2)" by fastforce
    have w2: "fds w2 = fds w" using mount_fds [of ?src t "[]" "[''bind'']" w1] m w1 by simp
    show ?thesis
      using assms p Inr x m w1 w2 cleanSubPath_fds [of sp w2]
      unfolding bind_opened_def Let_def by (auto split: if_splits sum.splits option.splits)
  qed
qed

lemma doBindSubPath_fds:
  assumes "doBindSubPath os mounter sp w = Some (r, w')"
  shows "fds w' = fds w"
proof (cases "os_EvalSymlinks os (VolumePath sp) w")
  case (Inl e)
  with assms show ?thesis by (simp add: doBindSubPath_def)
next
  case vol: (Inr vol)
  show ?thesis
  proof (cases "os_EvalSymlinks os (sp_Path sp) w")
    case (Inl e)
    with assms vol show ?thesis by (simp add: doBindSubPath_def)
  next
    case p: (Inr p)
    let ?sp = "sp\<lparr>VolumePath := vol, sp_Path := p\<rparr>"
    obtain r1 w1 where d: "doSafeOpen os p vol w = (r1, w1)" by fastforce
    note fd = doSafeOpen_fds [OF d]
    show ?thesis
    proof (cases "PathWithinBase p vol")
      case within: True
      show ?thesis
      proof (cases r1)
        case (Inl e)
        with assms vol p d fd within show ?thesis by (simp add: doBindSubPath_def safeOpenSubPath_def)
      next
        case (Inr f)
        with assms vol p d within obtain r2 w2 where b: "bind_opened os mounter ?sp f w1 = Some (r2, w2)"
            and w': "w' = snd (sys_Close os f w2)"
          by (auto simp: doBindSubPath_def safeOpenSubPath_def Let_def split: option.splits)
        show ?thesis using bind_opened_fds [OF b] w' close [of f w2] fd Inr by auto
      qed
    qed (use assms vol p in \<open>simp add: doBindSubPath_def safeOpenSubPath_def\<close>)
  qed
qed

end

section \<open>Properties\<close>

text \<open>
  C36. \<^verbatim>\<open>removeEmptyDirs\<close> ends, for paths that are absolute and in their clean form, whatever the system answers;
  and it removes nothing but directories strictly below the base: every property \<open>Q\<close> of the system that
  survives the removal of such a directory survives the call.
\<close>

theorem removeEmptyDirs_terminates:
  assumes "path_rooted baseDir" and "filepath_Clean baseDir = baseDir"
    and "path_rooted endDir" and "filepath_Clean endDir = endDir"
    and "\<forall>d v. strictly_below (path_elems baseDir) d \<longrightarrow> Q v \<longrightarrow> Q (snd (os_Remove os d v))" and "Q w"
  shows "\<exists>r w'. removeEmptyDirs os baseDir endDir w = Some (r, w') \<and> Q w'"
proof (cases "PathWithinBase endDir baseDir")
  case True
  then obtain es where es: "path_elems endDir = path_elems baseDir @ es"
    using PathWithinBase_rooted [OF assms(3,1)] by (auto simp: prefix_def)
  have plain: "list_all plain_elem (path_elems baseDir @ es)" using path_elems_rooted [OF assms(3)] es by simp
  have b: "path_of True (path_elems baseDir) = baseDir" and e: "path_of True (path_elems baseDir @ es) = endDir"
    using Clean_rooted(1) [OF assms(1)] Clean_rooted(1) [OF assms(3)] assms(2,4) es by simp_all
  have step: "\<And>d v. strictly_below (path_elems baseDir) d \<Longrightarrow> Q v \<Longrightarrow> Q (snd (os_Remove os d v))"
    using assms(5) by blast
  from removeEmptyDirs_loop_total [OF plain, where Q = Q and os = os, OF step assms(6)] True b e
  show ?thesis by (simp add: removeEmptyDirs_def)
qed (use assms(6) in \<open>simp add: removeEmptyDirs_def\<close>)

theorem removeEmptyDirs_terminates_witness:
  "\<exists>r w'. removeEmptyDirs (static_os (\<lambda>_. Inr [])) ''/pods'' ''/pods/v/c'' () = Some (r, w')"
proof -
  have "path_rooted ''/pods''" "filepath_Clean ''/pods'' = ''/pods''" "path_rooted ''/pods/v/c''"
    "filepath_Clean ''/pods/v/c'' = ''/pods/v/c''" by code_simp+
  from removeEmptyDirs_terminates [OF this, of "\<lambda>_. True" "static_os (\<lambda>_. Inr [])" "()"] show ?thesis by simp
qed

end
