(* ===== verification/Mount_Mounter.thy ===== *)
theory Mount_Mounter
  imports Mount_Format Mount_Subpath
begin

text \<open>
  The two implementations of the mount interface (\<^verbatim>\<open>pkg/mount/mount_linux.go\<close> and \<^verbatim>\<open>exec_mount.go\<close>): the
  mounter that runs programs on the host, and the mounter that runs \<^verbatim>\<open>mount\<close> and \<^verbatim>\<open>umount\<close> through a
  given way to execute programs and leaves everything else to another mounter.
\<close>

section \<open>Definitions\<close>

record 'w mount_Interface = "'w mount_basic" +
  if_IsNotMountPoint :: "string \<Rightarrow> 'w \<Rightarrow> (bool \<times> go_error option) \<times> 'w"
  if_DeviceOpened :: "string \<Rightarrow> 'w \<Rightarrow> bool result \<times> 'w"
  if_PathIsDevice :: "string \<Rightarrow> 'w \<Rightarrow> bool \<times> go_error option"
  if_GetDeviceNameFromMount :: "string \<Rightarrow> string \<Rightarrow> 'w \<Rightarrow> string result \<times> 'w"
  if_MakeRShared :: "string \<Rightarrow> 'w \<Rightarrow> unit result \<times> 'w"
  if_GetFileType :: "string \<Rightarrow> 'w \<Rightarrow> FileType result"
  if_MakeFile :: "string \<Rightarrow> 'w \<Rightarrow> unit result \<times> 'w"
  if_MakeDir :: "string \<Rightarrow> 'w \<Rightarrow> unit result \<times> 'w"
  if_SafeMakeDir :: "string \<Rightarrow> string \<Rightarrow> 32 word \<Rightarrow> 'w \<Rightarrow> unit result \<times> 'w"
  if_ExistsPath :: "string \<Rightarrow> 'w \<Rightarrow> bool result"
  if_CleanSubPaths :: "string \<Rightarrow> string \<Rightarrow> 'w \<Rightarrow> unit result \<times> 'w"
  if_PrepareSafeSubpath :: "Subpath \<Rightarrow> 'w \<Rightarrow> (string result \<times> 'w) option"
  if_GetFSGroup :: "string \<Rightarrow> 'w \<Rightarrow> int result"
  if_GetSELinuxSupport :: "string \<Rightarrow> 'w \<Rightarrow> bool result \<times> 'w"
  if_GetMode :: "string \<Rightarrow> 'w \<Rightarrow> 32 word result"

definition Mounter_IsNotMountPoint :: "'w os \<Rightarrow> Mounter \<Rightarrow> string \<Rightarrow> 'w \<Rightarrow> (bool \<times> go_error option) \<times> 'w" where
  "Mounter_IsNotMountPoint os m dir w = IsNotMountPoint (Mounter_basic os m) dir w"

definition Mounter_DeviceOpened :: "'w os \<Rightarrow> string \<Rightarrow> 'w \<Rightarrow> bool result \<times> 'w" where
  "Mounter_DeviceOpened os pathname w = exclusiveOpenFailsOnDevice os pathname w"

definition Mounter_GetDeviceNameFromMount ::
  "'w os \<Rightarrow> Mounter \<Rightarrow> string \<Rightarrow> string \<Rightarrow> 'w \<Rightarrow> string result \<times> 'w" where
  "Mounter_GetDeviceNameFromMount os m mountPath pluginDir w =
     getDeviceNameFromMount (Mounter_basic os m) mountPath pluginDir w"

definition Mounter_MakeRShared :: "'w os \<Rightarrow> string \<Rightarrow> 'w \<Rightarrow> unit result \<times> 'w" where
  "Mounter_MakeRShared os path w = doMakeRShared os path procMountInfoPath w"

definition Mounter_GetFileType :: "'w os \<Rightarrow> string \<Rightarrow> 'w \<Rightarrow> FileType result" where
  "Mounter_GetFileType os pathname w = getFileType os pathname w"

definition Mounter_PrepareSafeSubpath :: "'w os \<Rightarrow> Mounter \<Rightarrow> Subpath \<Rightarrow> 'w \<Rightarrow> (string result \<times> 'w) option" where
  "Mounter_PrepareSafeSubpath os m subPath w = doBindSubPath os (Mounter_basic os m) subPath w"

definition Mounter_CleanSubPaths :: "'w os \<Rightarrow> Mounter \<Rightarrow> string \<Rightarrow> string \<Rightarrow> 'w \<Rightarrow> unit result \<times> 'w" where
  "Mounter_CleanSubPaths os m podDir volumeName w = doCleanSubPaths os (Mounter_basic os m) podDir volumeName w"

definition Mounter_GetSELinuxSupport :: "'w os \<Rightarrow> string \<Rightarrow> 'w \<Rightarrow> bool result \<times> 'w" where
  "Mounter_GetSELinuxSupport os pathname w = getSELinuxSupport os pathname procMountInfoPath w"

definition Mounter_GetMode :: "'w os \<Rightarrow> string \<Rightarrow> 'w \<Rightarrow> 32 word result" where
  "Mounter_GetMode os pathname w = getMode os pathname w"

definition Mounter_Interface :: "'w os \<Rightarrow> Mounter \<Rightarrow> 'w mount_Interface" where
  "Mounter_Interface os m =
     \<lparr>if_Mount = Mounter_Mount os m, if_Unmount = Mounter_Unmount os, if_List = Mounter_List os,
      if_IsMountPointMatch = Mounter_IsMountPointMatch,
      if_IsLikelyNotMountPoint = Mounter_IsLikelyNotMountPoint os,
      if_EvalHostSymlinks = Mounter_EvalHostSymlinks os, if_GetMountRefs = Mounter_GetMountRefs os,
      if_IsNotMountPoint = Mounter_IsNotMountPoint os m, if_DeviceOpened = Mounter_DeviceOpened os,
      if_PathIsDevice = Mounter_PathIsDevice os, if_GetDeviceNameFromMount = Mounter_GetDeviceNameFromMount os m,
      if_MakeRShared = Mounter_MakeRShared os, if_GetFileType = Mounter_GetFileType os,
      if_MakeFile = Mounter_MakeFile os, if_MakeDir = Mounter_MakeDir os, if_SafeMakeDir = Mounter_SafeMakeDir os,
      if_ExistsPath = Mounter_ExistsPath os, if_CleanSubPaths = Mounter_CleanSubPaths os m,
      if_PrepareSafeSubpath = Mounter_PrepareSafeSubpath os m, if_GetFSGroup = Mounter_GetFSGroup os,
      if_GetSELinuxSupport = Mounter_GetSELinuxSupport os, if_GetMode = Mounter_GetMode os\<rparr>"

subsection \<open>The mounter that executes\<close>

text \<open>
  The arguments of the failed mount are printed one by one and the options as a Go slice.
\<close>

definition exec_mount_failed :: "string \<Rightarrow> string \<Rightarrow> string \<Rightarrow> string \<Rightarrow> string list \<Rightarrow> string \<Rightarrow> go_error" where
  "exec_mount_failed err source target fstype options output =
     Errorf (''mount failed: %v'' @ [newline] @ ''Mounting command: %s'' @ [newline]
       @ ''Mounting arguments: %s %s %s %v'' @ [newline] @ ''Output: %s'' @ [newline])
       [err, ''mount'', source, target, fstype, ''['' @ strings_Join options '' '' @ '']'', output]"

definition doExecMount ::
  "'w exec_run \<Rightarrow> string \<Rightarrow> string \<Rightarrow> string \<Rightarrow> string list \<Rightarrow> 'w \<Rightarrow> unit result \<times> 'w" where
  "doExecMount run source target fstype options w =
     (let mountArgs = makeMountArgs source target fstype options in
      case run ''mount'' mountArgs w of
        ((output, Some err), w) \<Rightarrow>
          (Inl (exec_mount_failed (exec_text err) source target fstype options output), w)
      | ((output, None), w) \<Rightarrow> (Inr (), w))"

definition execMounter_Mount ::
  "'w exec_run \<Rightarrow> string \<Rightarrow> string \<Rightarrow> string \<Rightarrow> string list \<Rightarrow> 'w \<Rightarrow> unit result \<times> 'w" where
  "execMounter_Mount run source target fstype options w =
     (let (bind, bindOpts, bindRemountOpts) = isBind options in
      if bind then
        (case doExecMount run source target fstype bindOpts w of
           (Inl err, w) \<Rightarrow> (Inl err, w)
         | (Inr _, w) \<Rightarrow> doExecMount run source target fstype bindRemountOpts w)
      else doExecMount run source target fstype options w)"

definition execMounter_Unmount :: "'w exec_run \<Rightarrow> string \<Rightarrow> 'w \<Rightarrow> unit result \<times> 'w" where
  "execMounter_Unmount run target w =
     (case run ''umount'' [target] w of
        ((_, None), w) \<Rightarrow> (Inr (), w)
      | ((_, Some err), w) \<Rightarrow> (Inl (ErrText (exec_text err)), w))"

text \<open>Everything but \<^verbatim>\<open>Mount\<close> and \<^verbatim>\<open>Unmount\<close> is the operation of the wrapped mounter.\<close>

definition NewExecMounter :: "'w exec_run \<Rightarrow> 'w mount_Interface \<Rightarrow> 'w mount_Interface" where
  "NewExecMounter run wrapped = wrapped\<lparr>if_Mount := execMounter_Mount run, if_Unmount := execMounter_Unmount run\<rparr>"

section \<open>Properties\<close>



end
