(* ===== verification/Mount_Kernel.thy ===== *)
theory Mount_Kernel
  imports Mount_Mounter
begin

text \<open>
  A small model of the system below the mount package, which shows that what the package asks of the
  system can hold: disks with their formats, a table of mounts, directories and file descriptors, and
  the programs \<^verbatim>\<open>mount\<close>, \<^verbatim>\<open>umount\<close>, \<^verbatim>\<open>fsck\<close>, \<^verbatim>\<open>blkid\<close> and \<^verbatim>\<open>mkfs\<close>. The contracts of \<open>Mount_Format\<close> and
  \<open>Mount_Subpath\<close> are interpreted on it, and the properties of these components are stated over it.
\<close>

section \<open>The model\<close>

text \<open>The newest mount comes first; a mount carries the device number of its file system.\<close>

record kernel =
  k_disks :: "(string \<times> disk_format) list"
  k_mounts :: "(MountPoint \<times> nat) list"
  k_dirs :: "string list"
  k_fds :: "(fd \<times> string) list"

definition k_format :: "kernel \<Rightarrow> string \<Rightarrow> disk_format" where
  "k_format k disk = (case map_of (k_disks k) disk of None \<Rightarrow> Unformatted | Some f \<Rightarrow> f)"

definition k_ok :: "kernel \<Rightarrow> bool" where
  "k_ok k \<longleftrightarrow> list_all (\<lambda>(d, f). format_ok f) (k_disks k)"

text \<open>The number of the innermost file system of a path.\<close>

definition k_dev :: "kernel \<Rightarrow> string \<Rightarrow> nat" where
  "k_dev k p = (case find (\<lambda>m. PathWithinBase p (mp_Path (fst m))) (k_mounts k) of None \<Rightarrow> 0 | Some m \<Rightarrow> snd m)"

fun disk_number :: "string \<Rightarrow> (string \<times> disk_format) list \<Rightarrow> nat" where
  "disk_number d [] = 0"
| "disk_number d ((d', f) # ds) = (if d = d' then Suc (length ds) else disk_number d ds)"

subsection \<open>Programs\<close>

text \<open>The arguments of \<^verbatim>\<open>mount\<close>: type, options, source and target.\<close>

fun mount_args :: "string \<Rightarrow> string list \<Rightarrow> string list \<Rightarrow> (string \<times> string list \<times> string \<times> string) option" where
  "mount_args t opts [src, tgt] = Some (t, opts, src, tgt)"
| "mount_args t opts (a # b # rest) =
     (if a = ''-t'' then mount_args b opts rest
      else if a = ''-o'' then mount_args t (strings_Split b (CHR '','')) rest
      else None)"
| "mount_args t opts _ = None"

definition push_mount :: "string \<Rightarrow> string \<Rightarrow> string \<Rightarrow> string list \<Rightarrow> nat \<Rightarrow> kernel \<Rightarrow> kernel" where
  "push_mount src tgt t opts n k =
     k\<lparr>k_mounts := (\<lparr>mp_Device = src, mp_Path = tgt, mp_Type = t, mp_Opts = opts, mp_Freq = 0, mp_Pass = 0\<rparr>, n) # k_mounts k\<rparr>"

definition k_mount :: "string list \<Rightarrow> kernel \<Rightarrow> exec_result \<times> kernel" where
  "k_mount args k =
     (case mount_args [] [] args of
        None \<Rightarrow> ((''bad usage'', Some (ExitStatus 1)), k)
      | Some (t, opts, src, tgt) \<Rightarrow>
          if tgt \<notin> set (k_dirs k) then ((''mount point does not exist'', Some (ExitStatus 32)), k)
          else if ''bind'' \<in> set opts then
            (if ''remount'' \<in> set opts then (([], None), k)
             else if src \<notin> set (k_dirs k) then ((''no such directory'', Some (ExitStatus 32)), k)
             else (([], None), push_mount src tgt t opts (k_dev k src) k))
          else (case k_format k src of
                  FS t' \<Rightarrow> if t = [] \<or> t = t' then (([], None), push_mount src tgt t' opts (disk_number src (k_disks k)) k)
                           else ((''wrong fs type'', Some (ExitStatus 32)), k)
                | _ \<Rightarrow> ((''wrong fs type'', Some (ExitStatus 32)), k)))"

fun drop_mount :: "string \<Rightarrow> (MountPoint \<times> nat) list \<Rightarrow> (MountPoint \<times> nat) list option" where
  "drop_mount tgt [] = None"
| "drop_mount tgt (m # ms) = (if mp_Path (fst m) = tgt then Some ms else map_option ((#) m) (drop_mount tgt ms))"

definition k_umount :: "string list \<Rightarrow> kernel \<Rightarrow> exec_result \<times> kernel" where
  "k_umount args k =
     (case args of
        [tgt] \<Rightarrow> (case drop_mount tgt (k_mounts k) of
                    None \<Rightarrow> ((''not mounted'', Some (ExitStatus 32)), k)
                  | Some ms \<Rightarrow> (([], None), k\<lparr>k_mounts := ms\<rparr>))
      | _ \<Rightarrow> ((''bad usage'', Some (ExitStatus 1)), k))"

definition k_blkid :: "string list \<Rightarrow> kernel \<Rightarrow> exec_result \<times> kernel" where
  "k_blkid args k =
     (let disk = last args in
      case k_format k disk of
        Unformatted \<Rightarrow> (([], Some (ExitStatus 2)), k)
      | f \<Rightarrow> ((blkid_text disk f, None), k))"

definition k_mkfs :: "string \<Rightarrow> string list \<Rightarrow> kernel \<Rightarrow> exec_result \<times> kernel" where
  "k_mkfs t args k =
     (let disk = last args in
      if map_of (k_disks k) disk = None then ((''no such device'', Some (ExitStatus 1)), k)
      else if t \<in> {''ext4'', ''ext3'', ''xfs''}
      then (([], None), k\<lparr>k_disks := map (\<lambda>(d, f). if d = disk then (d, FS t) else (d, f)) (k_disks k)\<rparr>)
      else (([], Some ErrExecutableNotFound), k))"

definition k_command :: "string \<Rightarrow> string list \<Rightarrow> kernel \<Rightarrow> exec_result \<times> kernel" where
  "k_command cmd args k =
     (if cmd = ''mount'' then k_mount args k
      else if cmd = ''umount'' then k_umount args k
      else if cmd = ''fsck'' then (([], None), k)
      else if cmd = ''blkid'' then k_blkid args k
      else if strings_HasPrefix cmd ''mkfs.'' then k_mkfs (drop 5 cmd) args k
      else (([], Some ErrExecutableNotFound), k))"

subsection \<open>Calls\<close>

definition k_stat :: "string \<Rightarrow> kernel \<Rightarrow> file_info result" where
  "k_stat p k = (if p \<in> set (k_dirs k) then Inr \<lparr>fi_Mode = ModeDir + 0x1ED, fi_Dev = k_dev k p, fi_Gid = 0\<rparr>
     else Inl (OsError ENOENT))"

definition fresh_fd :: "kernel \<Rightarrow> fd" where
  "fresh_fd k = fold max (map fst (k_fds k)) 2 + 1"

definition k_open :: "string \<Rightarrow> kernel \<Rightarrow> fd result \<times> kernel" where
  "k_open p k = (if p \<in> set (k_dirs k) then (Inr (fresh_fd k), k\<lparr>k_fds := (fresh_fd k, p) # k_fds k\<rparr>)
     else (Inl (OsError ENOENT), k))"

definition k_openat :: "fd \<Rightarrow> string \<Rightarrow> kernel \<Rightarrow> fd result \<times> kernel" where
  "k_openat f name k =
     (case map_of (k_fds k) f of None \<Rightarrow> (Inl (OsError EINVAL), k) | Some p \<Rightarrow> k_open (filepath_Join [p, name]) k)"

definition k_close :: "fd \<Rightarrow> kernel \<Rightarrow> unit result \<times> kernel" where
  "k_close f k = (if f \<in> fst ` set (k_fds k) then (Inr (), k\<lparr>k_fds := filter (\<lambda>(g, p). g \<noteq> f) (k_fds k)\<rparr>)
     else (Inl (OsError EINVAL), k))"

definition k_mkdir :: "string \<Rightarrow> kernel \<Rightarrow> unit result \<times> kernel" where
  "k_mkdir p k = (if p \<in> set (k_dirs k) then (Inl (OsError EEXIST), k) else (Inr (), k\<lparr>k_dirs := p # k_dirs k\<rparr>))"

definition k_remove :: "string \<Rightarrow> kernel \<Rightarrow> unit result \<times> kernel" where
  "k_remove p k =
     (if p \<notin> set (k_dirs k) then (Inl (OsError ENOENT), k)
      else if list_ex (\<lambda>m. mp_Path (fst m) = p) (k_mounts k) then (Inl (OsError EBUSY), k)
      else if list_ex (\<lambda>d. d \<noteq> p \<and> PathWithinBase d p) (k_dirs k) then (Inl (OsError ENOTEMPTY), k)
      else (Inr (), k\<lparr>k_dirs := filter (\<lambda>d. d \<noteq> p) (k_dirs k)\<rparr>))"

definition k_mkdirall :: "string \<Rightarrow> kernel \<Rightarrow> unit result \<times> kernel" where
  "k_mkdirall p k = (if p \<in> set (k_dirs k) then (Inr (), k) else (Inr (), k\<lparr>k_dirs := p # k_dirs k\<rparr>))"

definition k_readfile :: "string \<Rightarrow> kernel \<Rightarrow> string result \<times> kernel" where
  "k_readfile p k = (if p = procMountsPath then (Inr (print_lines mount_fields (map fst (rev (k_mounts k)))), k)
     else (Inl (OsError ENOENT), k))"

definition kernel_os :: "kernel os" where
  "kernel_os = \<lparr>os_Stat = k_stat, os_Lstat = k_stat,
     os_EvalSymlinks = (\<lambda>p k. if p \<in> set (k_dirs k) then Inr p else Inl (OsError ENOENT)),
     os_ReadFile = k_readfile, os_ReadDir = (\<lambda>_ _. Inr []),
     os_MkdirAll = (\<lambda>p _. k_mkdirall p), os_Mkdir = (\<lambda>p _. k_mkdir p), os_Remove = k_remove,
     os_WriteFile = (\<lambda>p _ _ k. (Inr (), k)), os_Create = (\<lambda>p _ k. (Inr (), k)), os_Getpid = (\<lambda>_. 1),
     sys_Open = (\<lambda>p _. k_open p), sys_Openat = (\<lambda>f p _. k_openat f p), sys_Close = k_close,
     sys_Fstat = (\<lambda>f k. if f \<in> fst ` set (k_fds k) then Inr 0x41ED else Inl (OsError EINVAL)),
     sys_Mkdirat = (\<lambda>f p _. k_mkdir p), sys_Fchmod = (\<lambda>_ _ k. (Inr (), k)),
     sys_Mount = (\<lambda>_ _ _ _ k. (Inr (), k)), os_LookPath = (\<lambda>_ _. Inl (OsError ENOENT)),
     os_Command = k_command\<rparr>"

definition host_mounter :: Mounter where
  "host_mounter = \<lparr>mounterPath = [], withSystemd = False\<rparr>"

section \<open>The contracts hold\<close>

lemma k_mount_keeps:
  "k_disks (snd (k_mount args k)) = k_disks k" "k_fds (snd (k_mount args k)) = k_fds k" "k_dirs (snd (k_mount args k)) = k_dirs k"
  by (auto simp: k_mount_def push_mount_def split: option.splits prod.splits disk_format.splits)

lemma k_umount_keeps:
  "k_disks (snd (k_umount args k)) = k_disks k" "k_fds (snd (k_umount args k)) = k_fds k" "k_dirs (snd (k_umount args k)) = k_dirs k"
  by (auto simp: k_umount_def split: option.splits list.splits)

lemma doMount_host:
  "snd (doMount kernel_os host_mounter [] defaultMountCommand src tgt t opts k) = snd (k_mount (makeMountArgs src tgt t opts) k)"
  by (simp add: doMount_def host_mounter_def kernel_os_def k_command_def defaultMountCommand_def Let_def
      split: prod.splits option.splits)

lemma k_mkfs_keeps:
  "k_fds (snd (k_mkfs t args k)) = k_fds k"
  "d \<noteq> last args \<Longrightarrow> k_format (snd (k_mkfs t args k)) d = k_format k d"
proof -
  show "k_fds (snd (k_mkfs t args k)) = k_fds k" by (simp add: k_mkfs_def Let_def)
  have "map_of (map (\<lambda>(e, f). if e = x then (e, FS t) else (e, f)) ds) d = map_of ds d" if "d \<noteq> x" for ds x
    using that by (induction ds) auto
  then show "d \<noteq> last args \<Longrightarrow> k_format (snd (k_mkfs t args k)) d = k_format k d"
    by (simp add: k_mkfs_def k_format_def Let_def)
qed

lemma k_mkfs_ok: "k_ok k \<Longrightarrow> plain_value t \<Longrightarrow> k_ok (snd (k_mkfs t args k))"
  by (auto simp: k_ok_def k_mkfs_def list_all_iff Let_def split: if_splits prod.splits)

lemma k_mkfs_formats:
  assumes "k_mkfs t args k = ((out, None), k')"
  shows "k_format k' (last args) = FS t"
proof -
  have upd: "map_of (map (\<lambda>(e, f). if e = x then (e, FS t) else (e, f)) ds) x = Some (FS t)" if "map_of ds x \<noteq> None" for ds and x :: string
    using that by (induction ds) (auto split: if_splits)
  have "map_of (k_disks k) (last args) \<noteq> None"
    and "k' = k\<lparr>k_disks := map (\<lambda>(d, f). if d = last args then (d, FS t) else (d, f)) (k_disks k)\<rparr>"
    using assms by (auto simp: k_mkfs_def Let_def split: if_splits)
  with upd [of "k_disks k" "last args"] show ?thesis by (simp add: k_format_def)
qed

lemma Mount_host_keeps:
  "k_disks (snd (Mounter_Mount kernel_os host_mounter src tgt t opts k)) = k_disks k
   \<and> k_fds (snd (Mounter_Mount kernel_os host_mounter src tgt t opts k)) = k_fds k"
proof (rule Mounter_Mount_keeps)
  fix p opts and v :: kernel
  assume "p = [] \<or> p = mounterPath host_mounter" and "k_disks v = k_disks k \<and> k_fds v = k_fds k"
  then show "k_disks (snd (doMount kernel_os host_mounter p defaultMountCommand src tgt t opts v)) = k_disks k
    \<and> k_fds (snd (doMount kernel_os host_mounter p defaultMountCommand src tgt t opts v)) = k_fds k"
    using doMount_host k_mount_keeps by (simp add: host_mounter_def)
qed simp

lemma Unmount_host: "snd (Mounter_Unmount kernel_os tgt k) = snd (k_umount [tgt] k)"
  by (simp add: Mounter_Unmount_def kernel_os_def k_command_def split: prod.splits option.splits)

lemma List_host:
  "snd (Mounter_List kernel_os k) = k"
  by (simp add: Mounter_List_def listProcMounts_def consistentRead_def kernel_os_def k_readfile_def maxListTries_def
      procMountsPath_def eval_nat_numeral)

lemma last_mkfs_args: "last (mkfs_args t src) = src"
  by (simp add: mkfs_args_def)

interpretation host_disks: disk_tools "Mounter_basic kernel_os host_mounter" "osExec_Run kernel_os" k_format k_ok
proof unfold_locales
  fix w src tgt t opts
  show "k_ok w \<Longrightarrow> k_format (snd (if_Mount (Mounter_basic kernel_os host_mounter) src tgt t opts w)) = k_format w
    \<and> k_ok (snd (if_Mount (Mounter_basic kernel_os host_mounter) src tgt t opts w))"
    using Mount_host_keeps [of src tgt t opts w] by (auto simp: Mounter_basic_def k_format_def k_ok_def)
next
  fix w args
  show "k_ok w \<Longrightarrow> k_format (snd (osExec_Run kernel_os ''fsck'' args w)) = k_format w \<and> k_ok (snd (osExec_Run kernel_os ''fsck'' args w))"
    by (simp add: osExec_Run_def kernel_os_def k_command_def)
  show "k_ok w \<Longrightarrow> k_format (snd (osExec_Run kernel_os ''blkid'' args w)) = k_format w \<and> k_ok (snd (osExec_Run kernel_os ''blkid'' args w))"
    by (simp add: osExec_Run_def kernel_os_def k_command_def k_blkid_def Let_def split: disk_format.splits)
next
  fix w disk
  show "k_ok w \<Longrightarrow> k_format w disk \<noteq> Unformatted \<Longrightarrow> plain_value disk \<Longrightarrow>
      fst (osExec_Run kernel_os ''blkid'' (blkid_args disk) w) = (blkid_text disk (k_format w disk), None)"
    by (simp add: osExec_Run_def kernel_os_def k_command_def k_blkid_def Let_def split: disk_format.splits)
  show "k_ok w \<Longrightarrow> k_format w disk = Unformatted \<Longrightarrow>
      snd (fst (osExec_Run kernel_os ''blkid'' (blkid_args disk) w)) = Some (ExitStatus 2)"
    by (simp add: osExec_Run_def kernel_os_def k_command_def k_blkid_def Let_def)
  show "k_ok w \<Longrightarrow> format_ok (k_format w disk)"
    by (auto simp: k_ok_def k_format_def list_all_iff split: option.splits dest: map_of_SomeD)
next
  fix w t src out e w'
  assume ok: "k_ok w" "plain_value t" and "osExec_Run kernel_os (''mkfs.'' @ t) (mkfs_args t src) w = ((out, e), w')"
  then have m: "k_mkfs t (mkfs_args t src) w = ((out, e), w')"
    by (simp add: osExec_Run_def kernel_os_def k_command_def strings_HasPrefix_def)
  show "(\<forall>d. d \<noteq> src \<longrightarrow> k_format w' d = k_format w d) \<and> (e = None \<longrightarrow> k_format w' src = FS t) \<and> k_ok w'"
    using k_mkfs_keeps(2) [of _ "mkfs_args t src" t w] k_mkfs_formats [of t "mkfs_args t src" w out w'] k_mkfs_ok [OF ok] m
    by (auto simp: last_mkfs_args) (metis snd_conv)
qed

definition k_open_fds :: "kernel \<Rightarrow> fd set" where
  "k_open_fds k = fst ` set (k_fds k)"

lemma fresh_fd_new: "fresh_fd k \<notin> k_open_fds k"
proof -
  have "x \<le> fold max xs y" if "x \<in> set xs \<or> x \<le> y" for x y :: int and xs
    using that by (induction xs arbitrary: y) (auto simp: le_max_iff_disj)
  then have "\<forall>f \<in> k_open_fds k. f < fresh_fd k"
    by (force simp: k_open_fds_def fresh_fd_def)
  then show ?thesis by blast
qed

lemma k_open_fds_open:
  "k_open p k = (Inr f, k') \<Longrightarrow> f \<notin> k_open_fds k \<and> k_open_fds k' = insert f (k_open_fds k)"
  "k_open p k = (Inl e, k') \<Longrightarrow> k_open_fds k' = k_open_fds k"
  using fresh_fd_new [of k] by (auto simp: k_open_def k_open_fds_def split: if_splits)

interpretation host_fds: fd_mounts kernel_os k_open_fds "Mounter_basic kernel_os host_mounter"
proof unfold_locales
  fix p fl w f w' d e
  show "sys_Open kernel_os p fl w = (Inr f, w') \<Longrightarrow> f \<notin> k_open_fds w \<and> k_open_fds w' = insert f (k_open_fds w)"
    "sys_Open kernel_os p fl w = (Inl e, w') \<Longrightarrow> k_open_fds w' = k_open_fds w"
    using k_open_fds_open by (simp_all add: kernel_os_def)
  show "sys_Openat kernel_os d p fl w = (Inr f, w') \<Longrightarrow> f \<notin> k_open_fds w \<and> k_open_fds w' = insert f (k_open_fds w)"
    "sys_Openat kernel_os d p fl w = (Inl e, w') \<Longrightarrow> k_open_fds w' = k_open_fds w"
    using k_open_fds_open by (auto simp: kernel_os_def k_openat_def split: option.splits)
next
  fix f w p perm
  show "k_open_fds (snd (sys_Close kernel_os f w)) = k_open_fds w - {f}"
    by (auto simp: kernel_os_def k_close_def k_open_fds_def image_iff)
  show "k_open_fds (snd (sys_Mkdirat kernel_os f p perm w)) = k_open_fds w"
    "k_open_fds (snd (sys_Fchmod kernel_os f perm w)) = k_open_fds w"
    by (simp_all add: kernel_os_def k_mkdir_def k_open_fds_def)
next
  fix s t ty opts w
  show "k_open_fds (snd (if_Mount (Mounter_basic kernel_os host_mounter) s t ty opts w)) = k_open_fds w"
    using Mount_host_keeps [of s t ty opts w] by (simp add: Mounter_basic_def k_open_fds_def)
  show "k_open_fds (snd (if_Unmount (Mounter_basic kernel_os host_mounter) t w)) = k_open_fds w"
    using k_umount_keeps Unmount_host by (simp add: Mounter_basic_def k_open_fds_def)
  show "k_open_fds (snd (if_List (Mounter_basic kernel_os host_mounter) w)) = k_open_fds w"
    by (simp add: Mounter_basic_def List_host)
next
  fix p perm w c
  show "k_open_fds (snd (os_MkdirAll kernel_os p perm w)) = k_open_fds w"
    "k_open_fds (snd (os_Mkdir kernel_os p perm w)) = k_open_fds w"
    "k_open_fds (snd (os_Remove kernel_os p w)) = k_open_fds w"
    "k_open_fds (snd (os_WriteFile kernel_os p c perm w)) = k_open_fds w"
    by (simp_all add: kernel_os_def k_mkdirall_def k_mkdir_def k_remove_def k_open_fds_def)
qed

section \<open>Properties\<close>

text \<open>
  C34. \<^verbatim>\<open>FormatAndMount\<close> never destroys data: for every system whose tools keep the contract \<open>disk_tools\<close>, it changes
  the format of no other disk than the one it is called for, of no disk that has a file system or a
  partition table, and of no disk at all when the mount is read-only, whether it succeeds or fails and
  at whatever step.
\<close>

theorem FormatAndMount_preserves:
  assumes "disk_tools mounter run fmt disk_ok" and "disk_ok w" and "plain_value source"
    and "plain_value (if fstype = [] then ''ext4'' else fstype)"
  shows "\<forall>d. d \<noteq> source \<or> fmt w d \<noteq> Unformatted \<or> ''ro'' \<in> set options \<longrightarrow>
    fmt (snd (FormatAndMount mounter run source target fstype options w)) d = fmt w d"
  using disk_tools.formatAndMount_keeps [OF assms, of target options] by (metis prod.collapse)

definition sample_kernel :: kernel where
  "sample_kernel = \<lparr>k_disks = [(''/dev/sda'', FS ''xfs''), (''/dev/sdb'', Unformatted)], k_mounts = [],
     k_dirs = [''/'', ''/mnt''], k_fds = []\<rparr>"

theorem FormatAndMount_preserves_witness:
  "k_format (snd (FormatAndMount (Mounter_basic kernel_os host_mounter) (osExec_Run kernel_os)
     ''/dev/sda'' ''/mnt'' ''ext4'' [] sample_kernel)) ''/dev/sda'' = FS ''xfs''"
proof -
  have "k_ok sample_kernel" "plain_value ''/dev/sda''" "plain_value (if ''ext4'' = [] then ''ext4'' else ''ext4'')"
    "k_format sample_kernel ''/dev/sda'' = FS ''xfs''"
    by (simp_all add: k_ok_def sample_kernel_def plain_value_def k_format_def)
  with FormatAndMount_preserves [OF host_disks.disk_tools_axioms this(1-3)] show ?thesis by simp
qed

text \<open>
  C35. No file descriptor leaks: on every system that keeps the contract \<open>fd_mounts\<close>, creating a directory with
  \<^verbatim>\<open>SafeMakeDir\<close> and bind-mounting a subpath leave exactly the descriptors open that were open before, on
  success and on every error path, and \<^verbatim>\<open>doSafeOpen\<close> leaves one more open if and only if it returns it.
\<close>

theorem no_fd_leak:
  assumes "fd_mounts os fds mounter"
  shows "fds (snd (Mounter_SafeMakeDir os subdir base perm w)) = fds w
    \<and> (\<forall>sp r w'. doBindSubPath os mounter sp w = Some (r, w') \<longrightarrow> fds w' = fds w)
    \<and> (\<forall>p r w'. doSafeOpen os p base w = (r, w') \<longrightarrow>
         (case r of Inl _ \<Rightarrow> fds w' = fds w | Inr f \<Rightarrow> f \<notin> fds w \<and> fds w' = insert f (fds w)))"
proof -
  have t: "fd_table os fds" using assms by (rule fd_mounts.axioms(1))
  have "fds (snd (Mounter_SafeMakeDir os subdir base perm w)) = fds w"
    using fd_table.doSafeMakeDir_fds [OF t] by (auto simp: Mounter_SafeMakeDir_def split: sum.split)
  then show ?thesis using fd_mounts.doBindSubPath_fds [OF assms] fd_table.doSafeOpen_fds [OF t] by blast
qed

theorem no_fd_leak_witness:
  "k_open_fds (snd (Mounter_SafeMakeDir kernel_os ''a/b'' ''/mnt'' 0x1E8 sample_kernel)) = {}"
  using no_fd_leak [OF host_fds.fd_mounts_axioms, of "''a/b''" "''/mnt''" "0x1E8" sample_kernel]
  by (simp add: k_open_fds_def sample_kernel_def)

end
