(* ===== verification/Csi_Node.thy ===== *)
theory Csi_Node
  imports Csi_Controller Mount_Kernel
begin

text \<open>
  The node service of the CSI driver, for version 1.0 of the interface
  (\<^verbatim>\<open>pkg/oim-csi-driver/nodeserver.go\<close>) and for version 0.3
  (\<^verbatim>\<open>pkg/oim-csi-driver/nodeserver0.go\<close>, names ending in \<open>0\<close>). The handlers work on the
  operating system of the host (theory \<open>Mount_Os\<close>) and on a backend, both over the same world. Their
  state is the table of volume locks and the world. The calls to the logger are left out.
\<close>

section \<open>Definitions\<close>

definition NodeGetInfo :: "string \<Rightarrow> string result" where
  "NodeGetInfo nodeID = Inr nodeID"

definition NodeGetCapabilities :: "node_capability list result" where
  "NodeGetCapabilities = Inr [STAGE_UNSTAGE_VOLUME]"

definition internal_error :: "go_error \<Rightarrow> string \<Rightarrow> 'w \<Rightarrow> ('a result \<times> 'w) outcome option" where
  "internal_error err msg w = Some (Ret (Inl (StatusOf Internal (Wrap err msg)), w))"

text \<open>
  What \<^verbatim>\<open>NodePublishVolume\<close> does when mounting has failed with \<open>err\<close>. In the last check \<^verbatim>\<open>mntErr\<close> is
  \<^verbatim>\<open>nil\<close>, so that \<^verbatim>\<open>errors.Wrap\<close> returns \<^verbatim>\<open>nil\<close> and the call of \<^verbatim>\<open>Error\<close> on it panics.
\<close>

definition publish_failed :: "'w os \<Rightarrow> string \<Rightarrow> go_error \<Rightarrow> 'w \<Rightarrow> (unit result \<times> 'w) outcome option" where
  "publish_failed os targetPath err w =
     (let remove = (\<lambda>w. case os_Remove os targetPath w of (_, w) \<Rightarrow> internal_error err ''mount of disk failed'' w) in
      case Mounter_IsLikelyNotMountPoint os targetPath w of
        (_, Some mntErr) \<Rightarrow> internal_error mntErr ''check whether target path is a mount point'' w
      | (notMnt, None) \<Rightarrow>
          if \<not> notMnt
          then (case Mounter_Unmount os targetPath w of
                  (Inl mntErr, w) \<Rightarrow> internal_error mntErr ''unmount target path'' w
                | (Inr _, w) \<Rightarrow>
                    (case Mounter_IsLikelyNotMountPoint os targetPath w of
                       (_, Some mntErr) \<Rightarrow> internal_error mntErr ''check whether target path is a mount point'' w
                     | (notMnt, None) \<Rightarrow> if \<not> notMnt then Some Panic else remove w))
          else remove w)"

definition publish_mount ::
  "'w os \<Rightarrow> Mounter \<Rightarrow> string \<Rightarrow> string \<Rightarrow> bool \<Rightarrow> 'w \<Rightarrow> (unit result \<times> 'w) outcome option" where
  "publish_mount os mounter targetPath stagingTargetPath readOnly w =
     (case Mounter_MakeDir os targetPath w of
        (Inl err, w) \<Rightarrow> internal_error err ''make target dir'' w
      | (Inr _, w) \<Rightarrow>
          let options = [''bind''];
              options = (if readOnly then options @ [''ro''] else options)
          in (case Mounter_Mount os mounter stagingTargetPath targetPath ''ext4'' options w of
                (Inl err, w) \<Rightarrow> publish_failed os targetPath err w
              | (Inr _, w) \<Rightarrow> Some (Ret (Inr (), w))))"

text \<open>\<^verbatim>\<open>NodePublishVolume\<close> while it holds the lock.\<close>

definition publish_locked ::
  "'w os \<Rightarrow> string \<Rightarrow> string \<Rightarrow> bool \<Rightarrow> 'w \<Rightarrow> (unit result \<times> 'w) outcome option" where
  "publish_locked os targetPath stagingTargetPath readOnly w =
     (case mount_New os [] w of
        (mounter, w) \<Rightarrow>
          (let proceed = (\<lambda>notMnt. if \<not> notMnt then Some (Ret (Inr (), w))
                 else publish_mount os mounter targetPath stagingTargetPath readOnly w)
           in case Mounter_IsLikelyNotMountPoint os targetPath w of
                (notMnt, Some err) \<Rightarrow>
                  if \<not> os_IsNotExist err then internal_error err ''validate target path'' w else proceed notMnt
              | (notMnt, None) \<Rightarrow> proceed notMnt))"

definition NodePublishVolume :: "'w os \<Rightarrow> NodePublishVolumeRequest \<Rightarrow> ('w, unit) handler" where
  "NodePublishVolume os rq s =
     (let targetPath = PublishTargetPath rq; stagingTargetPath = PublishStagingTargetPath rq;
          volumeID = PublishVolumeId rq; volumeCapability = PublishCapability rq; readOnly = Readonly rq in
      if targetPath = [] then reply_with (Inl (StatusErr InvalidArgument ''empty target path'' [])) s
      else if stagingTargetPath = []
      then reply_with (Inl (StatusErr InvalidArgument ''empty staging target path'' [])) s
      else if volumeID = [] then reply_with (Inl (StatusErr InvalidArgument ''empty volume ID'' [])) s
      else if volumeCapability = None
      then reply_with (Inl (StatusErr InvalidArgument ''missing volume capability'' [])) s
      else with_key volumeID (publish_locked os targetPath stagingTargetPath readOnly) s)"

definition unpublish_locked :: "'w os \<Rightarrow> string \<Rightarrow> 'w \<Rightarrow> (unit result \<times> 'w) outcome option" where
  "unpublish_locked os targetPath w =
     (case mount_New os [] w of
        (mounter, w) \<Rightarrow>
          (case UnmountPath os targetPath (Mounter_basic os mounter) w of
             (Inl err, w) \<Rightarrow> internal_error err ''unmount failed'' w
           | (Inr _, w) \<Rightarrow> Some (Ret (Inr (), w))))"

definition NodeUnpublishVolume :: "'w os \<Rightarrow> string \<Rightarrow> string \<Rightarrow> ('w, unit) handler" where
  "NodeUnpublishVolume os targetPath volumeID s =
     (if targetPath = [] then reply_with (Inl (StatusErr InvalidArgument ''empty target path'' [])) s
      else if volumeID = [] then reply_with (Inl (StatusErr InvalidArgument ''empty volume ID'' [])) s
      else with_key volumeID (unpublish_locked os targetPath) s)"

text \<open>The check and preparation of the staging path: whether it is not a mount point yet. Mode \<^verbatim>\<open>0750\<close> is octal.\<close>

definition prepare_staging :: "'w os \<Rightarrow> string \<Rightarrow> 'w \<Rightarrow> bool result \<times> 'w" where
  "prepare_staging os targetPath w =
     (case mount_New os [] w of
        (_, w) \<Rightarrow>
          (case Mounter_IsLikelyNotMountPoint os targetPath w of
             (notMnt, None) \<Rightarrow> (Inr notMnt, w)
           | (_, Some err) \<Rightarrow>
               if os_IsNotExist err
               then (case os_MkdirAll os targetPath 0x1E8 w of
                       (Inl err, w) \<Rightarrow> (Inl (StatusOf Internal err), w)
                     | (Inr _, w) \<Rightarrow> (Inr True, w))
               else (Inl (StatusOf Internal err), w)))"

definition run_cleanup :: "'w cleanup option \<Rightarrow> 'w \<Rightarrow> 'w" where
  "run_cleanup cleanup w = (case cleanup of None \<Rightarrow> w | Some f \<Rightarrow> snd (f w))"

text \<open>\<^verbatim>\<open>NodeStageVolume\<close> while it holds the lock. The deferred cleanup runs after everything else.\<close>

definition stage_locked ::
  "'w os \<Rightarrow> 'w OIMBackend \<Rightarrow> string \<Rightarrow> string \<Rightarrow> string \<Rightarrow> csi_request \<Rightarrow> 'w \<Rightarrow> (unit result \<times> 'w) outcome option" where
  "stage_locked os backend targetPath volumeID fsType request w =
     (case prepare_staging os targetPath w of
        (Inl err, w) \<Rightarrow> Some (Ret (Inl err, w))
      | (Inr notMnt, w) \<Rightarrow>
          if \<not> notMnt then Some (Ret (Inr (), w))
          else (case backend_createDevice backend volumeID request w of
                  None \<Rightarrow> None
                | Some Panic \<Rightarrow> Some Panic
                | Some (Ret (Inl err, cleanup, w)) \<Rightarrow> Some (Ret (Inl (StatusOf Internal err), run_cleanup cleanup w))
                | Some (Ret (Inr device, cleanup, w)) \<Rightarrow>
                    (case mount_New os [] w of
                       (mounter, w) \<Rightarrow>
                         (case FormatAndMount (Mounter_basic os mounter) (osExec_Run os) device targetPath fsType [] w of
                            (Inl err, w) \<Rightarrow>
                              Some (Ret (Inl (StatusOf Internal (Wrap err
                                (sprintf ''formatting as %s and mounting %s at %s'' [fsType, device, targetPath]))),
                                run_cleanup cleanup w))
                          | (Inr _, w) \<Rightarrow> Some (Ret (Inr (), run_cleanup cleanup w))))))"

definition NodeStageVolume :: "'w os \<Rightarrow> 'w OIMBackend \<Rightarrow> NodeStageVolumeRequest \<Rightarrow> ('w, unit) handler" where
  "NodeStageVolume os backend rq s =
     (let targetPath = StagingTargetPath rq; volumeID = StageVolumeId rq; volumeCapability = StageCapability rq in
      if targetPath = [] then reply_with (Inl (StatusErr InvalidArgument ''empty target path'' [])) s
      else if volumeID = [] then reply_with (Inl (StatusErr InvalidArgument ''empty volume ID'' [])) s
      else case volumeCapability of
        None \<Rightarrow> reply_with (Inl (StatusErr InvalidArgument ''missing volume capability'' [])) s
      | Some c \<Rightarrow> with_key volumeID (stage_locked os backend targetPath volumeID (GetFsType (GetMount c)) (CSI10 rq)) s)"

definition unstage_locked ::
  "'w os \<Rightarrow> 'w OIMBackend \<Rightarrow> string \<Rightarrow> string \<Rightarrow> 'w \<Rightarrow> (unit result \<times> 'w) outcome option" where
  "unstage_locked os backend targetPath volumeID w =
     (case mount_New os [] w of
        (_, w) \<Rightarrow>
          (case Mounter_Unmount os targetPath w of
             (Inl err, w) \<Rightarrow> Some (Ret (Inl (StatusOf Internal err), w))
           | (Inr _, w) \<Rightarrow>
               (case backend_deleteDevice backend volumeID w of
                  (Inl err, w) \<Rightarrow> Some (Ret (Inl (StatusOf Internal err), w))
                | (Inr _, w) \<Rightarrow> Some (Ret (Inr (), w)))))"

definition NodeUnstageVolume :: "'w os \<Rightarrow> 'w OIMBackend \<Rightarrow> string \<Rightarrow> string \<Rightarrow> ('w, unit) handler" where
  "NodeUnstageVolume os backend targetPath volumeID s =
     (if targetPath = [] then reply_with (Inl (StatusErr InvalidArgument ''empty target path'' [])) s
      else if volumeID = [] then reply_with (Inl (StatusErr InvalidArgument ''empty volume ID'' [])) s
      else with_key volumeID (unstage_locked os backend targetPath volumeID) s)"

definition NodeGetVolumeStats :: "string \<Rightarrow> string \<Rightarrow> ('w, unit) handler" where
  "NodeGetVolumeStats volumeID volumePath s =
     (if volumeID = [] then reply_with (Inl (StatusErr InvalidArgument ''empty volume ID'' [])) s
      else if volumePath = [] then reply_with (Inl (StatusErr InvalidArgument ''empty volume path'' [])) s
      else with_key volumeID (\<lambda>w. Some (Ret (Inr (), w))) s)"

subsection \<open>Version 0.3\<close>

definition NodeGetId0 :: "string \<Rightarrow> string result" where
  "NodeGetId0 nodeID = Inr nodeID"

definition NodeGetInfo0 :: "string \<Rightarrow> string result" where
  "NodeGetInfo0 nodeID = Inr nodeID"

definition NodeGetCapabilities0 :: "node_capability list result" where
  "NodeGetCapabilities0 = Inr [STAGE_UNSTAGE_VOLUME]"

definition NodePublishVolume0 :: "'w os \<Rightarrow> NodePublishVolumeRequest \<Rightarrow> ('w, unit) handler" where
  "NodePublishVolume0 os rq s =
     (let targetPath = PublishTargetPath rq; stagingTargetPath = PublishStagingTargetPath rq;
          volumeID = PublishVolumeId rq; volumeCapability = PublishCapability rq; readOnly = Readonly rq in
      if targetPath = [] then reply_with (Inl (StatusErr InvalidArgument ''empty target path'' [])) s
      else if stagingTargetPath = []
      then reply_with (Inl (StatusErr InvalidArgument ''empty staging target path'' [])) s
      else if volumeID = [] then reply_with (Inl (StatusErr InvalidArgument ''empty volume ID'' [])) s
      else if volumeCapability = None
      then reply_with (Inl (StatusErr InvalidArgument ''missing volume capability'' [])) s
      else with_key volumeID (publish_locked os targetPath stagingTargetPath readOnly) s)"

definition NodeUnpublishVolume0 :: "'w os \<Rightarrow> string \<Rightarrow> string \<Rightarrow> ('w, unit) handler" where
  "NodeUnpublishVolume0 os targetPath volumeID s =
     (if targetPath = [] then reply_with (Inl (StatusErr InvalidArgument ''empty target path'' [])) s
      else if volumeID = [] then reply_with (Inl (StatusErr InvalidArgument ''empty volume ID'' [])) s
      else with_key volumeID (unpublish_locked os targetPath) s)"

definition NodeStageVolume0 :: "'w os \<Rightarrow> 'w OIMBackend \<Rightarrow> NodeStageVolumeRequest \<Rightarrow> ('w, unit) handler" where
  "NodeStageVolume0 os backend rq s =
     (let targetPath = StagingTargetPath rq; volumeID = StageVolumeId rq; volumeCapability = StageCapability rq in
      if targetPath = [] then reply_with (Inl (StatusErr InvalidArgument ''empty target path'' [])) s
      else if volumeID = [] then reply_with (Inl (StatusErr InvalidArgument ''empty volume ID'' [])) s
      else case volumeCapability of
        None \<Rightarrow> reply_with (Inl (StatusErr InvalidArgument ''missing volume capability'' [])) s
      | Some c \<Rightarrow> with_key volumeID (stage_locked os backend targetPath volumeID (GetFsType (GetMount c)) (CSI03 rq)) s)"

definition NodeUnstageVolume0 :: "'w os \<Rightarrow> 'w OIMBackend \<Rightarrow> string \<Rightarrow> string \<Rightarrow> ('w, unit) handler" where
  "NodeUnstageVolume0 os backend targetPath volumeID s =
     (if targetPath = [] then reply_with (Inl (StatusErr InvalidArgument ''empty target path'' [])) s
      else if volumeID = [] then reply_with (Inl (StatusErr InvalidArgument ''empty volume ID'' [])) s
      else with_key volumeID (unstage_locked os backend targetPath volumeID) s)"

section \<open>Lemmas\<close>

text \<open>
  What staging relies on: the programs that work on disks keep their contract, and neither
  creating a directory nor the backend nor the cleanup changes what is stored on a disk.
\<close>

locale node_host =
  fixes os :: "'w os"
    and be :: "'w OIMBackend"
    and mounter :: Mounter
    and fmt :: "'w \<Rightarrow> string \<Rightarrow> disk_format"
    and ok :: "'w \<Rightarrow> bool"
  assumes tools: "disk_tools (Mounter_basic os mounter) (osExec_Run os) fmt ok"
    and detects: "ok w \<Longrightarrow> mount_New os [] w = (mounter, w)"
    and mkdir_keeps: "ok w \<Longrightarrow> fmt (snd (os_MkdirAll os p m w)) = fmt w \<and> ok (snd (os_MkdirAll os p m w))"
    and device_keeps: "ok w \<Longrightarrow> backend_createDevice be v q w = Some (Ret (r, c, w')) \<Longrightarrow>
      fmt w' = fmt w \<and> ok w' \<and> (\<forall>d. r = Inr d \<longrightarrow> plain_value d)
      \<and> (\<forall>f w. c = Some f \<and> ok w \<longrightarrow> fmt (snd (f w)) = fmt w \<and> ok (snd (f w)))"
begin

lemma prepare_keeps:
  assumes "ok w" and "prepare_staging os p w = (r, w')"
  shows "fmt w' = fmt w \<and> ok w'"
proof -
  obtain n e where l: "Mounter_IsLikelyNotMountPoint os p w = (n, e)" by fastforce
  obtain r1 w1 where m: "os_MkdirAll os p 0x1E8 w = (r1, w1)" by fastforce
  have "fmt w1 = fmt w" "ok w1" using mkdir_keeps [OF assms(1), of p "0x1E8"] m by simp_all
  then show ?thesis
    using assms l m detects [OF assms(1)]
    by (cases e; cases r1) (auto simp: prepare_staging_def split: if_splits)
qed

lemma stage_keeps:
  assumes "ok w" and "plain_value (if t = [] then ''ext4'' else t)"
    and "stage_locked os be p v t q w = Some (Ret (r, w'))"
  shows "ok w' \<and> (\<forall>d. fmt w d \<noteq> Unformatted \<longrightarrow> fmt w' d = fmt w d)"
proof -
  obtain r1 w1 where p: "prepare_staging os p w = (r1, w1)" by fastforce
  have w1: "fmt w1 = fmt w" "ok w1" using prepare_keeps [OF assms(1) p] by simp_all
  show ?thesis
  proof (cases "r1 = Inr True")
    case False
    then have "w' = w1" using assms(3) p by (cases r1) (auto simp: stage_locked_def)
    then show ?thesis using w1 by simp
  next
    case True
    obtain r2 c w2 where d: "backend_createDevice be v q w1 = Some (Ret (r2, c, w2))"
      using assms(3) p True by (auto simp: stage_locked_def split: option.splits outcome.splits)
    note k = device_keeps [OF w1(2) d]
    have cl: "fmt (run_cleanup c u) = fmt u \<and> ok (run_cleanup c u)" if "ok u" for u
      using k that by (cases c) (simp_all add: run_cleanup_def)
    show ?thesis
    proof (cases r2)
      case (Inl err)
      then have "w' = run_cleanup c w2" using assms(3) p True d by (simp add: stage_locked_def)
      then show ?thesis using cl k w1 by simp
    next
      case (Inr dev)
      obtain r3 w3 where f: "FormatAndMount (Mounter_basic os mounter) (osExec_Run os) dev p t [] w2 = (r3, w3)" by fastforce
      have "w' = run_cleanup c w3"
        using assms(3) p True d Inr f detects [of w2] k by (cases r3) (simp_all add: stage_locked_def)
      moreover have "plain_value dev" using k Inr by simp
      ultimately show ?thesis
        using disk_tools.formatAndMount_keeps [OF tools _ _ assms(2) f] k w1 cl [of w3] by metis
    qed
  qed
qed

end

text \<open>
  A target that is still a mount point after it was unmounted successfully, for
  example because something else is mounted there below, makes \<^verbatim>\<open>NodePublishVolume\<close> panic.
\<close>

theorem publish_failed_panics:
  assumes "Mounter_IsLikelyNotMountPoint os p w = (False, None)" and "Mounter_Unmount os p w = (Inr (), w')"
    and "Mounter_IsLikelyNotMountPoint os p w' = (False, None)"
  shows "publish_failed os p err w = Some Panic"
  using assms by (simp add: publish_failed_def Let_def)

end
