(* ===== verification/Csi_Host.thy ===== *)
theory Csi_Host
  imports Csi_Node Csi_Local
begin

text \<open>
  A host on which the node service runs with the local backend: the world is the host's kernel
  (theory \<open>Mount_Kernel\<close>) next to the SPDK daemon (theory \<open>Spdk_Daemon\<close>). The operations of both are
  lifted to the pair, and the contract of the node service is shown to hold there.
\<close>

section \<open>Definitions\<close>

text \<open>Operations on the first and on the second component of a pair.\<close>

definition on_fst :: "('k \<Rightarrow> 'a \<times> 'k) \<Rightarrow> 'k \<times> 's \<Rightarrow> 'a \<times> 'k \<times> 's" where
  "on_fst f = (\<lambda>(k, s). case f k of (r, k) \<Rightarrow> (r, k, s))"

definition on_snd :: "('s \<Rightarrow> 'a \<times> 's) \<Rightarrow> 'k \<times> 's \<Rightarrow> 'a \<times> 'k \<times> 's" where
  "on_snd f = (\<lambda>(k, s). case f s of (r, s) \<Rightarrow> (r, k, s))"

definition os_on_fst :: "'k os \<Rightarrow> ('k \<times> 's) os" where
  "os_on_fst os = \<lparr>os_Stat = (\<lambda>p w. os_Stat os p (fst w)), os_Lstat = (\<lambda>p w. os_Lstat os p (fst w)),
     os_EvalSymlinks = (\<lambda>p w. os_EvalSymlinks os p (fst w)), os_ReadFile = (\<lambda>p. on_fst (os_ReadFile os p)),
     os_ReadDir = (\<lambda>p w. os_ReadDir os p (fst w)), os_MkdirAll = (\<lambda>p m. on_fst (os_MkdirAll os p m)),
     os_Mkdir = (\<lambda>p m. on_fst (os_Mkdir os p m)), os_Remove = (\<lambda>p. on_fst (os_Remove os p)),
     os_WriteFile = (\<lambda>p c m. on_fst (os_WriteFile os p c m)), os_Create = (\<lambda>p m. on_fst (os_Create os p m)),
     os_Getpid = (\<lambda>w. os_Getpid os (fst w)), sys_Open = (\<lambda>p fl. on_fst (sys_Open os p fl)),
     sys_Openat = (\<lambda>f p fl. on_fst (sys_Openat os f p fl)), sys_Close = (\<lambda>f. on_fst (sys_Close os f)),
     sys_Fstat = (\<lambda>f w. sys_Fstat os f (fst w)), sys_Mkdirat = (\<lambda>f p m. on_fst (sys_Mkdirat os f p m)),
     sys_Fchmod = (\<lambda>f m. on_fst (sys_Fchmod os f m)), sys_Mount = (\<lambda>a b c fl. on_fst (sys_Mount os a b c fl)),
     os_LookPath = (\<lambda>p w. os_LookPath os p (fst w)), os_Command = (\<lambda>c as. on_fst (os_Command os c as))\<rparr>"

definition backend_on_snd :: "'s OIMBackend \<Rightarrow> ('k \<times> 's) OIMBackend" where
  "backend_on_snd be = \<lparr>backend_createVolume = (\<lambda>v n. on_snd (backend_createVolume be v n)),
     backend_deleteVolume = (\<lambda>v. on_snd (backend_deleteVolume be v)),
     backend_checkVolumeExists = (\<lambda>v. on_snd (backend_checkVolumeExists be v)),
     backend_createDevice = (\<lambda>v q (k, s). case backend_createDevice be v q s of
         None \<Rightarrow> None
       | Some Panic \<Rightarrow> Some Panic
       | Some (Ret (r, c, s)) \<Rightarrow> Some (Ret (r, map_option on_snd c, k, s))),
     backend_deleteDevice = (\<lambda>v. on_snd (backend_deleteDevice be v))\<rparr>"

section \<open>Lemmas\<close>

lemma on_fst_simp [simp]: "on_fst f (k, s) = (fst (f k), snd (f k), s)"
  by (simp add: on_fst_def split: prod.split)

text \<open>Lifting commutes with what the mount package does.\<close>

lemma run_on_fst: "osExec_Run (os_on_fst os) c as (k, s) = (fst (osExec_Run os c as k), snd (osExec_Run os c as k), s)"
  by (simp add: osExec_Run_def os_on_fst_def)

lemma doMount_on_fst:
  "doMount (os_on_fst os) m mp mc src tgt t opts (k, s) =
     (fst (doMount os m mp mc src tgt t opts k), snd (doMount os m mp mc src tgt t opts k), s)"
  by (simp add: doMount_def os_on_fst_def Let_def split: prod.split option.split)

lemma Mount_on_fst:
  "if_Mount (Mounter_basic (os_on_fst os) m) src tgt t opts (k, s) =
     (fst (if_Mount (Mounter_basic os m) src tgt t opts k), snd (if_Mount (Mounter_basic os m) src tgt t opts k), s)"
  by (simp add: Mounter_basic_def Mounter_Mount_def doMount_on_fst Let_def split: prod.split sum.split)

lemma disk_tools_on_fst:
  assumes "disk_tools (Mounter_basic os m) (osExec_Run os) fmt ok"
  shows "disk_tools (Mounter_basic (os_on_fst os) m) (osExec_Run (os_on_fst os)) (\<lambda>w. fmt (fst w)) (\<lambda>w. ok (fst w) \<and> P (snd w))"
proof unfold_locales
  fix w :: "'a \<times> 'b" and w' src tgt t opts args disk out e
  obtain k s where w: "w = (k, s)" by (cases w)
  assume "ok (fst w) \<and> P (snd w)"
  then have ok: "ok k" "P s" using w by simp_all
  note law = disk_tools.mount_keeps [OF assms ok(1)] disk_tools.fsck_keeps [OF assms ok(1)]
    disk_tools.blkid_keeps [OF assms ok(1)] disk_tools.blkid_reports [OF assms ok(1)]
    disk_tools.blkid_unformatted [OF assms ok(1)] disk_tools.formats [OF assms ok(1)]
  let ?M = "if_Mount (Mounter_basic (os_on_fst os) m) src tgt t opts w"
  show "fmt (fst (snd ?M)) = fmt (fst w) \<and> ok (fst (snd ?M)) \<and> P (snd (snd ?M))"
    using law(1) ok by (simp add: w Mount_on_fst)
  show "fmt (fst (snd (osExec_Run (os_on_fst os) ''fsck'' args w))) = fmt (fst w)
      \<and> ok (fst (snd (osExec_Run (os_on_fst os) ''fsck'' args w))) \<and> P (snd (snd (osExec_Run (os_on_fst os) ''fsck'' args w)))"
    using law(2) ok by (simp add: w run_on_fst)
  show "fmt (fst (snd (osExec_Run (os_on_fst os) ''blkid'' args w))) = fmt (fst w)
      \<and> ok (fst (snd (osExec_Run (os_on_fst os) ''blkid'' args w))) \<and> P (snd (snd (osExec_Run (os_on_fst os) ''blkid'' args w)))"
    using law(3) ok by (simp add: w run_on_fst)
  show "fst (osExec_Run (os_on_fst os) ''blkid'' (blkid_args disk) w) = (blkid_text disk (fmt (fst w) disk), None)"
    if "fmt (fst w) disk \<noteq> Unformatted" "plain_value disk"
    using law(4) that by (simp add: w run_on_fst)
  show "snd (fst (osExec_Run (os_on_fst os) ''blkid'' (blkid_args disk) w)) = Some (ExitStatus 2)"
    if "fmt (fst w) disk = Unformatted"
    using law(5) that by (simp add: w run_on_fst)
  show "format_ok (fmt (fst w) disk)" using law(6) by (simp add: w)
  show "(\<forall>d. d \<noteq> src \<longrightarrow> fmt (fst w') d = fmt (fst w) d) \<and> (e = None \<longrightarrow> fmt (fst w') src = FS t) \<and> ok (fst w') \<and> P (snd w')"
    if run: "osExec_Run (os_on_fst os) (''mkfs.'' @ t) (mkfs_args t src) w = ((out, e), w')" and t: "plain_value t"
  proof -
    obtain k' where k': "osExec_Run os (''mkfs.'' @ t) (mkfs_args t src) k = ((out, e), k')" "w' = (k', s)"
      using run by (cases "osExec_Run os (''mkfs.'' @ t) (mkfs_args t src) k") (auto simp: w run_on_fst)
    show ?thesis using disk_tools.mkfs [OF assms ok(1) k'(1) t] ok(2) by (simp add: w k'(2))
  qed
qed

text \<open>A device that the local backend reports is an NBD node.\<close>

lemma nbd_loop_result:
  assumes "nbd_loop env s i e = Some y"
  shows "fst y = [] \<and> snd y \<noteq> None \<or> (\<exists>j. fst y = nbd_name j)"
proof (rule nbd_loop.raw_induct [OF _ assms])
  fix loop env s i e and y :: "string \<times> go_error option"
  assume IH: "\<And>env s i e y. loop env s i e = Some y \<Longrightarrow> fst y = [] \<and> snd y \<noteq> None \<or> (\<exists>j. fst y = nbd_name j)"
    and eq: "(case dev_Open env (nbd_name i) s of
        Inl err \<Rightarrow>
          if os_IsNotExist err then Some ([], if e = None then Some err else e)
          else loop env s (i + 1) (Some err)
      | Inr nbdFile \<Rightarrow>
          (case GetBlkSize64 (dev_Seek env) nbdFile of
             (Inl err, nbdFile) \<Rightarrow> loop env s (i + 1) (Some err)
           | (Inr size64, nbdFile) \<Rightarrow>
               (case dev_Close env nbdFile of
                  Inl err \<Rightarrow> loop env s (i + 1) (Some err)
                | Inr _ \<Rightarrow> if size64 = 0 then Some (nbd_name i, e) else loop env s (i + 1) e))) = Some y"
  show "fst y = [] \<and> snd y \<noteq> None \<or> (\<exists>j. fst y = nbd_name j)"
  proof (cases "dev_Open env (nbd_name i) s")
    case (Inl err)
    then show ?thesis using eq IH by (cases e) (auto split: if_splits)
  next
    case (Inr f)
    obtain r f' where g: "GetBlkSize64 (dev_Seek env) f = (r, f')" by fastforce
    show ?thesis
      using eq IH Inr g by (cases r; cases "dev_Close env f'") (auto split: if_splits)
  qed
qed

lemma plain_nbd_name: "plain_value (nbd_name i)"
proof -
  have "c \<noteq> CHR ''='' \<and> c \<noteq> newline" if "c \<in> set (strconv_Itoa (int i))" for c
    using that list_all_is_digit_print [of i] by (auto simp: strconv_Itoa_def list_all_iff is_digit_def)
  then show ?thesis by (auto simp: plain_value_def nbd_name_def)
qed

lemma local_createDevice_result:
  assumes "local_createDevice (spdk_daemon env) lenv l v q s = Some (Ret (r, c, s'))" and "daemon_ok env s"
  shows "daemon_ok env s' \<and> c = None \<and> (\<forall>d. r = Inr d \<longrightarrow> plain_value d)"
proof (cases "spdk_New lenv (vhostEndpoint l) s")
  case (Inl err)
  then show ?thesis using assms by (auto simp: local_createDevice_def)
next
  case (Inr cl)
  then have cl: "cl = New_client" by (auto simp: spdk_New_def split: sum.splits)
  obtain cl1 where f: "client_ok cl1" "findNBDDevice (spdk_daemon env) v (New_client, s) = (Inr (nbd_of s v), cl1, s)"
    using findNBDDevice_daemon [OF client_ok_New, of env v s] by blast
  obtain d e where d: "(if nbd_of s v \<noteq> [] then Some (nbd_of s v, None) else nbd_loop lenv s 0 None) = Some (d, e)"
    using assms(1) Inr cl f by (auto simp: local_createDevice_def split: option.splits if_splits)
  show ?thesis
  proof (cases "d = []")
    case True
    then have "nbd_loop lenv s 0 None = Some (d, e)" using d by (auto split: if_splits)
    then have "e \<noteq> None" using nbd_loop_result [of lenv s 0 None "(d, e)"] True by (auto simp: nbd_name_def)
    then show ?thesis using assms Inr cl f d True by (auto simp: local_createDevice_def no_unused_def)
  next
    case False
    have res: "(r, c, s') = (fst (start_nbd (spdk_daemon env) v d (cl1, s)), None, snd (start_nbd (spdk_daemon env) v d (cl1, s)))"
      using assms(1) Inr cl f d False by (auto simp: local_createDevice_def split: prod.splits)
    obtain cl2 where st: "StartNBDDisk (spdk_daemon env) \<lparr>nbd_BDevName = v, NBDDevice = d\<rparr> (cl1, s) =
      (if d \<notin> nbd_path ` set (nbds s) \<and> bdevs s v \<noteq> None \<and> env_nbd env d
       then (Inr (), cl2, s\<lparr>nbds := nbds s @ [\<lparr>nbd_path = d, nbd_bdev = v\<rparr>]\<rparr>) else (Inl not_found, cl2, s))"
      using StartNBDDisk_daemon [OF f(1), of env v d s] by blast
    show ?thesis
    proof (cases "d \<notin> nbd_path ` set (nbds s) \<and> bdevs s v \<noteq> None \<and> env_nbd env d")
      case True
      then have "nbd_of s v = []" using d nbd_of_started [of s v] by (auto split: if_splits)
      then have "nbd_loop lenv s 0 None = Some (d, e)" using d by simp
      then have "plain_value d" using nbd_loop_result [of lenv s 0 None "(d, e)"] False plain_nbd_name by auto
      then show ?thesis using res st True assms(2) spdk_inv_nbd [of s d v] by (simp add: start_nbd_def daemon_ok_def)
    next
      case False
      then show ?thesis using res st assms(2) by (auto simp: start_nbd_def)
    qed
  qed
qed

abbreviation host_os :: "(kernel \<times> spdk) os" where
  "host_os \<equiv> os_on_fst kernel_os"

abbreviation host_backend :: "environment \<Rightarrow> (spdk, 'f) local_env \<Rightarrow> localSPDK \<Rightarrow> (kernel \<times> spdk) OIMBackend" where
  "host_backend env lenv l \<equiv> backend_on_snd (local_backend (spdk_daemon env) lenv l)"

definition host_ok :: "environment \<Rightarrow> kernel \<times> spdk \<Rightarrow> bool" where
  "host_ok env w \<longleftrightarrow> k_ok (fst w) \<and> daemon_ok env (snd w)"

interpretation host: node_host host_os "host_backend env lenv l" host_mounter "\<lambda>w. k_format (fst w)" "host_ok env" for env lenv l
proof (rule node_host.intro)
  fix w w' :: "kernel \<times> spdk" and p v :: string and m q r c
  show "disk_tools (Mounter_basic host_os host_mounter) (osExec_Run host_os) (\<lambda>w. k_format (fst w)) (host_ok env)"
    using disk_tools_on_fst [OF host_disks.disk_tools_axioms, of "daemon_ok env"] by (simp add: host_ok_def [abs_def])
  assume ok: "host_ok env w"
  show "mount_New host_os [] w = (host_mounter, w)"
    by (simp add: mount_New_def detectSystemd_def os_on_fst_def kernel_os_def host_mounter_def)
  show "k_format (fst (snd (os_MkdirAll host_os p m w))) = k_format (fst w) \<and> host_ok env (snd (os_MkdirAll host_os p m w))"
    using ok by (cases w) (auto simp: os_on_fst_def kernel_os_def k_mkdirall_def host_ok_def k_ok_def k_format_def fun_eq_iff)
  show "k_format (fst w') = k_format (fst w) \<and> host_ok env w' \<and> (\<forall>d. r = Inr d \<longrightarrow> plain_value d)
      \<and> (\<forall>f w. c = Some f \<and> host_ok env w \<longrightarrow> k_format (fst (snd (f w))) = k_format (fst w) \<and> host_ok env (snd (f w)))"
    if dev: "backend_createDevice (host_backend env lenv l) v q w = Some (Ret (r, c, w'))"
  proof -
    obtain k s where w: "w = (k, s)" by (cases w)
    obtain c' s' where d: "local_createDevice (spdk_daemon env) lenv l v q s = Some (Ret (r, c', s'))" "c = map_option on_snd c'" "w' = (k, s')"
      using dev by (auto simp: w backend_on_snd_def local_backend_def split: option.splits outcome.splits)
    then show ?thesis using local_createDevice_result [OF d(1)] ok by (simp add: w host_ok_def)
  qed
qed

text \<open>The local backend does not panic, and so neither does staging.\<close>

lemma stage_no_panic:
  assumes "host_ok env w"
  shows "stage_locked host_os (host_backend env lenv l) p v t q w \<noteq> Some Panic"
proof -
  obtain r1 w1 where p: "prepare_staging host_os p w = (r1, w1)" by (cases "prepare_staging host_os p w")
  obtain k s where w1: "w1 = (k, s)" by (cases w1)
  have "local_createDevice (spdk_daemon env) lenv l v q s \<noteq> Some Panic"
    by (auto simp: local_createDevice_def split: sum.split prod.split option.split)
  then have "backend_createDevice (host_backend env lenv l) v q w1 \<noteq> Some Panic"
    by (auto simp: w1 backend_on_snd_def local_backend_def split: option.split outcome.split)
  then show ?thesis
    using p by (cases r1) (auto simp: stage_locked_def split: option.splits outcome.splits sum.splits prod.splits)
qed

text \<open>Staging returns as long as some NBD device name does not exist.\<close>

lemma stage_returns:
  assumes "host_ok env w" and "\<And>s. node_missing lenv s n"
  shows "stage_locked host_os (host_backend env lenv l) p v t q w \<noteq> None"
proof -
  obtain r1 w1 where p: "prepare_staging host_os p w = (r1, w1)" by (cases "prepare_staging host_os p w")
  obtain k s where w1: "w1 = (k, s)" by (cases w1)
  have ends: "\<exists>y. nbd_loop lenv s' 0 None = Some y" for s'
    using nbd_loop_ends [OF assms(2), of 0 s' None] by auto
  have "local_createDevice (spdk_daemon env) lenv l v q s \<noteq> None"
    using ends by (auto simp: local_createDevice_def split: sum.split prod.split option.split)
      (metis option.distinct(1))
  then have "backend_createDevice (host_backend env lenv l) v q w1 \<noteq> None"
    by (auto simp: w1 backend_on_snd_def local_backend_def split: option.split outcome.split)
  then show ?thesis
    using p by (cases r1) (auto simp: stage_locked_def split: option.splits outcome.splits sum.splits prod.splits)
qed

section \<open>Properties\<close>



end
