(* ===== verification/Csi_Driver.thy ===== *)
theory Csi_Driver
  imports Csi_Node Csi_Remote
begin

text \<open>
  Construction and start of the CSI driver (\<^verbatim>\<open>pkg/oim-csi-driver/oim-driver.go\<close>, \<^verbatim>\<open>driver.go\<close>,
  \<^verbatim>\<open>driver0.go\<close>), the registration of the Ceph emulation (\<^verbatim>\<open>ceph-csi.go\<close>) and the identity service
  (\<^verbatim>\<open>identityserver.go\<close>, \<^verbatim>\<open>identityserver0.go\<close>). The struct \<^verbatim>\<open>oimDriver03\<close> embeds \<^verbatim>\<open>oimDriver\<close>, which is
  a record extension here. The interface value in \<^verbatim>\<open>backend\<close> points into the driver itself, so it is
  enough to know which of the two backends it is.
\<close>

section \<open>Definitions\<close>

datatype backend_choice = NoBackend | LocalBackend | RemoteBackend

record oimDriver =
  driverName :: string
  version :: string
  csiVersion :: string
  nodeID :: string
  csiEndpoint :: string
  od_remote :: remoteSPDK
  od_local :: localSPDK
  emulatedCSIDriverName :: string
  od_backend :: backend_choice
  od_cap :: "controller_capability list"
  od_vc :: "AccessMode list"

record oimDriver03 = oimDriver +
  od_cap0 :: "controller_capability list"
  od_vc0 :: "AccessMode list"

record EmulateCSI0Driver =
  CSIDriverName :: string
  ControllerServiceCapabilities :: "controller_capability list"
  VolumeCapabilityAccessModes :: "AccessMode list"
  MapVolumeParams :: "NodeStageVolumeRequest \<Rightarrow> MapVolumeRequest \<Rightarrow> MapVolumeRequest result"

definition emulateCephCSI0 :: EmulateCSI0Driver where
  "emulateCephCSI0 = \<lparr>CSIDriverName = ''ceph-csi'',
     ControllerServiceCapabilities =
       [CREATE_DELETE_VOLUME, PUBLISH_UNPUBLISH_VOLUME, CREATE_DELETE_SNAPSHOT, LIST_SNAPSHOTS],
     VolumeCapabilityAccessModes = [SINGLE_NODE_WRITER],
     MapVolumeParams = mapCephVolumeParams\<rparr>"

text \<open>The tables of emulated drivers after the \<^verbatim>\<open>init\<close> functions of the package have run.\<close>

definition supportedCSI0Drivers :: "string \<rightharpoonup> EmulateCSI0Driver" where
  "supportedCSI0Drivers = [''ceph-csi'' \<mapsto> emulateCephCSI0]"

definition supportedCSIDrivers :: "string \<rightharpoonup> EmulateCSI0Driver" where
  "supportedCSIDrivers = Map.empty"

datatype driver_option =
    WithDriverName string
  | WithDriverVersion string
  | WithCSIVersion string
  | WithNodeID string
  | WithCSIEndpoint string
  | WithVHostEndpoint string
  | WithOIMRegistryAddress string
  | WithRegistryCreds string string
  | WithOIMControllerID string
  | WithEmulation string

fun apply_driver_option :: "driver_option \<Rightarrow> 'x oimDriver_scheme \<Rightarrow> 'x oimDriver_scheme result" where
  "apply_driver_option (WithDriverName name) od = Inr (od\<lparr>driverName := name\<rparr>)"
| "apply_driver_option (WithDriverVersion v) od = Inr (od\<lparr>version := v\<rparr>)"
| "apply_driver_option (WithCSIVersion v) od = Inr (od\<lparr>csiVersion := v\<rparr>)"
| "apply_driver_option (WithNodeID i) od = Inr (od\<lparr>nodeID := i\<rparr>)"
| "apply_driver_option (WithCSIEndpoint endpoint) od = Inr (od\<lparr>csiEndpoint := endpoint\<rparr>)"
| "apply_driver_option (WithVHostEndpoint endpoint) od = Inr (od\<lparr>od_local := (od_local od)\<lparr>vhostEndpoint := endpoint\<rparr>\<rparr>)"
| "apply_driver_option (WithOIMRegistryAddress address) od =
     Inr (od\<lparr>od_remote := (od_remote od)\<lparr>oimRegistryAddress := address\<rparr>\<rparr>)"
| "apply_driver_option (WithRegistryCreds ca key) od =
     Inr (od\<lparr>od_remote := (od_remote od)\<lparr>registryCA := ca, registryKey := key\<rparr>\<rparr>)"
| "apply_driver_option (WithOIMControllerID i) od = Inr (od\<lparr>od_remote := (od_remote od)\<lparr>oimControllerID := i\<rparr>\<rparr>)"
| "apply_driver_option (WithEmulation name) od = Inr (od\<lparr>emulatedCSIDriverName := name\<rparr>)"

fun apply_driver_options :: "driver_option list \<Rightarrow> 'x oimDriver_scheme \<Rightarrow> 'x oimDriver_scheme result" where
  "apply_driver_options [] od = Inr od"
| "apply_driver_options (op # options) od =
     (case apply_driver_option op od of Inl err \<Rightarrow> Inl err | Inr od \<Rightarrow> apply_driver_options options od)"

definition csi10 :: string where "csi10 = ''1.0''"
definition csi03 :: string where "csi03 = ''0.3''"

definition setControllerServiceCapabilities :: "controller_capability list \<Rightarrow> 'x oimDriver_scheme \<Rightarrow> 'x oimDriver_scheme" where
  "setControllerServiceCapabilities cl od = od\<lparr>od_cap := foldl (\<lambda>csc c. csc @ [c]) [] cl\<rparr>"

definition setVolumeCapabilityAccessModes :: "AccessMode list \<Rightarrow> 'x oimDriver_scheme \<Rightarrow> 'x oimDriver_scheme" where
  "setVolumeCapabilityAccessModes vc od = od\<lparr>od_vc := foldl (\<lambda>vca c. vca @ [c]) [] vc\<rparr>"

definition setControllerServiceCapabilities0 :: "controller_capability list \<Rightarrow> oimDriver03 \<Rightarrow> oimDriver03" where
  "setControllerServiceCapabilities0 cl od = od\<lparr>od_cap0 := foldl (\<lambda>csc c. csc @ [c]) [] cl\<rparr>"

definition setVolumeCapabilityAccessModes0 :: "AccessMode list \<Rightarrow> oimDriver03 \<Rightarrow> oimDriver03" where
  "setVolumeCapabilityAccessModes0 vc od = od\<lparr>od_vc0 := foldl (\<lambda>vca c. vca @ [c]) [] vc\<rparr>"

text \<open>The type assertion of the closures that \<^verbatim>\<open>New\<close> installs panics for a request of the other version.\<close>

definition emulate0 :: "EmulateCSI0Driver \<Rightarrow> csi_request \<Rightarrow> MapVolumeRequest \<Rightarrow> MapVolumeRequest result outcome" where
  "emulate0 e request to = (case request of CSI03 from \<Rightarrow> Ret (MapVolumeParams e from to) | CSI10 _ \<Rightarrow> Panic)"

definition emulate1 :: "EmulateCSI0Driver \<Rightarrow> csi_request \<Rightarrow> MapVolumeRequest \<Rightarrow> MapVolumeRequest result outcome" where
  "emulate1 e request to = (case request of CSI10 from \<Rightarrow> Ret (MapVolumeParams e from to) | CSI03 _ \<Rightarrow> Panic)"

definition default_driver :: oimDriver03 where
  "default_driver = \<lparr>driverName = ''oim-driver'', version = ''unknown'', csiVersion = csi10, nodeID = ''unset-node-id'',
     csiEndpoint = ''unix:///var/run/oim-driver.socket'',
     od_remote = \<lparr>oimRegistryAddress = [], registryCA = [], registryKey = [], oimControllerID = [], mapVolumeParams = None\<rparr>,
     od_local = \<lparr>vhostEndpoint = []\<rparr>, emulatedCSIDriverName = [], od_backend = NoBackend, od_cap = [], od_vc = [],
     od_cap0 = [], od_vc0 = []\<rparr>"

text \<open>The part of \<^verbatim>\<open>New\<close> that sets up the emulation of another driver.\<close>

definition set_emulation :: "oimDriver03 \<Rightarrow> oimDriver03 result" where
  "set_emulation od =
     (if csiVersion od = csi03
      then (case supportedCSI0Drivers (emulatedCSIDriverName od) of
              None \<Rightarrow> Inl (Errorf ''cannot emulate CSI 0.3 driver %q'' [emulatedCSIDriverName od])
            | Some e \<Rightarrow> Inr (setVolumeCapabilityAccessModes0 (VolumeCapabilityAccessModes e)
                (setControllerServiceCapabilities0 (ControllerServiceCapabilities e)
                  (od\<lparr>od_remote := (od_remote od)\<lparr>mapVolumeParams := Some (emulate0 e)\<rparr>\<rparr>))))
      else if csiVersion od = csi10
      then (case supportedCSIDrivers (emulatedCSIDriverName od) of
              None \<Rightarrow> Inl (Errorf ''cannot emulate CSI 1.0 driver %q'' [emulatedCSIDriverName od])
            | Some e \<Rightarrow> Inr (setVolumeCapabilityAccessModes (VolumeCapabilityAccessModes e)
                (setControllerServiceCapabilities (ControllerServiceCapabilities e)
                  (od\<lparr>od_remote := (od_remote od)\<lparr>mapVolumeParams := Some (emulate1 e)\<rparr>\<rparr>))))
      else Inr od)"

definition New_driver :: "driver_option list \<Rightarrow> oimDriver03 result" where
  "New_driver options =
     (case apply_driver_options options default_driver of
        Inl err \<Rightarrow> Inl err
      | Inr od \<Rightarrow>
          if vhostEndpoint (od_local od) \<noteq> [] \<and> oimRegistryAddress (od_remote od) \<noteq> []
          then Inl (ErrText ''SPDK and OIM registry usage are mutually exclusive'')
          else if vhostEndpoint (od_local od) = [] \<and> oimRegistryAddress (od_remote od) = []
          then Inl (ErrText ''Either SPDK or OIM registry must be selected'')
          else if oimRegistryAddress (od_remote od) \<noteq> [] \<and>
            (oimControllerID (od_remote od) = [] \<or> registryCA (od_remote od) = [] \<or> registryKey (od_remote od) = [])
          then Inl (ErrText ''Cannot use a OIM registry without a controller ID, CA file and key file'')
          else case
            (if csiVersion od = csi03
             then Inr (setVolumeCapabilityAccessModes0 [SINGLE_NODE_WRITER]
               (setControllerServiceCapabilities0 [CREATE_DELETE_VOLUME] od))
             else if csiVersion od = csi10
             then Inr (setVolumeCapabilityAccessModes [SINGLE_NODE_WRITER]
               (setControllerServiceCapabilities [CREATE_DELETE_VOLUME] od))
             else Inl (Errorf ''running as CSI version %q not supported'' [csiVersion od])) of
              Inl err \<Rightarrow> Inl err
            | Inr od \<Rightarrow>
                if vhostEndpoint (od_local od) \<noteq> []
                then (if emulatedCSIDriverName od \<noteq> []
                      then Inl (Errorf ''emulating CSI driver %q not currently implemented when using SPDK directly''
                             [emulatedCSIDriverName od])
                      else Inr (od\<lparr>od_backend := LocalBackend\<rparr>))
                else (case (if emulatedCSIDriverName od \<noteq> [] then set_emulation od else Inr od) of
                        Inl err \<Rightarrow> Inl err
                      | Inr od \<Rightarrow> Inr (od\<lparr>od_backend := RemoteBackend\<rparr>)))"

text \<open>The services that are registered with the gRPC server, by their names in the protocol.\<close>

definition csi_services :: "oimDriver03 \<Rightarrow> string list" where
  "csi_services od =
     (if csiVersion od = csi03 then [''csi.v0.Identity'', ''csi.v0.Node'', ''csi.v0.Controller'']
      else if csiVersion od = csi10 then [''csi.v1.Identity'', ''csi.v1.Node'', ''csi.v1.Controller'']
      else [])"

text \<open>The error of the server's \<^verbatim>\<open>Start\<close> is not looked at.\<close>

definition driver_Start ::
  "(string \<Rightarrow> 'e \<Rightarrow> unit result \<times> 'e) \<Rightarrow> (string \<Rightarrow> string \<Rightarrow> 'e \<Rightarrow> string result \<times> 'e)
   \<Rightarrow> oimDriver03 \<Rightarrow> 'e \<Rightarrow> NonBlockingGRPCServer result \<times> 'e" where
  "driver_Start removeFile listenOn od e =
     (let s = \<lparr>Endpoint = csiEndpoint od, serving = 0, server = None, stopped = False, addr = None\<rparr> in
      case Server_Start removeFile listenOn (csi_services od) s e of
        (_, s, e) \<Rightarrow> (Inr s, e))"

text \<open>\<open>None\<close>: the server goes on serving and \<^verbatim>\<open>Wait\<close> does not return.\<close>

definition driver_Run ::
  "(string \<Rightarrow> 'e \<Rightarrow> unit result \<times> 'e) \<Rightarrow> (string \<Rightarrow> string \<Rightarrow> 'e \<Rightarrow> string result \<times> 'e)
   \<Rightarrow> oimDriver03 \<Rightarrow> 'e \<Rightarrow> (unit result \<times> 'e) option" where
  "driver_Run removeFile listenOn od e =
     (case driver_Start removeFile listenOn od e of
        (Inl err, e) \<Rightarrow> Some (Inl err, e)
      | (Inr s, e) \<Rightarrow> (case Server_Wait s of None \<Rightarrow> None | Some _ \<Rightarrow> Some (Inr (), e)))"

definition ControllerGetCapabilities :: "'x oimDriver_scheme \<Rightarrow> controller_capability list result" where
  "ControllerGetCapabilities od = Inr (od_cap od)"

definition ControllerGetCapabilities0 :: "oimDriver03 \<Rightarrow> controller_capability list result" where
  "ControllerGetCapabilities0 od = Inr (od_cap0 od)"

definition GetPluginInfo :: "'x oimDriver_scheme \<Rightarrow> (string \<times> string) result" where
  "GetPluginInfo od = Inr (driverName od, version od)"

definition Probe :: "unit result" where
  "Probe = Inr ()"

definition GetPluginCapabilities :: "plugin_capability list result" where
  "GetPluginCapabilities = Inr [CONTROLLER_SERVICE]"

definition GetPluginInfo0 :: "oimDriver03 \<Rightarrow> (string \<times> string) result" where
  "GetPluginInfo0 od = Inr (driverName od, version od)"

definition Probe0 :: "unit result" where
  "Probe0 = Inr ()"

definition GetPluginCapabilities0 :: "plugin_capability list result" where
  "GetPluginCapabilities0 = Inr [CONTROLLER_SERVICE]"

section \<open>Lemmas\<close>

lemma foldl_snoc: "foldl (\<lambda>xs x. xs @ [x]) ys xs = ys @ xs"
  by (induction xs arbitrary: ys) simp_all

lemmas driver_setters [simp] = setControllerServiceCapabilities_def setVolumeCapabilityAccessModes_def
  setControllerServiceCapabilities0_def setVolumeCapabilityAccessModes0_def foldl_snoc

lemma apply_driver_option_total: "\<exists>od'. apply_driver_option op od = Inr od' \<and> mapVolumeParams (od_remote od') = mapVolumeParams (od_remote od)"
  by (cases op) simp_all

lemma apply_driver_options_total:
  "\<exists>od'. apply_driver_options options od = Inr od' \<and> mapVolumeParams (od_remote od') = mapVolumeParams (od_remote od)"
proof (induction options arbitrary: od)
  case (Cons op options)
  obtain od1 where "apply_driver_option op od = Inr od1" "mapVolumeParams (od_remote od1) = mapVolumeParams (od_remote od)"
    using apply_driver_option_total by blast
  then show ?case using Cons [of od1] by auto
qed simp

text \<open>The configuration that \<^verbatim>\<open>New\<close> accepts.\<close>

definition valid_driver :: "oimDriver03 \<Rightarrow> bool" where
  "valid_driver od \<longleftrightarrow>
     (vhostEndpoint (od_local od) = []) \<noteq> (oimRegistryAddress (od_remote od) = [])
     \<and> (oimRegistryAddress (od_remote od) \<noteq> [] \<longrightarrow>
          oimControllerID (od_remote od) \<noteq> [] \<and> registryCA (od_remote od) \<noteq> [] \<and> registryKey (od_remote od) \<noteq> [])
     \<and> csiVersion od \<in> {csi03, csi10}
     \<and> (emulatedCSIDriverName od \<noteq> [] \<longrightarrow>
          oimRegistryAddress (od_remote od) \<noteq> [] \<and> csiVersion od = csi03 \<and> emulatedCSIDriverName od = ''ceph-csi'')"

lemma csi_versions: "csi03 \<noteq> csi10"
  by (simp add: csi03_def csi10_def)

lemma set_emulation_spec:
  assumes "csiVersion od \<in> {csi03, csi10}"
  shows "set_emulation od = (if csiVersion od = csi03 \<and> emulatedCSIDriverName od = ''ceph-csi''
     then Inr (od\<lparr>od_remote := (od_remote od)\<lparr>mapVolumeParams := Some (emulate0 emulateCephCSI0)\<rparr>,
        od_cap0 := [CREATE_DELETE_VOLUME, PUBLISH_UNPUBLISH_VOLUME, CREATE_DELETE_SNAPSHOT, LIST_SNAPSHOTS],
        od_vc0 := [SINGLE_NODE_WRITER]\<rparr>)
     else Inl (Errorf (if csiVersion od = csi03 then ''cannot emulate CSI 0.3 driver %q'' else ''cannot emulate CSI 1.0 driver %q'')
            [emulatedCSIDriverName od]))"
  using assms csi_versions
  by (auto simp: set_emulation_def supportedCSI0Drivers_def supportedCSIDrivers_def emulateCephCSI0_def)

section \<open>Properties\<close>

text \<open>
  C27. Which configurations make a driver, and that the driver fits the requests it gets: \<^verbatim>\<open>New\<close>
  succeeds exactly for a valid configuration (one backend, with its credentials, a known version
  of the interface, and an emulation only of Ceph with version 0.3 and the registry); the backend is
  the configured one; and if there is a function for the parameters of the emulated driver, then the
  driver serves version 0.3, so that its type assertion on the request never fails.
\<close>

theorem New_driver_spec:
  "\<exists>od. apply_driver_options options default_driver = Inr od \<and>
    (case New_driver options of
       Inl _ \<Rightarrow> \<not> valid_driver od
     | Inr od' \<Rightarrow> valid_driver od \<and> csiVersion od' = csiVersion od
         \<and> od_backend od' = (if vhostEndpoint (od_local od) \<noteq> [] then LocalBackend else RemoteBackend)
         \<and> csi_services od' = (if csiVersion od = csi03 then [''csi.v0.Identity'', ''csi.v0.Node'', ''csi.v0.Controller'']
              else [''csi.v1.Identity'', ''csi.v1.Node'', ''csi.v1.Controller''])
         \<and> (case mapVolumeParams (od_remote od') of
              None \<Rightarrow> emulatedCSIDriverName od = []
            | Some f \<Rightarrow> csiVersion od' = csi03 \<and> (\<forall>rq to. f (CSI03 rq) to = Ret (mapCephVolumeParams rq to))))"
proof -
  obtain od where od: "apply_driver_options options default_driver = Inr od" "mapVolumeParams (od_remote od) = None"
    using apply_driver_options_total [of options default_driver] by (auto simp: default_driver_def)
  have em: "emulate0 emulateCephCSI0 (CSI03 rq) to = Ret (mapCephVolumeParams rq to)" for rq to
    by (simp add: emulate0_def emulateCephCSI0_def)
  show ?thesis
    using od csi_versions em
    by (intro exI [of _ od])
      (cases "vhostEndpoint (od_local od) = []"; cases "oimRegistryAddress (od_remote od) = []"; cases "emulatedCSIDriverName od = []";
        cases "csiVersion od = csi03"; cases "csiVersion od = csi10";
        simp add: New_driver_def valid_driver_def set_emulation_spec csi_services_def)
qed

text \<open>
  A driver whose socket cannot be set up starts and runs without an error: the error of the
  server's \<^verbatim>\<open>Start\<close> is dropped, and nothing is served.
\<close>

theorem driver_Run_hides_errors:
  assumes "ParseEndpoint (csiEndpoint od) = Inl err"
  shows "driver_Run removeFile listenOn od e = Some (Inr (), e)"
  using assms by (simp add: driver_Run_def driver_Start_def Server_Start_def Server_Wait_def Let_def)

text \<open>
  The emulation of Ceph announces capabilities for calls that the controller service does not
  implement.
\<close>

theorem emulation_announces_unimplemented:
  assumes "csiVersion od = csi03" and "emulatedCSIDriverName od = ''ceph-csi''" and "set_emulation od = Inr od'"
  shows "\<exists>cs. ControllerGetCapabilities0 od' = Inr cs \<and> CREATE_DELETE_SNAPSHOT \<in> set cs \<and> PUBLISH_UNPUBLISH_VOLUME \<in> set cs
    \<and> isl CreateSnapshot \<and> isl ControllerPublishVolume"
  using assms set_emulation_spec [of od]
  by (auto simp: ControllerGetCapabilities0_def CreateSnapshot_def ControllerPublishVolume_def)

text \<open>A change of the reply commutes with taking the lock.\<close>

lemma with_key_map:
  "with_key k (\<lambda>w. case b w of (Inl err, w) \<Rightarrow> Some (Ret (Inl err, w)) | (Inr n, w) \<Rightarrow> Some (Ret (Inr (f (g n)), w))) s =
     map_option (\<lambda>res. outcome_bind res (\<lambda>(r, s). Ret (map_sum id f r, s)))
       (with_key k (\<lambda>w. case b w of (Inl err, w) \<Rightarrow> Some (Ret (Inl err, w)) | (Inr n, w) \<Rightarrow> Some (Ret (Inr (g n), w))) s)"
  by (cases s) (auto simp: with_key_def split: option.split outcome.split sum.split prod.split)

text \<open>
  Both versions of the interface behave the same: \<^verbatim>\<open>CreateVolume\<close> of version 0.3 is that of
  version 1.0 with the parameters of the request added to the reply, deleting, publishing,
  unpublishing and unstaging are the same, and so is staging with a backend that does not
  emulate another driver.
\<close>

theorem versions_agree:
  "CreateVolume0 be rq s = map_option (\<lambda>res. outcome_bind res (\<lambda>(r, s). Ret (map_sum id
       (\<lambda>v. \<lparr>CsiVolumeId = CsiVolumeId v, CapacityBytes = CapacityBytes v, Attributes = Parameters rq\<rparr>) r, s))) (CreateVolume be rq s)
   \<and> DeleteVolume0 be v s = DeleteVolume be v s
   \<and> NodePublishVolume0 os pr s = NodePublishVolume os pr s
   \<and> NodeUnpublishVolume0 os p v s = NodeUnpublishVolume os p v s
   \<and> NodeUnstageVolume0 os be p v s = NodeUnstageVolume os be p v s
   \<and> NodeStageVolume0 os (remote_backend net (rm\<lparr>mapVolumeParams := None\<rparr>)) sr s
       = NodeStageVolume os (remote_backend net (rm\<lparr>mapVolumeParams := None\<rparr>)) sr s"
proof (intro conjI)
  let ?f = "\<lambda>v. \<lparr>CsiVolumeId = CsiVolumeId v, CapacityBytes = CapacityBytes v, Attributes = Parameters rq\<rparr>"
  show "CreateVolume0 be rq s = map_option (\<lambda>res. outcome_bind res (\<lambda>(r, s). Ret (map_sum id ?f r, s))) (CreateVolume be rq s)"
    using with_key_map [where f = ?f and k = "CreateName rq" and b = "backend_createVolume be (CreateName rq) (RequiredBytes rq)"
        and g = "\<lambda>n. \<lparr>CsiVolumeId = CreateName rq, CapacityBytes = n\<rparr>" and s = s, unfolded CsiVolume.select_convs]
    by (simp add: CreateVolume0_def CreateVolume_def reply_with_def Let_def split: sum.split)
  have same: "map_volume net (rm\<lparr>mapVolumeParams := None\<rparr>) conn v (CSI03 sr) w = map_volume net (rm\<lparr>mapVolumeParams := None\<rparr>) conn v (CSI10 sr) w"
    for conn v w by (simp add: map_volume_def)
  have create: "create_on_conn net (rm\<lparr>mapVolumeParams := None\<rparr>) conn v (CSI03 sr) w = create_on_conn net (rm\<lparr>mapVolumeParams := None\<rparr>) conn v (CSI10 sr) w"
    for conn v w unfolding create_on_conn_def same ..
  have device: "remote_createDevice net (rm\<lparr>mapVolumeParams := None\<rparr>) v (CSI03 sr) w = remote_createDevice net (rm\<lparr>mapVolumeParams := None\<rparr>) v (CSI10 sr) w"
    for v w unfolding remote_createDevice_def create ..
  show "NodeStageVolume0 os (remote_backend net (rm\<lparr>mapVolumeParams := None\<rparr>)) sr s
       = NodeStageVolume os (remote_backend net (rm\<lparr>mapVolumeParams := None\<rparr>)) sr s"
    unfolding NodeStageVolume0_def NodeStageVolume_def stage_locked_def [abs_def] remote_backend_def OIMBackend.select_convs device ..
qed (simp_all add: DeleteVolume0_def DeleteVolume_def NodePublishVolume0_def NodePublishVolume_def
    NodeUnpublishVolume0_def NodeUnpublishVolume_def NodeUnstageVolume0_def NodeUnstageVolume_def)

text \<open>
  The two versions do not validate alike: version 0.3 reports a mode as unsupported with which
  both versions create volumes.
\<close>

theorem validate_versions_differ:
  assumes "locks_free km" and "backend_checkVolumeExists be (ValidateVolumeId rq) w = (Inr (), w')" and "ValidateVolumeId rq \<noteq> []"
    and "ValidateCapabilities rq = [c]" and "GetMode c = SINGLE_NODE_READER_ONLY" and "AccessType c = Some (MountAccess mv)"
  shows "create_capabilities [c] = Inr ()
    \<and> (\<exists>cf. ValidateVolumeCapabilities be rq (km, w) = Some (Ret (Inr \<lparr>ConfirmedField = Some cf, ValidateMessage = []\<rparr>, km, w'))
          \<and> ConfirmedCapabilities cf = [c])
    \<and> ValidateVolumeCapabilities0 be rq (km, w) = Some (Ret (Inr \<lparr>Supported = False, Message0 = []\<rparr>, km, w'))"
  using assms by (simp add: ValidateVolumeCapabilities_def ValidateVolumeCapabilities0_def GetBlock_def GetMount_def Let_def
      locks_free_with_key)

end
