(* ===== verification/Oim_Log.thy ===== *)
theory Oim_Log
  imports Go_Errors
begin

text \<open>
  The logging package (\<^verbatim>\<open>pkg/log\<close>: \<^verbatim>\<open>level/level.go\<close>, \<^verbatim>\<open>fields.go\<close>, \<^verbatim>\<open>formatter.go\<close>, \<^verbatim>\<open>simple.go\<close>, \<^verbatim>\<open>log.go\<close>). A logger
  carries a slice of fields, and slices share arrays, so the arrays are kept in an explicit store:
  appending to a slice with spare capacity writes into the shared array, and otherwise makes a new one,
  whose capacity is up to the runtime (the parameter \<open>grow\<close>). Keys and values are the texts that
  \<^verbatim>\<open>fmt.Sprintf("%s")\<close> makes of them. Changing to upper case is modelled for ASCII.
\<close>

section \<open>Definitions\<close>

subsection \<open>Levels\<close>

type_synonym Threshold = int

definition prefixes :: "string list" where
  "prefixes = [''DEBUG'', ''INFO'', ''WARN'', ''ERROR'', ''FATAL'', ''PANIC'']"

definition level_Debug :: Threshold where "level_Debug = 0"
definition level_Info :: Threshold where "level_Info = 1"
definition level_Warn :: Threshold where "level_Warn = 2"
definition level_Error :: Threshold where "level_Error = 3"
definition level_Fatal :: Threshold where "level_Fatal = 4"
definition level_Panic :: Threshold where "level_Panic = 5"

text \<open>An index outside of the slice panics.\<close>

definition Threshold_String :: "Threshold \<Rightarrow> string outcome" where
  "Threshold_String t = (if 0 \<le> t \<and> t < int (length prefixes) then Ret (prefixes ! nat t) else Panic)"

definition to_upper :: "char \<Rightarrow> char" where
  "to_upper c = (if 97 \<le> (of_char c :: nat) \<and> of_char c \<le> (122 :: nat) then char_of (of_char c - 32 :: nat) else c)"

definition Threshold_Set :: "string \<Rightarrow> Threshold result" where
  "Threshold_Set value =
     (let upper = map to_upper value in
      case find (\<lambda>i. Threshold_String i = Ret upper) [level_Debug .. level_Panic] of
        Some i \<Rightarrow> Inr i
      | None \<Rightarrow> Inl (Errorf ''invalid threshold: %s'' [value]))"

subsection \<open>Fields\<close>

record Field =
  Key :: string
  FieldValue :: string

record field_slice =
  arr :: nat
  slen :: nat
  scap :: nat

text \<open>The arrays, by number. A new array takes the next number.\<close>

type_synonym field_heap = "Field list list"

definition nil_slice :: field_slice where
  "nil_slice = \<lparr>arr = 0, slen = 0, scap = 0\<rparr>"

definition elems :: "field_heap \<Rightarrow> field_slice \<Rightarrow> Field list" where
  "elems h s = (if slen s = 0 then [] else take (slen s) (h ! arr s))"

definition go_append :: "(nat \<Rightarrow> nat) \<Rightarrow> field_slice \<Rightarrow> Field \<Rightarrow> field_heap \<Rightarrow> field_slice \<times> field_heap" where
  "go_append grow s x h =
     (if slen s < scap s
      then (s\<lparr>slen := slen s + 1\<rparr>, h[arr s := (h ! arr s)[slen s := x]])
      else (let zero = \<lparr>Key = [], FieldValue = []\<rparr>; n = grow (scap s) in
            (\<lparr>arr = length h, slen = slen s + 1, scap = n\<rparr>,
             h @ [elems h s @ [x] @ replicate (n - (slen s + 1)) zero])))"

fun Clone :: "(nat \<Rightarrow> nat) \<Rightarrow> field_slice \<Rightarrow> string list \<Rightarrow> field_heap \<Rightarrow> field_slice \<times> field_heap" where
  "Clone grow clone (k # v # keysAndValues) h =
     (case go_append grow clone \<lparr>Key = k, FieldValue = v\<rparr> h of
        (clone, h) \<Rightarrow> Clone grow clone keysAndValues h)"
| "Clone grow clone _ h = (clone, h)"

fun trim_newlines :: "string \<Rightarrow> string" where
  "trim_newlines [] = []"
| "trim_newlines (c # s) = (if c = CHR 0x0A then trim_newlines s else c # s)"

definition LineBuffer_String :: "string \<Rightarrow> string" where
  "LineBuffer_String s = rev (trim_newlines (rev s))"

subsection \<open>Formatting\<close>

record special =
  sp_time :: string
  sp_level :: string
  sp_at :: "string list"
  sp_additional :: "Field list"

definition format_field :: "special \<Rightarrow> Field \<Rightarrow> special" where
  "format_field s field =
     (if Key field = ''time'' then s\<lparr>sp_time := FieldValue field\<rparr>
      else if Key field = ''at'' then s\<lparr>sp_at := sp_at s @ [FieldValue field]\<rparr>
      else if Key field = ''level'' then s\<lparr>sp_level := FieldValue field\<rparr>
      else s\<lparr>sp_additional := sp_additional s @ [field]\<rparr>)"

definition format_line :: "string \<Rightarrow> Field list \<Rightarrow> string \<Rightarrow> string" where
  "format_line level allFields msg =
     (let sp = foldl format_field \<lparr>sp_time = [], sp_level = level, sp_at = [], sp_additional = []\<rparr> allFields;
          s = (if 0 < length (sp_time sp) then [sp_time sp] else []);
          s = s @ [sp_level sp];
          s = (if 0 < length (sp_at sp) then s @ [strings_Join (sp_at sp) ''/'' @ '':''] else s);
          s = (if msg \<noteq> [] then s @ [msg] @ (if 0 < length (sp_additional sp) then [''|''] else []) else s);
          s = foldl (\<lambda>s field. s @ [Key field @ '':'', FieldValue field]) s (sp_additional sp)
      in strings_Join s '' '' @ [CHR 0x0A])"

definition Formatter_Printw ::
  "(nat \<Rightarrow> nat) \<Rightarrow> Threshold \<Rightarrow> field_slice \<Rightarrow> string \<Rightarrow> string list \<Rightarrow> field_heap \<Rightarrow> (string \<times> field_heap) outcome" where
  "Formatter_Printw grow threshold fs msg keysAndValues h =
     (case Clone grow fs keysAndValues h of
        (allFields, h) \<Rightarrow>
          outcome_bind (Threshold_String threshold) (\<lambda>level. Ret (format_line level (elems h allFields) msg, h)))"

subsection \<open>The simple logger\<close>

record simpleLogger =
  config_Level :: Threshold
  logger_fields :: field_slice

text \<open>What logging changes: the arrays and the lines that were written. A call returns, ends the process or panics.\<close>

record log_state =
  log_heap :: field_heap
  log_lines :: "string list"

datatype log_end = Continues | Exits | Panics

definition checkThreshold :: "Threshold \<Rightarrow> log_end" where
  "checkThreshold threshold =
     (if threshold = level_Fatal then Exits else if threshold = level_Panic then Panics else Continues)"

definition Outputw ::
  "(nat \<Rightarrow> nat) \<Rightarrow> simpleLogger \<Rightarrow> Threshold \<Rightarrow> string \<Rightarrow> string list \<Rightarrow> log_state \<Rightarrow> log_end \<times> log_state" where
  "Outputw grow sl threshold msg keysAndValues st =
     (if threshold \<ge> config_Level sl
      then (case Formatter_Printw grow threshold (logger_fields sl) msg keysAndValues (log_heap st) of
              Panic \<Rightarrow> (Panics, st)
            | Ret (line, h) \<Rightarrow> (checkThreshold threshold, \<lparr>log_heap = h, log_lines = log_lines st @ [line]\<rparr>))
      else (checkThreshold threshold, st))"

text \<open>\<^verbatim>\<open>Output\<close> gets the text that \<^verbatim>\<open>fmt.Sprint\<close> makes of its arguments.\<close>

definition Output :: "(nat \<Rightarrow> nat) \<Rightarrow> simpleLogger \<Rightarrow> Threshold \<Rightarrow> string \<Rightarrow> log_state \<Rightarrow> log_end \<times> log_state" where
  "Output grow sl threshold text_of_args st = Outputw grow sl threshold text_of_args [] st"

definition Outputf ::
  "(nat \<Rightarrow> nat) \<Rightarrow> simpleLogger \<Rightarrow> Threshold \<Rightarrow> string \<Rightarrow> string list \<Rightarrow> log_state \<Rightarrow> log_end \<times> log_state" where
  "Outputf grow sl threshold format args st = Outputw grow sl threshold (sprintf format args) [] st"

definition newSimpleLogger :: "Threshold \<Rightarrow> simpleLogger" where
  "newSimpleLogger level = \<lparr>config_Level = level, logger_fields = nil_slice\<rparr>"

definition logger_With :: "(nat \<Rightarrow> nat) \<Rightarrow> simpleLogger \<Rightarrow> string list \<Rightarrow> log_state \<Rightarrow> simpleLogger \<times> log_state" where
  "logger_With grow sl keysAndValues st =
     (case Clone grow (logger_fields sl) keysAndValues (log_heap st) of
        (fs, h) \<Rightarrow> ((newSimpleLogger (config_Level sl))\<lparr>logger_fields := fs\<rparr>, st\<lparr>log_heap := h\<rparr>))"

definition logger_Write :: "(nat \<Rightarrow> nat) \<Rightarrow> simpleLogger \<Rightarrow> string \<Rightarrow> log_state \<Rightarrow> (nat \<times> log_end) \<times> log_state" where
  "logger_Write grow sl p st =
     (case Output grow sl level_Info (LineBuffer_String p) st of (e, st) \<Rightarrow> ((length p, e), st))"

subsection \<open>Loggers in contexts\<close>

text \<open>The value that a context holds for the logger's key, and the global logger.\<close>

definition FromContextFallback :: "simpleLogger option \<Rightarrow> simpleLogger \<Rightarrow> simpleLogger" where
  "FromContextFallback ctx fallback = (case ctx of Some l \<Rightarrow> l | None \<Rightarrow> fallback)"

definition FromContext :: "simpleLogger \<Rightarrow> simpleLogger option \<Rightarrow> simpleLogger" where
  "FromContext global ctx = (case ctx of Some l \<Rightarrow> l | None \<Rightarrow> global)"

definition WithLogger :: "simpleLogger option \<Rightarrow> simpleLogger \<Rightarrow> simpleLogger option" where
  "WithLogger ctx l = Some l"

definition log_With ::
  "(nat \<Rightarrow> nat) \<Rightarrow> simpleLogger \<Rightarrow> simpleLogger option \<Rightarrow> string list \<Rightarrow> log_state \<Rightarrow> simpleLogger option \<times> log_state" where
  "log_With grow global ctx keysAndValues st =
     (case logger_With grow (FromContext global ctx) keysAndValues st of (l, st) \<Rightarrow> (WithLogger ctx l, st))"

section \<open>Lemmas\<close>

text \<open>A slice fits the store: it is within the capacity, which is the length of its array.\<close>

definition slice_ok :: "field_heap \<Rightarrow> field_slice \<Rightarrow> bool" where
  "slice_ok h s \<longleftrightarrow> slen s \<le> scap s \<and> (0 < scap s \<longrightarrow> arr s < length h \<and> length (h ! arr s) = scap s)"

text \<open>A slice that goes on behind the end of another one in the same array.\<close>

definition reaches_past :: "field_slice \<Rightarrow> field_slice \<Rightarrow> bool" where
  "reaches_past t s \<longleftrightarrow> 0 < scap t \<and> arr t = arr s \<and> slen s < slen t"

fun kv_pairs :: "string list \<Rightarrow> Field list" where
  "kv_pairs (k # v # kvs) = \<lparr>Key = k, FieldValue = v\<rparr> # kv_pairs kvs"
| "kv_pairs _ = []"

lemma go_append_spec:
  assumes "n < grow n" and "n = scap s" and "slice_ok h s" and "go_append grow s x h = (s', h')"
  shows "slice_ok h' s'" and "elems h' s' = elems h s @ [x]"
    and "slice_ok h t \<Longrightarrow> \<not> reaches_past t s \<Longrightarrow> slice_ok h' t \<and> elems h' t = elems h t \<and> \<not> reaches_past t s'"
proof -
  show "slice_ok h' s'" "elems h' s' = elems h s @ [x]"
    using assms by (auto simp: go_append_def slice_ok_def elems_def Let_def take_Suc_conv_app_nth nth_append split: if_splits)
  show "slice_ok h' t \<and> elems h' t = elems h t \<and> \<not> reaches_past t s'" if "slice_ok h t" "\<not> reaches_past t s"
    using assms that
    by (auto simp: go_append_def slice_ok_def elems_def reaches_past_def Let_def nth_append nth_list_update split: if_splits)
qed

lemma Clone_spec:
  assumes "\<forall>n. n < grow n" and "slice_ok h s" and "Clone grow s kvs h = (s', h')"
  shows "slice_ok h' s' \<and> elems h' s' = elems h s @ kv_pairs kvs
    \<and> (\<forall>t. slice_ok h t \<and> \<not> reaches_past t s \<longrightarrow> slice_ok h' t \<and> elems h' t = elems h t)"
  using assms
proof (induction grow s kvs h rule: Clone.induct)
  case (1 grow s k v kvs h)
  obtain s1 h1 where a: "go_append grow s \<lparr>Key = k, FieldValue = v\<rparr> h = (s1, h1)" by fastforce
  note spec = go_append_spec [OF 1(2) [rule_format] refl 1(3) a]
  have "Clone grow s1 kvs h1 = (s', h')" using 1(4) a by simp
  then have "slice_ok h1 s1 \<Longrightarrow> slice_ok h' s' \<and> elems h' s' = elems h1 s1 @ kv_pairs kvs
      \<and> (\<forall>t. slice_ok h1 t \<and> \<not> reaches_past t s1 \<longrightarrow> slice_ok h' t \<and> elems h' t = elems h1 t)"
    using 1(1) 1(2) a by simp
  then show ?case using spec by simp
qed (auto simp: elems_def)

lemma Threshold_String_inj: "Threshold_String i = Ret s \<Longrightarrow> Threshold_String j = Ret s \<Longrightarrow> i = j"
proof -
  assume a: "Threshold_String i = Ret s" "Threshold_String j = Ret s"
  have "distinct prefixes" by (simp add: prefixes_def)
  with a show "i = j"
    by (auto simp: Threshold_String_def nth_eq_iff_index_eq split: if_splits)
qed

lemma Threshold_Set_iff: "Threshold_Set v = Inr t \<longleftrightarrow> Threshold_String t = Ret (map to_upper v)"
proof -
  let ?f = "find (\<lambda>i. Threshold_String i = Ret (map to_upper v)) [level_Debug .. level_Panic]"
  have range: "Threshold_String t = Ret u \<Longrightarrow> t \<in> set [level_Debug .. level_Panic]" for t u
    by (auto simp: Threshold_String_def prefixes_def level_Debug_def level_Panic_def split: if_splits)
  show ?thesis
  proof (cases ?f)
    case None
    then have "Threshold_String t \<noteq> Ret (map to_upper v)" using range by (auto simp: find_None_iff)
    then show ?thesis using None by (simp add: Threshold_Set_def Let_def)
  next
    case (Some i)
    then have "Threshold_String i = Ret (map to_upper v)" by (auto simp: find_Some_iff)
    then show ?thesis using Some Threshold_String_inj [of i _ t] by (auto simp: Threshold_Set_def Let_def)
  qed
qed

text \<open>One message is one line, unless a text that is logged contains a line feed.\<close>

definition no_newline :: "string \<Rightarrow> bool" where
  "no_newline s \<longleftrightarrow> CHR 0x0A \<notin> set s"

lemma no_newline_Join: "no_newline sep \<Longrightarrow> list_all no_newline xs \<Longrightarrow> no_newline (strings_Join xs sep)"
  by (induction xs sep rule: strings_Join.induct) (auto simp: no_newline_def)

lemma format_fields_no_newline:
  assumes "list_all (\<lambda>f. no_newline (Key f) \<and> no_newline (FieldValue f)) fs"
    and "no_newline (sp_time s) \<and> no_newline (sp_level s) \<and> list_all no_newline (sp_at s)
      \<and> list_all (\<lambda>f. no_newline (Key f) \<and> no_newline (FieldValue f)) (sp_additional s)"
  shows "no_newline (sp_time (foldl format_field s fs)) \<and> no_newline (sp_level (foldl format_field s fs))
    \<and> list_all no_newline (sp_at (foldl format_field s fs))
    \<and> list_all (\<lambda>f. no_newline (Key f) \<and> no_newline (FieldValue f)) (sp_additional (foldl format_field s fs))"
  using assms by (induction fs arbitrary: s) (auto simp: format_field_def)

lemma foldl_fields:
  "foldl (\<lambda>s field. s @ [Key field @ '':'', FieldValue field]) s fs = s @ concat (map (\<lambda>f. [Key f @ '':'', FieldValue f]) fs)"
  by (induction fs arbitrary: s) simp_all

lemma format_line_one_line:
  assumes "no_newline level" and "no_newline msg" and "list_all (\<lambda>f. no_newline (Key f) \<and> no_newline (FieldValue f)) fs"
  shows "\<exists>line. format_line level fs msg = line @ [CHR 0x0A] \<and> no_newline line"
proof -
  have join: "no_newline (strings_Join xs '' '')" if "list_all no_newline xs" for xs
    by (rule no_newline_Join) (use that in \<open>simp_all add: no_newline_def\<close>)
  have at: "no_newline (strings_Join xs ''/'' @ '':'')" if "list_all no_newline xs" for xs
    using no_newline_Join [of "''/''" xs] that by (simp add: no_newline_def)
  let ?s = "\<lparr>sp_time = [], sp_level = level, sp_at = [], sp_additional = []\<rparr>"
  have sp: "no_newline (sp_time (foldl format_field ?s fs)) \<and> no_newline (sp_level (foldl format_field ?s fs))
    \<and> list_all no_newline (sp_at (foldl format_field ?s fs))
    \<and> list_all (\<lambda>f. no_newline (Key f) \<and> no_newline (FieldValue f)) (sp_additional (foldl format_field ?s fs))"
    by (rule format_fields_no_newline) (use assms in \<open>simp_all add: no_newline_def\<close>)
  have pairs: "list_all no_newline (concat (map (\<lambda>f. [Key f @ '':'', FieldValue f]) fs))"
    if "list_all (\<lambda>f. no_newline (Key f) \<and> no_newline (FieldValue f)) fs" for fs
    using that by (induction fs) (simp_all add: no_newline_def)
  have bar: "no_newline ''|''" by (simp add: no_newline_def)
  show ?thesis
    using sp at [of "sp_at (foldl format_field ?s fs)"] pairs [of "sp_additional (foldl format_field ?s fs)"] bar assms(2)
    unfolding format_line_def Let_def foldl_fields
    by - (rule exI, rule conjI, rule refl, rule join, simp)
qed

text \<open>
  Two loggers made from the same one share its array when that has spare capacity: a message of the
  parent with a field of its own replaces the last field of the child.
\<close>

theorem With_overwritten:
  assumes "slice_ok (log_heap st) (logger_fields sl)" and "slen (logger_fields sl) < scap (logger_fields sl)"
    and "logger_With grow sl [k, v] st = (child, st1)" and "t \<ge> config_Level sl" and "Threshold_String t = Ret l"
    and "Outputw grow sl t msg [x, y] st1 = (e, st2)"
  shows "elems (log_heap st1) (logger_fields child) = elems (log_heap st) (logger_fields sl) @ [\<lparr>Key = k, FieldValue = v\<rparr>]"
    and "elems (log_heap st2) (logger_fields child) = elems (log_heap st) (logger_fields sl) @ [\<lparr>Key = x, FieldValue = y\<rparr>]"
  using assms
  by (auto simp: logger_With_def go_append_def newSimpleLogger_def elems_def slice_ok_def Outputw_def Formatter_Printw_def
      take_Suc_conv_app_nth nth_append)

section \<open>Properties\<close>

text \<open>
  What the simple logger writes: a message appears exactly when its level is at least that of the
  logger, as one call of the writer with the fields of the logger and of the message in their order;
  whether it appears or not, a fatal message ends the process and a panic message panics. The fields
  of the logger stay as they are, and so do those of every other logger that does not go on behind
  them in the same array.
\<close>

theorem Outputw_spec:
  assumes "\<forall>n. n < grow n" and "slice_ok (log_heap st) (logger_fields sl)" and "Threshold_String t = Ret l"
    and "Outputw grow sl t msg kvs st = (e, st')"
  shows "e = (if t = level_Fatal then Exits else if t = level_Panic then Panics else Continues)
    \<and> log_lines st' = log_lines st @
        (if t \<ge> config_Level sl then [format_line l (elems (log_heap st) (logger_fields sl) @ kv_pairs kvs) msg] else [])
    \<and> (\<forall>s. slice_ok (log_heap st) s \<and> \<not> reaches_past s (logger_fields sl) \<longrightarrow>
          slice_ok (log_heap st') s \<and> elems (log_heap st') s = elems (log_heap st) s)"
proof -
  obtain fs h where c: "Clone grow (logger_fields sl) kvs (log_heap st) = (fs, h)" by fastforce
  note spec = Clone_spec [OF assms(1,2) c]
  show ?thesis
    using assms(3,4) c spec by (auto simp: Outputw_def Formatter_Printw_def checkThreshold_def split: if_splits)
qed

text \<open>The runtime of the witness doubles the capacity; the logger has one field.\<close>

definition sample_grow :: "nat \<Rightarrow> nat" where
  "sample_grow n = (if n = 0 then 1 else 2 * n)"

theorem Outputw_spec_witness:
  "\<exists>sl st st'. logger_With sample_grow (newSimpleLogger level_Info) [''at'', ''x''] \<lparr>log_heap = [], log_lines = []\<rparr> = (sl, st)
    \<and> Outputw sample_grow sl level_Warn ''hello'' [''k'', ''v''] st = (Continues, st')
    \<and> log_lines st' = [''WARN x: hello | k: v'' @ [CHR 0x0A]]"
proof -
  let ?f = "\<lparr>Key = ''at'', FieldValue = ''x''\<rparr>"
  let ?sl = "\<lparr>config_Level = level_Info, logger_fields = \<lparr>arr = 0, slen = 1, scap = 1\<rparr>\<rparr>"
  let ?st = "\<lparr>log_heap = [[?f]], log_lines = []\<rparr>"
  have w: "logger_With sample_grow (newSimpleLogger level_Info) [''at'', ''x''] \<lparr>log_heap = [], log_lines = []\<rparr> = (?sl, ?st)"
    by (simp add: logger_With_def newSimpleLogger_def go_append_def sample_grow_def nil_slice_def elems_def Let_def)
  obtain e st' where o: "Outputw sample_grow ?sl level_Warn ''hello'' [''k'', ''v''] ?st = (e, st')" by fastforce
  have "\<forall>n. n < sample_grow n" "slice_ok (log_heap ?st) (logger_fields ?sl)" "Threshold_String level_Warn = Ret ''WARN''"
    by (simp_all add: sample_grow_def slice_ok_def Threshold_String_def prefixes_def level_Warn_def)
  from Outputw_spec [OF this o] have "e = Continues"
    and "log_lines st' = [format_line ''WARN'' [?f, \<lparr>Key = ''k'', FieldValue = ''v''\<rparr>] ''hello'']"
    by (simp_all add: level_Fatal_def level_Panic_def level_Warn_def level_Info_def elems_def)
  moreover have "format_line ''WARN'' [?f, \<lparr>Key = ''k'', FieldValue = ''v''\<rparr>] ''hello'' = ''WARN x: hello | k: v'' @ [CHR 0x0A]"
    by code_simp
  ultimately show ?thesis using w o by (intro exI conjI) auto
qed

end
