(* ===== verification/Oim_Tracing.thy ===== *)
theory Oim_Tracing
  imports Oim_Log Spdk_Json
begin

text \<open>
  Logging of gRPC calls (\<^verbatim>\<open>pkg/oim-common/tracing.go\<close>) and the removal of secrets from what is logged
  (\<^verbatim>\<open>vendor/github.com/kubernetes-csi/csi-lib-utils/protosanitizer\<close>). A payload is what the
  interceptors see of a message: its type, its generic JSON representation and its text with \<^verbatim>\<open>%+v\<close>.
  The descriptors of the generated message types are a table by type name. Numbers in payloads are
  integers that a \<^verbatim>\<open>float64\<close> represents exactly.
\<close>

section \<open>Definitions\<close>

subsection \<open>Encoding of JSON\<close>

fun bytes_le :: "string \<Rightarrow> string \<Rightarrow> bool" where
  "bytes_le [] ys = True"
| "bytes_le (x # xs) [] = False"
| "bytes_le (x # xs) (y # ys) = ((of_char x :: nat) < of_char y \<or> x = y \<and> bytes_le xs ys)"

fun insert_key :: "string \<times> 'a \<Rightarrow> (string \<times> 'a) list \<Rightarrow> (string \<times> 'a) list" where
  "insert_key x [] = [x]"
| "insert_key x (y # ys) = (if bytes_le (fst x) (fst y) then x # y # ys else y # insert_key x ys)"

definition sort_keys :: "(string \<times> 'a) list \<Rightarrow> (string \<times> 'a) list" where
  "sort_keys xs = foldr insert_key xs []"

definition json_char :: "char \<Rightarrow> string" where
  "json_char c =
     (if c = CHR 0x22 \<or> c = CHR 0x5C then [CHR 0x5C, c]
      else if c = CHR 0x0A then [CHR 0x5C, CHR ''n'']
      else if c = CHR 0x0D then [CHR 0x5C, CHR ''r'']
      else if c = CHR 0x09 then [CHR 0x5C, CHR ''t'']
      else if (of_char c :: nat) < 32 \<or> c \<in> {CHR ''<'', CHR ''>'', CHR ''&''}
      then [CHR 0x5C, CHR ''u''] @ fmt_x 4 (of_char c)
      else [c])"

definition json_quote :: "string \<Rightarrow> string" where
  "json_quote s = [CHR 0x22] @ concat (map json_char s) @ [CHR 0x22]"

fun json_Marshal :: "json \<Rightarrow> string" where
  "json_Marshal JNull = ''null''"
| "json_Marshal (JBool b) = (if b then ''true'' else ''false'')"
| "json_Marshal (JNum n) = strconv_Itoa n"
| "json_Marshal (JStr s) = json_quote s"
| "json_Marshal (JArr vs) = ''['' @ strings_Join (map json_Marshal vs) '','' @ '']''"
| "json_Marshal (JObj kvs) = ''{'' @ strings_Join (map (\<lambda>(k, t). json_quote k @ '':'' @ t)
     (sort_keys (map (\<lambda>(k, v). (k, json_Marshal v)) kvs))) '','' @ ''}''"

subsection \<open>Removing secrets\<close>

text \<open>
  A field descriptor: its name, whether the option \<^verbatim>\<open>csi_secret\<close> is set, and the name of its type, with a
  leading dot, if that is a message. A type that is not registered as a message has no entry.
\<close>

record FieldDescriptor =
  fd_name :: string
  fd_csi_secret :: bool
  fd_type_name :: "string option"

type_synonym proto_types = "string \<rightharpoonup> FieldDescriptor list"

definition isCSI1Secret :: "FieldDescriptor \<Rightarrow> bool" where
  "isCSI1Secret field \<longleftrightarrow> fd_csi_secret field"

definition isCSI03Secret :: "FieldDescriptor \<Rightarrow> bool" where
  "isCSI03Secret field \<longleftrightarrow> strings_HasSuffix (fd_name field) ''_secrets''"

definition stripped :: json where
  "stripped = JStr ''***stripped***''"

definition put_key :: "string \<Rightarrow> 'a \<Rightarrow> (string \<times> 'a) list \<Rightarrow> (string \<times> 'a) list" where
  "put_key k x = map (\<lambda>(k', v). if k' = k then (k', x) else (k', v))"

text \<open>
  One round of the loop over the fields; \<open>sub\<close> has the function that strips the value of each member,
  given the type. No two fields of a message have the same name, so every member is visited at
  most once, with the value that it had in the beginning.
\<close>

definition strip_field ::
  "proto_types \<Rightarrow> (FieldDescriptor \<Rightarrow> bool) \<Rightarrow> (string \<times> (string \<Rightarrow> json)) list \<Rightarrow> (string \<times> json) list \<Rightarrow> FieldDescriptor
   \<Rightarrow> (string \<times> json) list" where
  "strip_field types isSecretField sub parsedFields field =
     (if isSecretField field
      then (if map_of parsedFields (fd_name field) \<noteq> None then put_key (fd_name field) stripped parsedFields
            else parsedFields)
      else case fd_type_name field of
        None \<Rightarrow> parsedFields
      | Some typeName \<Rightarrow>
          (let typeName = (if strings_HasPrefix typeName ''.'' then drop 1 typeName else typeName) in
           if types typeName = None then parsedFields
           else case map_of sub (fd_name field) of
             None \<Rightarrow> parsedFields
           | Some f \<Rightarrow> put_key (fd_name field) (f typeName) parsedFields))"

fun strip :: "proto_types \<Rightarrow> (FieldDescriptor \<Rightarrow> bool) \<Rightarrow> json \<Rightarrow> string \<Rightarrow> json" where
  "strip types isSecretField (JObj kvs) = (\<lambda>t.
     case types t of
       None \<Rightarrow> JObj kvs
     | Some fs \<Rightarrow> JObj (foldl (strip_field types isSecretField
         (map (\<lambda>(k, v). (k, case v of
              JArr vs \<Rightarrow> (\<lambda>t. JArr (map (\<lambda>e. strip types isSecretField e t) vs))
            | _ \<Rightarrow> strip types isSecretField v)) kvs)) kvs fs))"
| "strip types isSecretField j = (\<lambda>t. j)"

subsection \<open>Formatting of payloads\<close>

record payload =
  pl_name :: string
  pl_gotype :: string
  pl_json :: "json result"
  pl_text :: string

text \<open>\<^verbatim>\<open>stripSecrets.String\<close>. The generic representation that was read back can always be encoded again.\<close>

definition stripSecrets_String :: "proto_types \<Rightarrow> (FieldDescriptor \<Rightarrow> bool) \<Rightarrow> payload \<Rightarrow> string" where
  "stripSecrets_String types isSecretField msg =
     (case pl_json msg of
        Inl err \<Rightarrow> sprintf ''<<json.Marshal %T: %s>>'' [pl_gotype msg, error_text err]
      | Inr parsed \<Rightarrow> json_Marshal (strip types isSecretField parsed (pl_name msg)))"

datatype PayloadFormatter = CompletePayloadFormatter | StripSecretsFormatter | NullPayloadFormatter

fun Sprint :: "proto_types \<Rightarrow> PayloadFormatter \<Rightarrow> payload option \<Rightarrow> string" where
  "Sprint types CompletePayloadFormatter None = ''<nil>''"
| "Sprint types CompletePayloadFormatter (Some p) = (if pl_text p = [] then ''<empty>'' else pl_text p)"
| "Sprint types StripSecretsFormatter None = ''null''"
| "Sprint types StripSecretsFormatter (Some p) = stripSecrets_String types isCSI1Secret p"
| "Sprint types NullPayloadFormatter None = ''nil''"
| "Sprint types NullPayloadFormatter (Some p) = ''<filtered>''"

subsection \<open>Interceptors\<close>

text \<open>
  The state is that of the logger and the world of the handler, which may log itself. The payload is
  formatted only when the message is printed, which makes no difference to the result.
\<close>

definition logGRPCPre ::
  "(nat \<Rightarrow> nat) \<Rightarrow> proto_types \<Rightarrow> simpleLogger option \<Rightarrow> simpleLogger \<Rightarrow> PayloadFormatter \<Rightarrow> string \<Rightarrow> string
   \<Rightarrow> payload option \<Rightarrow> log_state \<Rightarrow> simpleLogger option \<times> log_state" where
  "logGRPCPre grow types ctx logger formatter msg fullMethod rq st =
     (case logger_With grow logger [''method'', fullMethod] st of
        (logger, st) \<Rightarrow>
          (case Outputw grow logger level_Debug msg [''request'', Sprint types formatter rq] st of
             (_, st) \<Rightarrow> (WithLogger ctx logger, st)))"

definition logGRPCPost ::
  "(nat \<Rightarrow> nat) \<Rightarrow> proto_types \<Rightarrow> simpleLogger \<Rightarrow> simpleLogger option \<Rightarrow> PayloadFormatter \<Rightarrow> string \<Rightarrow> go_error option
   \<Rightarrow> payload option \<Rightarrow> log_state \<Rightarrow> log_state" where
  "logGRPCPost grow types global ctx formatter msg err reply st =
     (case err of
        Some err \<Rightarrow> snd (Outputw grow (FromContext global ctx) level_Error msg [''error'', error_text err] st)
      | None \<Rightarrow> snd (Outputw grow (FromContext global ctx) level_Debug msg [''response'', Sprint types formatter reply] st))"

type_synonym 'w grpc_handler = "simpleLogger option \<Rightarrow> payload option \<Rightarrow> log_state \<times> 'w
  \<Rightarrow> (payload option \<times> go_error option) \<times> log_state \<times> 'w"

definition LogGRPCServer ::
  "(nat \<Rightarrow> nat) \<Rightarrow> proto_types \<Rightarrow> simpleLogger \<Rightarrow> simpleLogger \<Rightarrow> PayloadFormatter option \<Rightarrow> simpleLogger option \<Rightarrow> string
   \<Rightarrow> 'w grpc_handler \<Rightarrow> payload option \<Rightarrow> log_state \<times> 'w \<Rightarrow> (payload option \<times> go_error option) \<times> log_state \<times> 'w" where
  "LogGRPCServer grow types global logger formatter ctx fullMethod handler rq = (\<lambda>(st, w).
     let formatter = (case formatter of None \<Rightarrow> NullPayloadFormatter | Some f \<Rightarrow> f) in
     case logGRPCPre grow types ctx logger formatter ''received'' fullMethod rq st of
       (ctx, st) \<Rightarrow>
         (case handler ctx rq (st, w) of
            ((reply, err), st, w) \<Rightarrow>
              ((reply, err), logGRPCPost grow types global ctx formatter ''sending'' err reply st, w)))"

text \<open>The invoker fills in the reply.\<close>

definition LogGRPCClient ::
  "(nat \<Rightarrow> nat) \<Rightarrow> proto_types \<Rightarrow> simpleLogger \<Rightarrow> PayloadFormatter option \<Rightarrow> simpleLogger option \<Rightarrow> string
   \<Rightarrow> 'w grpc_handler \<Rightarrow> payload option \<Rightarrow> log_state \<times> 'w \<Rightarrow> (payload option \<times> go_error option) \<times> log_state \<times> 'w" where
  "LogGRPCClient grow types global formatter ctx fullMethod invoker rq = (\<lambda>(st, w).
     let formatter = (case formatter of None \<Rightarrow> NullPayloadFormatter | Some f \<Rightarrow> f) in
     case logGRPCPre grow types ctx (FromContext global ctx) formatter ''sending'' fullMethod rq st of
       (ctx, st) \<Rightarrow>
         (case invoker ctx rq (st, w) of
            ((reply, err), st, w) \<Rightarrow>
              ((reply, err), logGRPCPost grow types global ctx formatter ''received'' err reply st, w)))"

section \<open>Lemmas\<close>

text \<open>
  Two messages that differ only in secrets: in the members of fields that are marked, at any depth that
  the stripping reaches.
\<close>

definition field_type :: "proto_types \<Rightarrow> FieldDescriptor \<Rightarrow> string option" where
  "field_type types field =
     (case fd_type_name field of
        None \<Rightarrow> None
      | Some n \<Rightarrow> (let n = (if strings_HasPrefix n ''.'' then drop 1 n else n) in if types n = None then None else Some n))"

inductive same_public :: "proto_types \<Rightarrow> (FieldDescriptor \<Rightarrow> bool) \<Rightarrow> string \<Rightarrow> json \<Rightarrow> json \<Rightarrow> bool"
  and same_entry :: "proto_types \<Rightarrow> (FieldDescriptor \<Rightarrow> bool) \<Rightarrow> string \<Rightarrow> json \<Rightarrow> json \<Rightarrow> bool"
  for types :: proto_types and isS :: "FieldDescriptor \<Rightarrow> bool" where
  same: "same_public types isS t j j"
| object: "types t = Some fs \<Longrightarrow> distinct (map fd_name fs) \<Longrightarrow>
    list_all2 (\<lambda>m1 m2. fst m1 = fst m2 \<and> (snd m1 = snd m2
      \<or> (\<exists>f \<in> set fs. fd_name f = fst m1 \<and> isS f)
      \<or> (\<exists>f \<in> set fs. fd_name f = fst m1 \<and> \<not> isS f
          \<and> (\<exists>n. field_type types f = Some n \<and> same_entry types isS n (snd m1) (snd m2))))) kvs1 kvs2 \<Longrightarrow>
    same_public types isS t (JObj kvs1) (JObj kvs2)"
| single: "same_public types isS n v1 v2 \<Longrightarrow> same_entry types isS n v1 v2"
| array: "list_all2 (same_public types isS n) vs1 vs2 \<Longrightarrow> same_entry types isS n (JArr vs1) (JArr vs2)"

definition strip_entry :: "proto_types \<Rightarrow> (FieldDescriptor \<Rightarrow> bool) \<Rightarrow> json \<Rightarrow> string \<Rightarrow> json" where
  "strip_entry types isS v = (case v of JArr vs \<Rightarrow> (\<lambda>t. JArr (map (\<lambda>e. strip types isS e t) vs)) | _ \<Rightarrow> strip types isS v)"

lemma put_key_absent: "map_of obj k = None \<Longrightarrow> put_key k x obj = obj"
  by (induction obj) (auto simp: put_key_def split: if_splits)

lemma strip_field_alt:
  "strip_field types isS sub obj f =
     (if isS f then put_key (fd_name f) stripped obj
      else case field_type types f of
        None \<Rightarrow> obj
      | Some n \<Rightarrow> (case map_of sub (fd_name f) of None \<Rightarrow> obj | Some g \<Rightarrow> put_key (fd_name f) (g n) obj))"
  by (auto simp: strip_field_def field_type_def put_key_absent Let_def split: option.splits)

lemma put_key_same:
  assumes "list_all2 (\<lambda>m1 m2. fst m1 = fst m2 \<and> (snd m1 = snd m2 \<or> fst m1 = k \<or> P (fst m1))) o1 o2"
  shows "list_all2 (\<lambda>m1 m2. fst m1 = fst m2 \<and> (snd m1 = snd m2 \<or> P (fst m1))) (put_key k x o1) (put_key k x o2)"
  using assms by (induction o1 o2 rule: list_all2_induct) (auto simp: put_key_def)

lemma put_key_fst: "map fst (put_key k x obj) = map fst obj"
  by (auto simp: put_key_def)

lemma put_key_fst_set: "fst ` set (put_key k x obj) = fst ` set obj"
  using put_key_fst [of k x obj] by (metis list.set_map)

definition strips :: "proto_types \<Rightarrow> (FieldDescriptor \<Rightarrow> bool) \<Rightarrow> FieldDescriptor list \<Rightarrow> string \<Rightarrow> bool" where
  "strips types isS fs k \<longleftrightarrow> (\<exists>f \<in> set fs. fd_name f = k \<and> (isS f \<or> field_type types f \<noteq> None))"

lemma strips_Cons:
  "strips types isS (f # fs) k \<longleftrightarrow> k = fd_name f \<and> (isS f \<or> field_type types f \<noteq> None) \<or> strips types isS fs k"
  by (auto simp: strips_def)

lemma fold_strip_same:
  assumes "list_all2 (\<lambda>m1 m2. fst m1 = fst m2 \<and> (snd m1 = snd m2 \<or> strips types isS fs (fst m1))) o1 o2"
    and "\<And>f n. f \<in> set fs \<Longrightarrow> \<not> isS f \<Longrightarrow> field_type types f = Some n \<Longrightarrow>
      rel_option (\<lambda>g1 g2. g1 n = g2 n) (map_of sub1 (fd_name f)) (map_of sub2 (fd_name f))"
    and "fst ` set o1 \<subseteq> fst ` set sub1"
  shows "foldl (strip_field types isS sub1) o1 fs = foldl (strip_field types isS sub2) o2 fs"
  using assms
proof (induction fs arbitrary: o1 o2)
  case Nil
  then have "list_all2 (=) o1 o2" by (auto elim!: list_all2_mono simp: strips_def prod_eq_iff)
  then show ?case by (simp add: list.rel_eq)
next
  case (Cons f fs)
  have tail: "\<And>f n. f \<in> set fs \<Longrightarrow> \<not> isS f \<Longrightarrow> field_type types f = Some n \<Longrightarrow>
      rel_option (\<lambda>g1 g2. g1 n = g2 n) (map_of sub1 (fd_name f)) (map_of sub2 (fd_name f))" using Cons(3) by simp
  have put: "foldl (strip_field types isS sub1) (put_key (fd_name f) x o1) fs = foldl (strip_field types isS sub2) (put_key (fd_name f) x o2) fs" for x
  proof (rule Cons.IH [OF _ tail])
    show "list_all2 (\<lambda>m1 m2. fst m1 = fst m2 \<and> (snd m1 = snd m2 \<or> strips types isS fs (fst m1))) (put_key (fd_name f) x o1) (put_key (fd_name f) x o2)"
      by (rule put_key_same, rule list_all2_mono [OF Cons(2)]) (auto simp: strips_Cons)
  qed (use Cons(4) in \<open>simp_all add: put_key_fst_set\<close>)
  have keep: "foldl (strip_field types isS sub1) o1 fs = foldl (strip_field types isS sub2) o2 fs"
    if "\<not> isS f \<and> field_type types f = None \<or> fd_name f \<notin> fst ` set o1"
  proof (rule Cons.IH [OF _ tail Cons(4)])
    have "\<forall>m \<in> set o1. strips types isS (f # fs) (fst m) \<longrightarrow> strips types isS fs (fst m)"
      using that by (force simp: strips_Cons)
    then show "list_all2 (\<lambda>m1 m2. fst m1 = fst m2 \<and> (snd m1 = snd m2 \<or> strips types isS fs (fst m1))) o1 o2"
      using Cons(2) unfolding list_all2_conv_all_nth by (metis nth_mem)
  qed simp_all
  consider "isS f" | "\<not> isS f" "field_type types f = None" | n where "\<not> isS f" "field_type types f = Some n"
    by (cases "field_type types f") auto
  then show ?case
  proof cases
    case 1
    then show ?thesis using put by (simp add: strip_field_alt [of _ _ _ _ f])
  next
    case 2
    then show ?thesis using keep by (simp add: strip_field_alt [of _ _ _ _ f])
  next
    case (3 n)
    then have rel: "rel_option (\<lambda>g1 g2. g1 n = g2 n) (map_of sub1 (fd_name f)) (map_of sub2 (fd_name f))" using Cons(3) by simp
    show ?thesis
    proof (cases "map_of sub1 (fd_name f)")
      case None
      then have "fd_name f \<notin> fst ` set o1" using Cons(4) by (auto simp: map_of_eq_None_iff)
      then show ?thesis using keep None rel 3 by (simp add: strip_field_alt [of _ _ _ _ f])
    next
      case (Some g1)
      with rel obtain g2 where "map_of sub2 (fd_name f) = Some g2" "g1 n = g2 n" by (auto simp: option_rel_Some1)
      then show ?thesis using put Some 3 by (simp add: strip_field_alt [of _ _ _ _ f])
    qed
  qed
qed

lemma strip_JObj:
  "strip types isS (JObj kvs) t =
     (case types t of
        None \<Rightarrow> JObj kvs
      | Some fs \<Rightarrow> JObj (foldl (strip_field types isS (map (\<lambda>m. (fst m, strip_entry types isS (snd m))) kvs)) kvs fs))"
proof -
  have "map (\<lambda>(k, v). (k, case v of JArr vs \<Rightarrow> (\<lambda>t. JArr (map (\<lambda>e. strip types isS e t) vs)) | _ \<Rightarrow> strip types isS v)) kvs =
      map (\<lambda>m. (fst m, strip_entry types isS (snd m))) kvs"
    by (intro map_cong refl) (auto simp: strip_entry_def split: json.split)
  then show ?thesis by (simp only: strip.simps(1))
qed

lemma map_of_members:
  assumes "list_all2 (\<lambda>m1 m2. fst m1 = fst m2 \<and> R (fst m1) (snd m1) (snd m2)) kvs1 kvs2"
  shows "rel_option (R k) (map_of kvs1 k) (map_of kvs2 k)"
  using assms by (induction kvs1 kvs2 rule: list_all2_induct) auto

lemma map_of_sub: "map_of (map (\<lambda>m. (fst m, g (snd m))) kvs) k = map_option g (map_of kvs k)"
  by (induction kvs) auto

text \<open>Stripping makes messages equal that differ only in secrets.\<close>

lemma strip_same:
  "same_public types isS t j1 j2 \<Longrightarrow> strip types isS j1 t = strip types isS j2 t"
  "same_entry types isS n v1 v2 \<Longrightarrow> strip_entry types isS v1 n = strip_entry types isS v2 n"
proof (induction rule: same_public_same_entry.inducts)
  case (object t fs kvs1 kvs2)
  let ?R = "\<lambda>k v1 v2. v1 = v2 \<or> (\<exists>f \<in> set fs. fd_name f = k \<and> isS f)
      \<or> (\<exists>f \<in> set fs. fd_name f = k \<and> \<not> isS f \<and> (\<exists>n. field_type types f = Some n \<and> strip_entry types isS v1 n = strip_entry types isS v2 n))"
  have members: "list_all2 (\<lambda>m1 m2. fst m1 = fst m2 \<and> ?R (fst m1) (snd m1) (snd m2)) kvs1 kvs2"
    using object by - (erule list_all2_mono, blast)
  have unique: "f = g" if "f \<in> set fs" "g \<in> set fs" "fd_name f = fd_name g" for f g
    using that object by (auto simp: distinct_map inj_on_def)
  have "foldl (strip_field types isS (map (\<lambda>m. (fst m, strip_entry types isS (snd m))) kvs1)) kvs1 fs =
      foldl (strip_field types isS (map (\<lambda>m. (fst m, strip_entry types isS (snd m))) kvs2)) kvs2 fs"
  proof (rule fold_strip_same)
    show "list_all2 (\<lambda>m1 m2. fst m1 = fst m2 \<and> (snd m1 = snd m2 \<or> strips types isS fs (fst m1))) kvs1 kvs2"
      by (rule list_all2_mono [OF members]) (auto simp: strips_def)
    show "rel_option (\<lambda>g1 g2. g1 n = g2 n) (map_of (map (\<lambda>m. (fst m, strip_entry types isS (snd m))) kvs1) (fd_name f))
        (map_of (map (\<lambda>m. (fst m, strip_entry types isS (snd m))) kvs2) (fd_name f))"
      if f: "f \<in> set fs" "\<not> isS f" "field_type types f = Some n" for f n
    proof -
      have "?R (fd_name f) v1 v2 \<Longrightarrow> strip_entry types isS v1 n = strip_entry types isS v2 n" for v1 v2
        using f unique by fastforce
      then show ?thesis
        using map_of_members [OF members, of "fd_name f"]
        by (cases "map_of kvs1 (fd_name f)"; cases "map_of kvs2 (fd_name f)") (simp_all add: map_of_sub)
    qed
  qed (auto simp: image_image)
  then show ?case using object unfolding strip_JObj by simp
next
  case (single n v1 v2)
  then show ?case by (cases rule: same_public.cases) (auto simp: strip_entry_def)
next
  case (array n vs1 vs2)
  then have "map (\<lambda>e. strip types isS e n) vs1 = map (\<lambda>e. strip types isS e n) vs2"
    by (auto simp: list_all2_conv_all_nth intro!: nth_equalityI)
  then show ?case by (simp add: strip_entry_def)
qed simp

lemma logGRPCPre_same:
  assumes "Sprint types formatter r1 = Sprint types formatter r2"
  shows "logGRPCPre grow types ctx logger formatter msg m r1 st = logGRPCPre grow types ctx logger formatter msg m r2 st"
  using assms by (simp add: logGRPCPre_def)

text \<open>
  The request to map a Ceph volume (\<^verbatim>\<open>pkg/spec/oim/v0/oim.pb.go\<close>, \<^verbatim>\<open>spec.md\<close>). The parameters are a \<^verbatim>\<open>oneof\<close>, which the
  Go structure holds in a field \<^verbatim>\<open>Params\<close> without a JSON name, so that the members of the generic
  representation are called after the Go structures.
\<close>

definition MapVolumeRequest_fields :: "FieldDescriptor list" where
  "MapVolumeRequest_fields =
     [\<lparr>fd_name = ''volume_id'', fd_csi_secret = False, fd_type_name = None\<rparr>,
      \<lparr>fd_name = ''malloc'', fd_csi_secret = False, fd_type_name = Some ''.oim.v0.MallocParams''\<rparr>,
      \<lparr>fd_name = ''ceph'', fd_csi_secret = False, fd_type_name = Some ''.oim.v0.CephParams''\<rparr>]"

definition MapVolumeRequest_json :: "string \<Rightarrow> string \<Rightarrow> string \<Rightarrow> string \<Rightarrow> string \<Rightarrow> string \<Rightarrow> json" where
  "MapVolumeRequest_json volumeId userId secret monitors pool img =
     JObj [(''volume_id'', JStr volumeId), (''Params'', JObj [(''Ceph'', JObj
       [(''user_id'', JStr userId), (''secret'', JStr secret), (''monitors'', JStr monitors), (''pool'', JStr pool), (''image'', JStr img)])])]"

text \<open>
  Nothing is removed from this request, however the fields of \<^verbatim>\<open>CephParams\<close> are marked: the members that
  the sanitizer looks for do not exist. The secret is part of what the client logs.
\<close>

theorem ceph_secret_logged:
  assumes "types ''oim.v0.MapVolumeRequest'' = Some MapVolumeRequest_fields"
  shows "strip types isCSI1Secret (MapVolumeRequest_json v u s m p i) ''oim.v0.MapVolumeRequest'' = MapVolumeRequest_json v u s m p i"
  using assms
  by (simp add: MapVolumeRequest_json_def MapVolumeRequest_fields_def strip_field_def isCSI1Secret_def put_key_def Let_def)

text \<open>
  The messages of version 0.3 have no marks (\<^verbatim>\<open>pkg/spec/csi/v0/csi.pb.go\<close>). The formatter leaves their secrets in, although
  its comment mentions that version; the function of the package for that version would remove them.
\<close>

definition NodeStageVolumeRequest0_fields :: "FieldDescriptor list" where
  "NodeStageVolumeRequest0_fields =
     [\<lparr>fd_name = ''volume_id'', fd_csi_secret = False, fd_type_name = None\<rparr>,
      \<lparr>fd_name = ''publish_info'', fd_csi_secret = False, fd_type_name = Some ''.csi.v0.NodeStageVolumeRequest.PublishInfoEntry''\<rparr>,
      \<lparr>fd_name = ''staging_target_path'', fd_csi_secret = False, fd_type_name = None\<rparr>,
      \<lparr>fd_name = ''volume_capability'', fd_csi_secret = False, fd_type_name = Some ''.csi.v0.VolumeCapability''\<rparr>,
      \<lparr>fd_name = ''node_stage_secrets'', fd_csi_secret = False, fd_type_name = Some ''.csi.v0.NodeStageVolumeRequest.NodeStageSecretsEntry''\<rparr>,
      \<lparr>fd_name = ''volume_attributes'', fd_csi_secret = False, fd_type_name = Some ''.csi.v0.NodeStageVolumeRequest.VolumeAttributesEntry''\<rparr>]"

theorem csi03_secrets_logged:
  assumes "types ''csi.v0.NodeStageVolumeRequest'' = Some NodeStageVolumeRequest0_fields"
    and "types ''csi.v0.NodeStageVolumeRequest.NodeStageSecretsEntry'' = None"
  shows "strip types isCSI1Secret (JObj [(''volume_id'', v), (''node_stage_secrets'', s)]) ''csi.v0.NodeStageVolumeRequest'' =
      JObj [(''volume_id'', v), (''node_stage_secrets'', s)]"
    and "strip types isCSI03Secret (JObj [(''volume_id'', v), (''node_stage_secrets'', s)]) ''csi.v0.NodeStageVolumeRequest'' =
      JObj [(''volume_id'', v), (''node_stage_secrets'', stripped)]"
  using assms
  by (simp_all add: NodeStageVolumeRequest0_fields_def strip_field_def isCSI1Secret_def isCSI03Secret_def put_key_def
      strings_HasSuffix_def strings_HasPrefix_def Let_def)

text \<open>The server's interceptor, with the formatter that \<^verbatim>\<open>Start\<close> gives it, prints every request in full.\<close>

theorem server_logs_requests:
  assumes "\<forall>n. n < grow n" and "slice_ok (log_heap st) (logger_fields logger)" and "config_Level logger \<le> level_Debug" and "pl_text p \<noteq> []"
  shows "log_lines (snd (logGRPCPre grow types ctx logger CompletePayloadFormatter ''received'' m (Some p) st)) =
    log_lines st @ [format_line ''DEBUG'' (elems (log_heap st) (logger_fields logger)
      @ [\<lparr>Key = ''method'', FieldValue = m\<rparr>, \<lparr>Key = ''request'', FieldValue = pl_text p\<rparr>]) ''received'']"
proof -
  obtain f1 h1 where c1: "Clone grow (logger_fields logger) [''method'', m] (log_heap st) = (f1, h1)" by fastforce
  note s1 = Clone_spec [OF assms(1,2) c1]
  obtain f2 h2 where c2: "Clone grow f1 [''request'', pl_text p] h1 = (f2, h2)" by fastforce
  note s2 = Clone_spec [OF assms(1) s1 [THEN conjunct1] c2]
  have "Threshold_String level_Debug = Ret ''DEBUG''" by (simp add: Threshold_String_def prefixes_def level_Debug_def)
  then show ?thesis
    using c1 c2 s1 s2 assms(3,4)
    by (auto simp: logGRPCPre_def logger_With_def newSimpleLogger_def Outputw_def Formatter_Printw_def)
qed

section \<open>Properties\<close>

text \<open>
  C28. What the client's interceptor does and logs does not depend on secrets: for two requests of the
  same type that differ only in the values of fields marked as secret, at any depth, and a call that
  treats them alike, the replies, everything that is written to the log and all else are the same.
\<close>

theorem client_log_hides_secrets:
  assumes "pl_json p = Inr jp" and "pl_json q = Inr jq" and "pl_name p = pl_name q"
    and "same_public types isCSI1Secret (pl_name p) jp jq"
    and "\<forall>ctx s. invoker ctx (Some p) s = invoker ctx (Some q) s"
  shows "LogGRPCClient grow types global (Some StripSecretsFormatter) ctx m invoker (Some p) s =
    LogGRPCClient grow types global (Some StripSecretsFormatter) ctx m invoker (Some q) s"
proof -
  have "Sprint types StripSecretsFormatter (Some p) = Sprint types StripSecretsFormatter (Some q)"
    using assms(1-3) strip_same(1) [OF assms(4)] by (simp add: stripSecrets_String_def)
  from logGRPCPre_same [OF this] assms(5) show ?thesis by (simp add: LogGRPCClient_def)
qed

text \<open>The messages of the witness have a secret inside of a list of messages.\<close>

definition sample_types :: proto_types where
  "sample_types = [''T'' \<mapsto> [\<lparr>fd_name = ''id'', fd_csi_secret = False, fd_type_name = None\<rparr>,
       \<lparr>fd_name = ''parts'', fd_csi_secret = False, fd_type_name = Some ''.P''\<rparr>],
     ''P'' \<mapsto> [\<lparr>fd_name = ''key'', fd_csi_secret = True, fd_type_name = None\<rparr>]]"

definition sample_message :: "string \<Rightarrow> payload" where
  "sample_message k = \<lparr>pl_name = ''T'', pl_gotype = ''T'',
     pl_json = Inr (JObj [(''id'', JStr ''v''), (''parts'', JArr [JObj [(''key'', JStr k)]])]), pl_text = k\<rparr>"

lemma sample_same_public:
  "same_public sample_types isCSI1Secret ''T'' (JObj [(''id'', JStr ''v''), (''parts'', JArr [JObj [(''key'', JStr a)]])])
     (JObj [(''id'', JStr ''v''), (''parts'', JArr [JObj [(''key'', JStr b)]])])"
proof -
  have "same_public sample_types isCSI1Secret ''P'' (JObj [(''key'', JStr a)]) (JObj [(''key'', JStr b)])"
    by (rule same_public_same_entry.object) (auto simp: sample_types_def isCSI1Secret_def)
  then have "same_entry sample_types isCSI1Secret ''P'' (JArr [JObj [(''key'', JStr a)]]) (JArr [JObj [(''key'', JStr b)]])"
    by (intro same_public_same_entry.array) simp
  moreover have "field_type sample_types \<lparr>fd_name = ''parts'', fd_csi_secret = False, fd_type_name = Some ''.P''\<rparr> = Some ''P''"
    by (simp add: field_type_def sample_types_def strings_HasPrefix_def Let_def)
  ultimately show ?thesis
    by (intro same_public_same_entry.object [of _ _ "[\<lparr>fd_name = ''id'', fd_csi_secret = False, fd_type_name = None\<rparr>,
       \<lparr>fd_name = ''parts'', fd_csi_secret = False, fd_type_name = Some ''.P''\<rparr>]"])
      (auto simp: sample_types_def isCSI1Secret_def)
qed

theorem client_log_hides_secrets_witness:
  "\<exists>st1. LogGRPCClient sample_grow sample_types (newSimpleLogger level_Debug) (Some StripSecretsFormatter) None ''/m''
        (\<lambda>_ _ s. ((None, None), s)) (Some (sample_message ''a'')) (\<lparr>log_heap = [], log_lines = []\<rparr>, ()) = ((None, None), st1, ())
    \<and> LogGRPCClient sample_grow sample_types (newSimpleLogger level_Debug) (Some StripSecretsFormatter) None ''/m''
        (\<lambda>_ _ s. ((None, None), s)) (Some (sample_message ''b'')) (\<lparr>log_heap = [], log_lines = []\<rparr>, ()) = ((None, None), st1, ())"
proof -
  have "LogGRPCClient sample_grow sample_types (newSimpleLogger level_Debug) (Some StripSecretsFormatter) None ''/m''
        (\<lambda>_ _ s. ((None, None), s)) (Some (sample_message ''a'')) (\<lparr>log_heap = [], log_lines = []\<rparr>, ()) =
      LogGRPCClient sample_grow sample_types (newSimpleLogger level_Debug) (Some StripSecretsFormatter) None ''/m''
        (\<lambda>_ _ s. ((None, None), s)) (Some (sample_message ''b'')) (\<lparr>log_heap = [], log_lines = []\<rparr>, ())"
    by (rule client_log_hides_secrets
        [where p = "sample_message ''a''" and q = "sample_message ''b''"
          and jp = "JObj [(''id'', JStr ''v''), (''parts'', JArr [JObj [(''key'', JStr ''a'')]])]"
          and jq = "JObj [(''id'', JStr ''v''), (''parts'', JArr [JObj [(''key'', JStr ''b'')]])]"])
      (simp_all add: sample_message_def sample_same_public)
  then show ?thesis by (auto simp: LogGRPCClient_def split: prod.splits)
qed

end
