(* ===== verification/Spec2Isabelle.thy ===== *)
theory Spec2Isabelle
  imports Controller_Setup Csi_Host Csi_Driver Oim_Tracing
begin

text \<open>
  Verification of OIM, a control plane that attaches volumes of network storage to virtual
  machines and pods through an accelerator card. All source paths are relative to \<^verbatim>\<open>src/\<close>.

  \<^bold>\<open>The program.\<close> A CSI driver (\<^verbatim>\<open>pkg/oim-csi-driver\<close>) runs on every host and serves the calls of Kubernetes:
  it creates, deletes, stages and publishes volumes. It does so with one of two backends. The local one
  talks JSON-RPC to an SPDK daemon on the same host. The remote one sends gRPC calls to the OIM registry
  (\<^verbatim>\<open>pkg/oim-registry\<close>), a small database that is also a proxy: it forwards a call of host \<open>h\<close> to the OIM
  controller (\<^verbatim>\<open>pkg/oim-controller\<close>) that is registered for \<open>h\<close>. The controller drives the SPDK daemon on the
  card (\<^verbatim>\<open>pkg/spdk\<close>), which makes the volume appear as a SCSI disk of the host; the driver waits for that
  disk in sysfs and formats and mounts it (\<^verbatim>\<open>pkg/mount\<close>).

  \<^bold>\<open>How the code is modelled.\<close> A function with results \<^verbatim>\<open>(T, error)\<close> returns \<open>go_error + T\<close>; a function that may
  panic returns an \<open>outcome\<close>; \<open>None\<close> of an \<open>option\<close> around it means that the call does not return (a lock that
  is held, a loop that still waits). State is passed explicitly. \<^verbatim>\<open>int64\<close> values are integers with \<open>wrap64\<close>
  where they may overflow, \<^verbatim>\<open>uint32\<close> and device numbers are words. Errors keep their gRPC code and their
  text, because some branches depend on the text. Go's own library is modelled as far as it is used.

  \<^bold>\<open>The theories\<close>, from the bottom:

  \<^item> \<open>Oim_Prelude\<close>, \<open>Go_Strings\<close>, \<open>Go_Strconv\<close>, \<open>Go_Regexp\<close>, \<open>Go_Path\<close>, \<open>Go_Errors\<close>: integers, errors, outcomes and the parts
    of Go's library, with generic lemmas. The matcher of \<open>Go_Regexp\<close> is a total function by a measure.
  \<^item> \<open>Registry_Path\<close>, \<open>Pci_Address\<close>, \<open>Grpc_Common\<close>: \<^verbatim>\<open>pkg/oim-common\<close> (\<^verbatim>\<open>path.go\<close>, \<^verbatim>\<open>pci.go\<close>, \<^verbatim>\<open>grpc.go\<close>, \<^verbatim>\<open>server.go\<close>). Paths
    and PCI addresses have round trips between printing and parsing; it is shown exactly which texts are
    accepted, and that the conversions which panic on malformed digits are never given any.
  \<^item> \<open>Registry_DB\<close>, \<open>Registry\<close>: the database (\<^verbatim>\<open>memdb.go\<close>) behind the locale \<open>registry_db\<close>, and the handlers and the
    proxy (\<^verbatim>\<open>registry.go\<close>, \<^verbatim>\<open>tls.go\<close>). Shown are who can change which entry, what is returned for a path, when
    and where to a call is forwarded, and that every address a call is forwarded to was put there by the
    administrator or by the controller itself.
  \<^item> \<open>Spdk_Json\<close>, \<open>Spdk_Client\<close>, \<open>Spdk_Daemon\<close>: the JSON-RPC codec (\<^verbatim>\<open>client.go\<close>), the commands (\<^verbatim>\<open>spdk.go\<close>) and the daemon,
    translated from its C sources in \<^verbatim>\<open>vendor/github.com/spdk/spdk/lib\<close>. The locale \<open>spdk_service\<close> is what the
    controller relies on; it is interpreted on the daemon's model.
  \<^item> \<open>Volume_Controller\<close>, \<open>Controller_Setup\<close>: the controller's handlers, and its construction, registration
    loop and closing (\<^verbatim>\<open>controller.go\<close>). Mapping is idempotent, its success is characterised, unmapping
    undoes it, and no sequence of calls attaches a volume twice. The goroutines of the registration are a
    step relation with arbitrary changes of the registry in between.
  \<^item> \<open>Key_Mutex\<close>, \<open>Csi_Types\<close>, \<open>Csi_Backend\<close>, \<open>Csi_Controller\<close>: the lock table (\<^verbatim>\<open>serialize.go\<close> and the vendored
    \<^verbatim>\<open>keymutex\<close>) with concurrent callers as a step relation, the messages, the interface of a backend, and the
    controller service (\<^verbatim>\<open>controllerserver.go\<close>, \<^verbatim>\<open>controllerserver0.go\<close>). The locale \<open>volume_backend\<close> is the contract
    of a backend against an abstract store of volumes; inside it every sequence of CSI calls is shown to be
    a run of that store.
  \<^item> \<open>Csi_Local\<close>, \<open>Csi_Ceph\<close>, \<open>Csi_Device\<close>, \<open>Csi_Remote\<close>: the backends (\<^verbatim>\<open>local.go\<close>, \<^verbatim>\<open>remote.go\<close>), the Ceph emulation
    (\<^verbatim>\<open>ceph-csi.go\<close>) and the search for the disk. The local backend is an interpretation of \<open>volume_backend\<close>.
  \<^item> \<open>Oim_System\<close>: registry, proxy, controller and daemon put together as the world of the remote backend,
    and the interpretation of \<open>volume_backend\<close> on the whole.
  \<^item> \<open>Mount_Os\<close>, \<open>Mount_Parse\<close>, \<open>Mount_Interface\<close>, \<open>Mount_Format\<close>, \<open>Mount_Subpath\<close>, \<open>Mount_Mounter\<close>, \<open>Mount_Kernel\<close>: \<^verbatim>\<open>pkg/mount\<close>
    over a record of system calls. Disks that hold data are not formatted, descriptors do not leak,
    tables are parsed back completely. The locales \<open>disk_tools\<close>, \<open>fd_table\<close> and \<open>fd_mounts\<close> are interpreted on a
    small kernel in \<open>Mount_Kernel\<close>.
  \<^item> \<open>Csi_Node\<close>, \<open>Csi_Host\<close>, \<open>Csi_Driver\<close>: the node service (\<^verbatim>\<open>nodeserver.go\<close>, \<^verbatim>\<open>nodeserver0.go\<close>) over a system and a
    backend (locale \<open>node_host\<close>), both together on one host, and the construction of the driver
    (\<^verbatim>\<open>oim-driver.go\<close>, \<^verbatim>\<open>driver.go\<close>, \<^verbatim>\<open>driver0.go\<close>, \<^verbatim>\<open>identityserver.go\<close>, \<^verbatim>\<open>identityserver0.go\<close>).

  \<^item> \<open>Oim_Log\<close>, \<open>Oim_Tracing\<close>: the simple logger (\<^verbatim>\<open>pkg/log\<close>) over an explicit store of arrays, since the fields of loggers
    share them, and the interceptors that log calls (\<^verbatim>\<open>tracing.go\<close>) with the vendored sanitizer. What a client
    logs is shown not to depend on fields that are marked as secret; which secrets are not marked is shown too.

  \<^bold>\<open>Loops.\<close> Most loops run over a list and are structural recursions. \<open>waitForDevice\<close> is given the list of rounds
  to come, each with the directory and the event that wakes it; that it returns as soon as the disk is
  there is proved for every list. The search for a free NBD node in \<open>local_createDevice\<close> and \<open>removeEmptyDirs\<close> are
  partial functions; that they return is proved, for the first when some node is missing and for the
  second when the paths are clean and absolute, and a non-clean base is shown to be passed. The constant of
  \<^verbatim>\<open>consistentRead\<close> is the number of attempts of the source.

  \<^bold>\<open>Parameters.\<close> The following code is not part of the sources, or is transport only, and enters as arguments:
  gRPC dialling and calls, certificate files, the kernel's files and system calls, external programs such as
  \<^verbatim>\<open>mkfs\<close> and \<^verbatim>\<open>blkid\<close>, the order in which Go ranges over a map, and the success of a Ceph cluster. Contracts
  on them are locale assumptions, which hold in a concrete instance.

  \<^bold>\<open>Not modelled.\<close> The global logger, its helpers per level and the pipe of \<^verbatim>\<open>logging.go\<close> are left out, and so are the calls
  to the logger inside of the handlers, because no result depends on them. The commands in \<^verbatim>\<open>cmd\<close> parse flags and wait for signals.
  \<^verbatim>\<open>cmdmonitor.go\<close>, \<^verbatim>\<open>testlog\<close> and \<^verbatim>\<open>test\<close> support tests. The generated code in \<^verbatim>\<open>pkg/spec\<close> is represented by the message
  types only. The data path of SPDK and the commands that OIM does not send are left out. The lock around
  each handler of the controller is the subject of \<open>Key_Mutex\<close>, so that the handlers themselves are single steps. Time is
  not modelled: timers may fire at any moment, and contexts have no deadlines except where the code checks
  for them.
\<close>

end
